(* ===== verification/Gandalf_Prelude.thy ===== *)
theory Gandalf_Prelude
  imports Complex_Main "HOL-Library.Word" "HOL-Library.Multiset" "HOL-Library.Sublist"
begin

text \<open>
  What the component theories share: the Go value types as the development reads them, the
  few functions of Go's standard library the sources call on strings and numbers, and the
  generic lemmas on lists and maps that the component proofs use.

  \<^item> \<open>float64\<close> values (token counts, error weights, costs) are exact rationals. Rounding of
    IEEE arithmetic is not modelled; every error weight of the program is a multiple of one
    half, which a \<open>float64\<close> holds exactly.
  \<^item> \<open>time.Time\<close> and \<open>time.Duration\<close> are integers, in nanoseconds (times since the Unix
    epoch). Every call of \<open>time.Now\<close> is an argument of the operation that makes it, so no
    operation assumes that the clock is monotone unless its statement says so.
  \<^item> \<open>int\<close> and \<open>int64\<close> are unbounded integers, except where a computation of the source can
    leave the 64-bit range in a way that matters; there the wrap-around is written out with
    \<open>wrap64\<close>.
  \<^item> A Go map is a partial function. Go ranges over a map in an unspecified order, so an
    operation that does takes the order as an argument, a list of the keys.
\<close>

type_synonym float64 = rat
type_synonym gotime = int
type_synonym duration = int
type_synonym bytes = string

named_theorems go_simps \<open>unfoldings of the Go library functions\<close>
named_theorems reg_simps \<open>lookups after an operation of a keyed registry\<close>

section \<open>Numbers and time\<close>

definition second :: duration where
  "second = 1000000000"

text \<open>The zero value of \<open>time.Time\<close>, the first instant of the year 1.\<close>

definition zero_time :: gotime where
  "zero_time = - 62135596800 * second"

definition time_Unix :: "gotime \<Rightarrow> int" where
  "time_Unix t = t div second"

definition time_Sub :: "gotime \<Rightarrow> gotime \<Rightarrow> duration" where
  "time_Sub t u = t - u"

definition time_Before :: "gotime \<Rightarrow> gotime \<Rightarrow> bool" where
  "time_Before t u \<longleftrightarrow> t < u"

definition time_After :: "gotime \<Rightarrow> gotime \<Rightarrow> bool" where
  "time_After t u \<longleftrightarrow> u < t"

definition dur_Seconds :: "duration \<Rightarrow> float64" where
  "dur_Seconds d = of_int d / of_int second"

definition wrap64 :: "int \<Rightarrow> int" where
  "wrap64 x = (x + 2 ^ 63) mod 2 ^ 64 - 2 ^ 63"

definition in_int64 :: "int \<Rightarrow> bool" where
  "in_int64 x \<longleftrightarrow> - (2 ^ 63) \<le> x \<and> x < 2 ^ 63"

definition trunc_int :: "float64 \<Rightarrow> int" where
  "trunc_int r = (if 0 \<le> r then \<lfloor>r\<rfloor> else \<lceil>r\<rceil>)"

section \<open>Strings\<close>

definition strings_HasPrefix :: "string \<Rightarrow> string \<Rightarrow> bool" where
  "strings_HasPrefix s p \<longleftrightarrow> take (length p) s = p"

definition strings_TrimPrefix :: "string \<Rightarrow> string \<Rightarrow> string" where
  "strings_TrimPrefix s p = (if strings_HasPrefix s p then drop (length p) s else s)"

definition strings_CutPrefix :: "string \<Rightarrow> string \<Rightarrow> string \<times> bool" where
  "strings_CutPrefix s p = (if strings_HasPrefix s p then (drop (length p) s, True) else (s, False))"

text \<open>\<open>strings.Cut\<close> with a separator of one character: what stands before and after its
  first occurrence, and whether there is one.\<close>

fun strings_Cut :: "string \<Rightarrow> char \<Rightarrow> string \<times> string \<times> bool" where
  "strings_Cut [] c = ([], [], False)"
| "strings_Cut (x # xs) c =
     (if x = c then ([], xs, True)
      else (case strings_Cut xs c of (a, b, found) \<Rightarrow> (x # a, b, found)))"

definition strings_TrimRight :: "string \<Rightarrow> char \<Rightarrow> string" where
  "strings_TrimRight s c = rev (dropWhile (\<lambda>x. x = c) (rev s))"

text \<open>The verb \<open>%q\<close>, for text that needs no escapes.\<close>

definition fmt_q :: "string \<Rightarrow> string" where
  "fmt_q s = CHR 0x22 # s @ [CHR 0x22]"

section \<open>Lemmas\<close>

lemma strings_Cut_length:
  "strings_Cut s c = (a, b, f) \<Longrightarrow> length b \<le> length s \<and> (s \<noteq> [] \<longrightarrow> length b < length s)"
  by (induction s arbitrary: a b f) (fastforce split: if_splits prod.splits)+

lemma second_pos [simp]: "0 < second"
  by (simp add: second_def)

lemma time_Unix_mono: "t \<le> u \<Longrightarrow> time_Unix t \<le> time_Unix u"
  by (simp add: time_Unix_def zdiv_mono1)

lemma time_Unix_pos: "second \<le> t \<Longrightarrow> 0 < time_Unix t"
  using pos_imp_zdiv_pos_iff [of second t] by (simp add: time_Unix_def)

lemma wrap64_id: "in_int64 x \<Longrightarrow> wrap64 x = x"
  by (simp add: wrap64_def in_int64_def)

lemma in_int64_wrap64: "in_int64 (wrap64 x)"
proof -
  have "(x + 2 ^ 63) mod 2 ^ 64 < 2 ^ 64" and "0 \<le> (x + 2 ^ 63) mod (2 ^ 64 :: int)"
    by simp_all
  then show ?thesis
    by (simp add: wrap64_def in_int64_def)
qed

lemma strings_HasPrefix_append [simp]: "strings_HasPrefix (p @ s) p"
  by (simp add: strings_HasPrefix_def)

lemma strings_HasPrefix_iff: "strings_HasPrefix s p \<longleftrightarrow> (\<exists>r. s = p @ r)"
  by (metis append_eq_conv_conj append_take_drop_id strings_HasPrefix_append strings_HasPrefix_def)

lemma strings_TrimPrefix_append [simp]: "strings_TrimPrefix (p @ s) p = s"
  by (simp add: strings_TrimPrefix_def)

lemma strings_Cut_absent: "c \<notin> set s \<Longrightarrow> strings_Cut s c = (s, [], False)"
  by (induction s) auto

lemma strings_Cut_append: "c \<notin> set a \<Longrightarrow> strings_Cut (a @ c # b) c = (a, b, True)"
  by (induction a) auto

lemma strings_Cut_found:
  "strings_Cut s c = (a, b, True) \<Longrightarrow> s = a @ c # b \<and> c \<notin> set a"
  by (induction s arbitrary: a b) (auto split: if_splits prod.splits)

lemma trunc_int_le: "0 \<le> r \<Longrightarrow> of_int (trunc_int r) \<le> r"
  by (simp add: trunc_int_def)

lemma trunc_int_nonneg: "0 \<le> r \<Longrightarrow> 0 \<le> trunc_int r"
  by (simp add: trunc_int_def)

end
