(* ===== verification/Object_Registry.thy ===== *)
theory Object_Registry
  imports Gandalf_Prelude
begin

text \<open>
  A Go \<open>map[string]*T\<close> whose objects are shared by pointer, as the breaker registry and the
  limiter registry keep them: the map holds addresses, the objects live in a heap, and a caller
  that got a pointer keeps using its object even after the map entry was replaced or evicted.
  The locale \<open>object_registry\<close> is the contract of such a registry: \<open>GetOrCreate\<close> and the
  two-phase \<open>EvictStale\<close>. Both registries interpret it.
\<close>

section \<open>Maps of pointers\<close>

record 'v pmap =
  pm_ptr :: "string \<rightharpoonup> nat"
  pm_heap :: "'v list"

definition pm_wf :: "'v pmap \<Rightarrow> bool" where
  "pm_wf r \<longleftrightarrow> (\<forall>k a. pm_ptr r k = Some a \<longrightarrow> a < length (pm_heap r)) \<and>
     (\<forall>k k' a. pm_ptr r k = Some a \<longrightarrow> pm_ptr r k' = Some a \<longrightarrow> k = k')"

definition pm_empty :: "'v pmap" where
  "pm_empty = \<lparr>pm_ptr = Map.empty, pm_heap = []\<rparr>"

definition pm_obj :: "'v pmap \<Rightarrow> nat \<Rightarrow> 'v" where
  "pm_obj r a = pm_heap r ! a"

definition pm_alloc :: "string \<Rightarrow> 'v \<Rightarrow> 'v pmap \<Rightarrow> nat \<times> 'v pmap" where
  "pm_alloc k v r =
     (length (pm_heap r),
      \<lparr>pm_ptr = (pm_ptr r)(k \<mapsto> length (pm_heap r)), pm_heap = pm_heap r @ [v]\<rparr>)"

definition pm_write :: "nat \<Rightarrow> 'v \<Rightarrow> 'v pmap \<Rightarrow> 'v pmap" where
  "pm_write a v r = r\<lparr>pm_heap := (pm_heap r)[a := v]\<rparr>"

definition pm_delete :: "string \<Rightarrow> 'v pmap \<Rightarrow> 'v pmap" where
  "pm_delete k r = r\<lparr>pm_ptr := (pm_ptr r)(k := None)\<rparr>"

definition pm_lookup :: "'v pmap \<Rightarrow> string \<Rightarrow> 'v option" where
  "pm_lookup r k = map_option (pm_obj r) (pm_ptr r k)"

lemma pm_wf_empty [simp]: "pm_wf pm_empty"
  by (simp add: pm_wf_def pm_empty_def)

lemma pm_wf_bound: "pm_wf r \<Longrightarrow> pm_ptr r k = Some a \<Longrightarrow> a < length (pm_heap r)"
  by (auto simp: pm_wf_def)

lemma pm_wf_inj: "pm_wf r \<Longrightarrow> pm_ptr r k = Some a \<Longrightarrow> pm_ptr r k' = Some a \<Longrightarrow> k = k'"
  by (auto simp: pm_wf_def)

lemma pm_wf_alloc [simp]: "pm_wf r \<Longrightarrow> pm_wf (snd (pm_alloc k v r))"
  by (auto simp: pm_wf_def pm_alloc_def less_Suc_eq)

lemma pm_wf_write [simp]: "pm_wf (pm_write a v r) = pm_wf r"
  by (simp add: pm_wf_def pm_write_def)

lemma pm_wf_delete [simp]: "pm_wf r \<Longrightarrow> pm_wf (pm_delete k r)"
  by (auto simp: pm_wf_def pm_delete_def)

lemma pm_ptr_write [simp]: "pm_ptr (pm_write a v r) = pm_ptr r"
  by (simp add: pm_write_def)

lemma pm_heap_delete [simp]: "pm_heap (pm_delete k r) = pm_heap r"
  by (simp add: pm_delete_def)

lemma pm_ptr_delete [simp]: "pm_ptr (pm_delete k r) = (pm_ptr r)(k := None)"
  by (simp add: pm_delete_def)

lemma pm_obj_delete [simp]: "pm_obj (pm_delete k r) = pm_obj r"
  by (simp add: pm_obj_def fun_eq_iff)

lemma pm_obj_write:
  "a < length (pm_heap r) \<Longrightarrow> pm_obj (pm_write a v r) a' = (if a' = a then v else pm_obj r a')"
  by (auto simp: pm_obj_def pm_write_def)

lemma pm_lookup_write:
  "pm_wf r \<Longrightarrow> pm_ptr r k = Some a \<Longrightarrow> pm_lookup (pm_write a v r) = (pm_lookup r)(k \<mapsto> v)"
  by (auto simp: pm_lookup_def pm_obj_write pm_wf_bound fun_eq_iff map_option_case
      split: option.split dest: pm_wf_inj)

lemma pm_lookup_delete [simp]: "pm_lookup (pm_delete k r) = (pm_lookup r)(k := None)"
  by (auto simp: pm_lookup_def fun_eq_iff)

lemma pm_lookup_alloc:
  "pm_wf r \<Longrightarrow> pm_lookup (snd (pm_alloc k v r)) = (pm_lookup r)(k \<mapsto> v)"
  by (auto simp: pm_lookup_def pm_alloc_def pm_obj_def fun_eq_iff nth_append map_option_case
      split: option.split dest: pm_wf_bound)

section \<open>Two-phase eviction\<close>

text \<open>
  Phase 1 collects, under the read lock, the stale keys in the order the map iteration visits
  them. Phase 2 runs later under the write lock, on whatever the registry has become, and
  checks each key again before it deletes it. The predicate says whether an object is stale.
\<close>

definition evict_scan :: "('v \<Rightarrow> bool) \<Rightarrow> string list \<Rightarrow> 'v pmap \<Rightarrow> string list" where
  "evict_scan stale order r =
     filter (\<lambda>k. case pm_lookup r k of Some v \<Rightarrow> stale v | None \<Rightarrow> False) order"

fun evict_delete :: "('v \<Rightarrow> bool) \<Rightarrow> string list \<Rightarrow> nat \<times> 'v pmap \<Rightarrow> nat \<times> 'v pmap" where
  "evict_delete stale [] (n, r) = (n, r)"
| "evict_delete stale (k # ks) (n, r) =
     (case pm_lookup r k of
        Some v \<Rightarrow> if stale v then evict_delete stale ks (n + 1, pm_delete k r)
                   else evict_delete stale ks (n, r)
      | None \<Rightarrow> evict_delete stale ks (n, r))"

lemma evict_delete_lookup:
  "pm_lookup (snd (evict_delete stale ks (n, r))) =
     (\<lambda>k. case pm_lookup r k of
        Some v \<Rightarrow> if k \<in> set ks \<and> stale v then None else Some v | None \<Rightarrow> None)"
proof (induction ks arbitrary: n r)
  case (Cons k ks)
  then show ?case by (fastforce simp: fun_eq_iff split: option.splits)
qed (auto simp: fun_eq_iff split: option.splits)

lemma evict_delete_wf: "pm_wf r \<Longrightarrow> pm_wf (snd (evict_delete stale ks (n, r)))"
  by (induction ks arbitrary: n r) (auto split: option.splits)

lemma evict_delete_heap: "pm_heap (snd (evict_delete stale ks (n, r))) = pm_heap r"
  by (induction ks arbitrary: n r) (auto split: option.splits)

lemma evict_delete_count:
  assumes "distinct ks"
  shows "fst (evict_delete stale ks (n, r)) =
    n + length (filter (\<lambda>k. case pm_lookup r k of Some v \<Rightarrow> stale v | None \<Rightarrow> False) ks)"
  using assms
proof (induction ks arbitrary: n r)
  case (Cons k ks)
  have "filter (\<lambda>j. case ((pm_lookup r)(k := None)) j of Some v \<Rightarrow> stale v | None \<Rightarrow> False) ks =
        filter (\<lambda>j. case pm_lookup r j of Some v \<Rightarrow> stale v | None \<Rightarrow> False) ks"
    using Cons.prems by (intro filter_cong) auto
  with Cons show ?case by (auto split: option.splits)
qed simp

section \<open>The contract\<close>

text \<open>
  \<open>goc key arg now r\<close> is \<open>GetOrCreate\<close>; \<open>fits v arg\<close> tells whether an existing object serves
  the request; \<open>used v\<close> is the instant the object was last used.
\<close>

locale object_registry =
  fixes goc :: "string \<Rightarrow> 'a \<Rightarrow> gotime \<Rightarrow> 'v pmap \<Rightarrow> nat \<times> 'v pmap"
    and fits :: "'v \<Rightarrow> 'a \<Rightarrow> bool"
    and used :: "'v \<Rightarrow> gotime"
  assumes goc_hit: "pm_ptr r k = Some p \<Longrightarrow> fits (pm_obj r p) a \<Longrightarrow> goc k a now r = (p, r)"
    and goc_miss: "(\<And>p. pm_ptr r k = Some p \<Longrightarrow> \<not> fits (pm_obj r p) a) \<Longrightarrow>
        \<exists>v. fits v a \<and> used v = now \<and> goc k a now r = pm_alloc k v r"
begin

lemma goc_cases:
  obtains (hit) p where "pm_ptr r k = Some p" "fits (pm_obj r p) a" "goc k a now r = (p, r)"
  | (new) v where "fits v a" "used v = now" "goc k a now r = pm_alloc k v r"
      "\<And>p. pm_ptr r k = Some p \<Longrightarrow> \<not> fits (pm_obj r p) a"
  using goc_hit [of r k _ a now] goc_miss [of r k a now] by meson

lemma goc_wf: "pm_wf r \<Longrightarrow> pm_wf (snd (goc k a now r))"
  by (rule goc_cases [of r k a now]) auto

text \<open>The pointer returned is the one the map now holds, and its object fits the request.\<close>

lemma goc_ptr:
  "pm_wf r \<Longrightarrow> pm_ptr (snd (goc k a now r)) k = Some (fst (goc k a now r)) \<and>
     fst (goc k a now r) < length (pm_heap (snd (goc k a now r))) \<and>
     fits (pm_obj (snd (goc k a now r)) (fst (goc k a now r))) a"
  by (rule goc_cases [of r k a now]) (auto simp: pm_alloc_def pm_obj_def pm_wf_bound)

text \<open>Other keys and every object already handed out are left alone.\<close>

lemma goc_frame:
  "k' \<noteq> k \<Longrightarrow> pm_ptr (snd (goc k a now r)) k' = pm_ptr r k'"
  by (rule goc_cases [of r k a now]) (auto simp: pm_alloc_def)

lemma goc_objects:
  "p < length (pm_heap r) \<Longrightarrow> pm_obj (snd (goc k a now r)) p = pm_obj r p"
  by (rule goc_cases [of r k a now]) (auto simp: pm_alloc_def pm_obj_def nth_append)

text \<open>Asking again, for the same key and argument, returns the same object.\<close>

lemma goc_again:
  assumes "pm_wf r"
  shows "goc k a now' (snd (goc k a now r)) = goc k a now r"
  using goc_hit [of "snd (goc k a now r)" k "fst (goc k a now r)" a now'] goc_ptr [OF assms, of k a now]
  by (cases "goc k a now r") auto

text \<open>Two keys never share an object.\<close>

lemma goc_distinct:
  assumes "pm_wf r" and "k' \<noteq> k"
  shows "pm_ptr (snd (goc k a now r)) k' \<noteq> Some (fst (goc k a now r))"
  using goc_ptr [OF assms(1), of k a now] pm_wf_inj [OF goc_wf [OF assms(1)], of k a now k _ k'] assms(2)
  by fastforce

text \<open>
  Eviction: with the registry \<open>r\<close> at the first phase and \<open>r'\<close> at the second, exactly the keys
  of the scan that are still stale at the second phase go; a scan over all keys of an unchanged
  registry removes exactly the stale ones and counts them.
\<close>

definition evict :: "gotime \<Rightarrow> string list \<Rightarrow> 'v pmap \<Rightarrow> 'v pmap \<Rightarrow> nat \<times> 'v pmap" where
  "evict cutoff order r r' =
     evict_delete (\<lambda>v. time_Before (used v) cutoff) (evict_scan (\<lambda>v. time_Before (used v) cutoff) order r) (0, r')"

lemma evict_keeps_fresh:
  "pm_lookup r' k = Some v \<Longrightarrow> cutoff \<le> used v \<Longrightarrow> pm_lookup (snd (evict cutoff order r r')) k = Some v"
  by (simp add: evict_def evict_delete_lookup time_Before_def)

lemma evict_all:
  assumes "set order = dom (pm_lookup r)"
  shows "pm_lookup (snd (evict cutoff order r r)) =
    (\<lambda>k. case pm_lookup r k of Some v \<Rightarrow> if used v < cutoff then None else Some v | None \<Rightarrow> None)"
  using assms by (auto simp: evict_def evict_delete_lookup evict_scan_def time_Before_def fun_eq_iff
      split: option.splits)

lemma evict_count:
  assumes "set order = dom (pm_lookup r)" and "distinct order"
  shows "fst (evict cutoff order r r) = card {k. \<exists>v. pm_lookup r k = Some v \<and> used v < cutoff}"
proof -
  let ?P = "\<lambda>k. case pm_lookup r k of Some v \<Rightarrow> time_Before (used v) cutoff | None \<Rightarrow> False"
  have "fst (evict cutoff order r r) = length (filter ?P (filter ?P order))"
    using assms(2) by (simp add: evict_def evict_scan_def evict_delete_count)
  also have "\<dots> = card (set (filter ?P order))"
    using assms(2) distinct_card [of "filter ?P order"] by (simp add: filter_filter)
  also have "set (filter ?P order) = {k. \<exists>v. pm_lookup r k = Some v \<and> used v < cutoff}"
    using assms(1) by (auto simp: time_Before_def split: option.splits)
  finally show ?thesis .
qed

end

end
