(* ===== verification/Rate_Limit.thy ===== *)
theory Rate_Limit
  imports Object_Registry
begin

text \<open>
  The rate limiter of \<open>internal/ratelimit/ratelimit.go\<close>: token buckets with lazy refill, the
  limiter of one key with its request (RPM) and token (TPM) buckets, and the registry of
  limiters, which interprets \<open>object_registry\<close> (an existing limiter serves while the key's
  limits are unchanged). Every operation of a limiter runs under its mutex and is one step.
\<close>

section \<open>Buckets\<close>

record Limits =
  lm_RPM :: int
  lm_TPM :: int

record Result =
  res_Allowed :: bool
  res_Limit :: int
  res_Remaining :: int
  res_RetryAfterSeconds :: float64

record Bucket =
  bt_tokens :: float64
  bt_max :: float64
  bt_rate :: float64
  bt_lastFill :: gotime

definition newBucket :: "int \<Rightarrow> gotime \<Rightarrow> Bucket" where
  "newBucket limit now =
     \<lparr>bt_tokens = of_int limit, bt_max = of_int limit, bt_rate = of_int limit / 60, bt_lastFill = now\<rparr>"

definition refill :: "Bucket \<Rightarrow> gotime \<Rightarrow> Bucket" where
  "refill b now =
     (let elapsed = dur_Seconds (time_Sub now (bt_lastFill b)) in
      if elapsed \<le> 0 then b
      else b\<lparr>bt_tokens := min (bt_max b) (bt_tokens b + elapsed * bt_rate b), bt_lastFill := now\<rparr>)"

definition tryConsume :: "Bucket \<Rightarrow> float64 \<Rightarrow> gotime \<Rightarrow> int \<times> bool \<times> Bucket" where
  "tryConsume b n now =
     (let b = refill b now in
      if bt_tokens b \<ge> n
      then let b = b\<lparr>bt_tokens := bt_tokens b - n\<rparr> in (trunc_int (bt_tokens b), True, b)
      else (0, False, b))"

definition retryAfter :: "Bucket \<Rightarrow> float64 \<Rightarrow> float64" where
  "retryAfter b n =
     (if bt_tokens b \<ge> n then 0
      else let deficit = n - bt_tokens b in deficit / bt_rate b)"

definition remaining :: "Bucket \<Rightarrow> int" where
  "remaining b = trunc_int (bt_tokens b)"

definition adjust :: "Bucket \<Rightarrow> float64 \<Rightarrow> Bucket" where
  "adjust b delta = b\<lparr>bt_tokens := min (bt_max b) (max 0 (bt_tokens b + delta))\<rparr>"

section \<open>Limiters\<close>

record Limiter =
  lim_rpm :: "Bucket option"
  lim_tpm :: "Bucket option"
  lim_limits :: Limits
  lim_lastUsed :: gotime

text \<open>Three clock readings: the limiter's, and those of the buckets it creates.\<close>

definition newLimiter :: "Limits \<Rightarrow> gotime \<Rightarrow> gotime \<Rightarrow> gotime \<Rightarrow> Limiter" where
  "newLimiter limits now t_rpm t_tpm =
     \<lparr>lim_rpm = (if lm_RPM limits > 0 then Some (newBucket (lm_RPM limits) t_rpm) else None),
      lim_tpm = (if lm_TPM limits > 0 then Some (newBucket (lm_TPM limits) t_tpm) else None),
      lim_limits = limits, lim_lastUsed = now\<rparr>"

definition unlimited :: Result where
  "unlimited = \<lparr>res_Allowed = True, res_Limit = 0, res_Remaining = 0, res_RetryAfterSeconds = 0\<rparr>"

definition AllowRPM :: "Limiter \<Rightarrow> gotime \<Rightarrow> Result \<times> Limiter" where
  "AllowRPM l now =
     (let l = l\<lparr>lim_lastUsed := now\<rparr> in
      case lim_rpm l of
        None \<Rightarrow> (unlimited, l)
      | Some bk \<Rightarrow>
          (case tryConsume bk 1 now of (rem, ok, bk) \<Rightarrow>
             let l = l\<lparr>lim_rpm := Some bk\<rparr> in
             if ok
             then (\<lparr>res_Allowed = True, res_Limit = lm_RPM (lim_limits l), res_Remaining = rem,
                    res_RetryAfterSeconds = 0\<rparr>, l)
             else (\<lparr>res_Allowed = False, res_Limit = lm_RPM (lim_limits l), res_Remaining = 0,
                    res_RetryAfterSeconds = retryAfter bk 1\<rparr>, l)))"

definition ConsumeTPM :: "Limiter \<Rightarrow> int \<Rightarrow> gotime \<Rightarrow> Result \<times> Limiter" where
  "ConsumeTPM l estimated now =
     (let l = l\<lparr>lim_lastUsed := now\<rparr> in
      case lim_tpm l of
        None \<Rightarrow> (unlimited, l)
      | Some bk \<Rightarrow>
          (case tryConsume bk (of_int estimated) now of (rem, ok, bk) \<Rightarrow>
             let l = l\<lparr>lim_tpm := Some bk\<rparr> in
             if ok
             then (\<lparr>res_Allowed = True, res_Limit = lm_TPM (lim_limits l), res_Remaining = rem,
                    res_RetryAfterSeconds = 0\<rparr>, l)
             else (\<lparr>res_Allowed = False, res_Limit = lm_TPM (lim_limits l), res_Remaining = 0,
                    res_RetryAfterSeconds = retryAfter bk (of_int estimated)\<rparr>, l)))"

definition AdjustTPM :: "Limiter \<Rightarrow> int \<Rightarrow> Limiter" where
  "AdjustTPM l delta =
     (case lim_tpm l of None \<Rightarrow> l | Some bk \<Rightarrow> l\<lparr>lim_tpm := Some (adjust bk (of_int delta))\<rparr>)"

definition RPMResult :: "Limiter \<Rightarrow> gotime \<Rightarrow> Result \<times> Limiter" where
  "RPMResult l now =
     (case lim_rpm l of
        None \<Rightarrow> (unlimited, l)
      | Some bk \<Rightarrow>
          let bk = refill bk now in
          (\<lparr>res_Allowed = True, res_Limit = lm_RPM (lim_limits l), res_Remaining = remaining bk,
            res_RetryAfterSeconds = 0\<rparr>, l\<lparr>lim_rpm := Some bk\<rparr>))"

section \<open>The registry\<close>

type_synonym limiter_Registry = "Limiter pmap"

definition rl_NewRegistry :: limiter_Registry where
  "rl_NewRegistry = pm_empty"

text \<open>The last two components of the argument are the clock readings of the buckets.\<close>

definition rl_GetOrCreate ::
  "string \<Rightarrow> Limits \<times> gotime \<times> gotime \<Rightarrow> gotime \<Rightarrow> limiter_Registry \<Rightarrow> nat \<times> limiter_Registry" where
  "rl_GetOrCreate keyID arg now r =
     (case arg of (limits, t_rpm, t_tpm) \<Rightarrow>
      case pm_ptr r keyID of
        Some l \<Rightarrow>
          if lim_limits (pm_obj r l) = limits then (l, r)
          else pm_alloc keyID (newLimiter limits now t_rpm t_tpm) r
      | None \<Rightarrow> pm_alloc keyID (newLimiter limits now t_rpm t_tpm) r)"

definition limiter_stale :: "gotime \<Rightarrow> Limiter \<Rightarrow> bool" where
  "limiter_stale cutoff l = time_Before (lim_lastUsed l) cutoff"

definition rl_EvictStale ::
  "gotime \<Rightarrow> string list \<Rightarrow> limiter_Registry \<Rightarrow> limiter_Registry \<Rightarrow> nat \<times> limiter_Registry" where
  "rl_EvictStale cutoff order r r' =
     (let staleKeys = evict_scan (limiter_stale cutoff) order r in
      if staleKeys = [] then (0, r')
      else evict_delete (limiter_stale cutoff) staleKeys (0, r'))"

interpretation limiters: object_registry rl_GetOrCreate "\<lambda>l arg. lim_limits l = fst arg" lim_lastUsed
proof unfold_locales
  fix r :: "Limiter pmap" and k and a :: "Limits \<times> gotime \<times> gotime" and now :: gotime
  assume miss: "\<And>p. pm_ptr r k = Some p \<Longrightarrow> lim_limits (pm_obj r p) \<noteq> fst a"
  obtain limits t1 t2 where a: "a = (limits, t1, t2)" by (cases a)
  have "rl_GetOrCreate k a now r = pm_alloc k (newLimiter limits now t1 t2) r"
    using miss a by (auto simp: rl_GetOrCreate_def split: option.split)
  then show "\<exists>v. lim_limits v = fst a \<and> lim_lastUsed v = now \<and> rl_GetOrCreate k a now r = pm_alloc k v r"
    using a by (intro exI [of _ "newLimiter limits now t1 t2"]) (simp add: newLimiter_def)
qed (auto simp: rl_GetOrCreate_def)

lemma rl_EvictStale_eq: "rl_EvictStale cutoff order r r' = limiters.evict cutoff order r r'"
proof -
  have "limiter_stale cutoff = (\<lambda>v. time_Before (lim_lastUsed v) cutoff)"
    by (simp add: fun_eq_iff limiter_stale_def)
  then show ?thesis by (auto simp: rl_EvictStale_def limiters.evict_def Let_def)
qed

section \<open>Bucket lemmas\<close>

definition bucket_ok :: "Bucket \<Rightarrow> bool" where
  "bucket_ok b \<longleftrightarrow> 0 \<le> bt_tokens b \<and> bt_tokens b \<le> bt_max b \<and> 0 < bt_rate b"

lemma newBucket_ok [simp]: "0 < limit \<Longrightarrow> bucket_ok (newBucket limit now)"
  by (simp add: bucket_ok_def newBucket_def)

lemma refill_sel [simp]: "bt_max (refill b now) = bt_max b" "bt_rate (refill b now) = bt_rate b"
  by (simp_all add: refill_def Let_def)

lemma refill_ok [simp]: "bucket_ok b \<Longrightarrow> bucket_ok (refill b now)"
  by (auto simp: bucket_ok_def refill_def Let_def)

lemma dur_Seconds_le_0: "dur_Seconds (time_Sub t u) \<le> 0 \<longleftrightarrow> t \<le> u"
  by (simp add: dur_Seconds_def time_Sub_def second_def divide_le_0_iff)

lemma refill_lastFill: "bt_lastFill (refill b now) = max (bt_lastFill b) now"
  by (auto simp: refill_def Let_def dur_Seconds_le_0)

lemma tryConsume_ok: "bucket_ok b \<Longrightarrow> 0 \<le> n \<Longrightarrow> bucket_ok (snd (snd (tryConsume b n now)))"
  using refill_ok [of b now] by (auto simp: bucket_ok_def tryConsume_def Let_def)

lemma tryConsume_sel [simp]:
  "bt_max (snd (snd (tryConsume b n now))) = bt_max b"
  "bt_rate (snd (snd (tryConsume b n now))) = bt_rate b"
  "bt_lastFill (snd (snd (tryConsume b n now))) = max (bt_lastFill b) now"
  by (simp_all add: tryConsume_def Let_def refill_lastFill)

lemma adjust_ok [simp]: "bucket_ok b \<Longrightarrow> bucket_ok (adjust b d)"
  by (auto simp: bucket_ok_def adjust_def)

text \<open>The credit a bucket can hand out up to an instant \<open>T\<close>: what it holds and what will flow in.\<close>

definition credit :: "gotime \<Rightarrow> Bucket \<Rightarrow> float64" where
  "credit T b = bt_tokens b + dur_Seconds (time_Sub T (bt_lastFill b)) * bt_rate b"

lemma dur_Seconds_split:
  "dur_Seconds (time_Sub T u) = dur_Seconds (time_Sub T t) + dur_Seconds (time_Sub t u)"
  by (simp add: dur_Seconds_def time_Sub_def diff_divide_distrib)

lemma credit_refill: "credit T (refill b now) \<le> credit T b"
proof (cases "dur_Seconds (time_Sub now (bt_lastFill b)) \<le> 0")
  case False
  have "credit T (refill b now) \<le> bt_tokens b
      + dur_Seconds (time_Sub now (bt_lastFill b)) * bt_rate b + dur_Seconds (time_Sub T now) * bt_rate b"
    using False by (simp add: credit_def refill_def Let_def)
  also have "\<dots> = credit T b"
    by (simp add: credit_def dur_Seconds_split [of T "bt_lastFill b" now] algebra_simps)
  finally show ?thesis .
qed (simp add: refill_def)

lemma credit_tryConsume:
  "credit T (snd (snd (tryConsume b n now))) + (if fst (snd (tryConsume b n now)) then n else 0) \<le> credit T b"
  using credit_refill [of T b now] by (auto simp: tryConsume_def Let_def credit_def)

lemma credit_adjust: "bucket_ok b \<Longrightarrow> credit T (adjust b d) \<le> credit T b + max 0 d"
  by (auto simp: credit_def adjust_def bucket_ok_def)

lemma credit_nonneg:
  "bucket_ok b \<Longrightarrow> bt_lastFill b \<le> T \<Longrightarrow> 0 \<le> credit T b"
  by (simp add: credit_def bucket_ok_def dur_Seconds_def time_Sub_def second_def)

section \<open>Sequences of operations on one limiter\<close>

datatype lim_op = OpRPM gotime | OpTPM int gotime | OpAdjust int | OpRPMResult gotime

fun op_time :: "lim_op \<Rightarrow> gotime option" where
  "op_time (OpRPM t) = Some t"
| "op_time (OpTPM n t) = Some t"
| "op_time (OpAdjust d) = None"
| "op_time (OpRPMResult t) = Some t"

fun lim_exec :: "Limiter \<Rightarrow> lim_op \<Rightarrow> Result option \<times> Limiter" where
  "lim_exec l (OpRPM t) = (case AllowRPM l t of (r, l) \<Rightarrow> (Some r, l))"
| "lim_exec l (OpTPM n t) = (case ConsumeTPM l n t of (r, l) \<Rightarrow> (Some r, l))"
| "lim_exec l (OpAdjust d) = (None, AdjustTPM l d)"
| "lim_exec l (OpRPMResult t) = (case RPMResult l t of (r, l) \<Rightarrow> (Some r, l))"

fun lim_run :: "Limiter \<Rightarrow> lim_op list \<Rightarrow> (lim_op \<times> Result option) list \<times> Limiter" where
  "lim_run l [] = ([], l)"
| "lim_run l (op # ops) =
     (case lim_exec l op of (r, l) \<Rightarrow> case lim_run l ops of (tr, l) \<Rightarrow> ((op, r) # tr, l))"

fun rpm_granted :: "lim_op \<times> Result option \<Rightarrow> float64" where
  "rpm_granted (OpRPM t, Some r) = (if res_Allowed r then 1 else 0)"
| "rpm_granted _ = 0"

fun tpm_granted :: "lim_op \<times> Result option \<Rightarrow> float64" where
  "tpm_granted (OpTPM n t, Some r) = (if res_Allowed r then of_int n else 0)"
| "tpm_granted _ = 0"

fun op_refund :: "lim_op \<Rightarrow> float64" where
  "op_refund (OpAdjust d) = max 0 (of_int d)"
| "op_refund _ = 0"

fun op_ok :: "lim_op \<Rightarrow> bool" where
  "op_ok (OpTPM n t) \<longleftrightarrow> 0 \<le> n"
| "op_ok _ \<longleftrightarrow> True"

lemma adjust_sel [simp]:
  "bt_max (adjust b d) = bt_max b" "bt_rate (adjust b d) = bt_rate b" "bt_lastFill (adjust b d) = bt_lastFill b"
  by (simp_all add: adjust_def)

lemmas limiter_defs = AllowRPM_def ConsumeTPM_def AdjustTPM_def RPMResult_def

text \<open>What an operation does to either bucket, and what it grants.\<close>

lemma lim_exec_rpm:
  assumes "lim_rpm l = Some b"
  shows "lim_rpm (snd (lim_exec l op)) =
      Some (case op of OpRPM t \<Rightarrow> snd (snd (tryConsume b 1 t)) | OpRPMResult t \<Rightarrow> refill b t | _ \<Rightarrow> b)"
    and "rpm_granted (op, fst (lim_exec l op)) =
      (case op of OpRPM t \<Rightarrow> if fst (snd (tryConsume b 1 t)) then 1 else 0 | _ \<Rightarrow> 0)"
  using assms by (cases op; simp add: limiter_defs split_def Let_def split: option.split)+

lemma lim_exec_tpm:
  assumes "lim_tpm l = Some b"
  shows "lim_tpm (snd (lim_exec l op)) =
      Some (case op of OpTPM n t \<Rightarrow> snd (snd (tryConsume b (of_int n) t)) | OpAdjust d \<Rightarrow> adjust b (of_int d) | _ \<Rightarrow> b)"
    and "tpm_granted (op, fst (lim_exec l op)) =
      (case op of OpTPM n t \<Rightarrow> if fst (snd (tryConsume b (of_int n) t)) then of_int n else 0 | _ \<Rightarrow> 0)"
  using assms by (cases op; simp add: limiter_defs split_def Let_def split: option.split)+

lemma lim_exec_none:
  "lim_rpm l = None \<Longrightarrow> lim_rpm (snd (lim_exec l op)) = None"
  "lim_tpm l = None \<Longrightarrow> lim_tpm (snd (lim_exec l op)) = None"
  by (cases op; simp add: limiter_defs split_def Let_def split: option.split)+

lemma lim_exec_limits [simp]: "lim_limits (snd (lim_exec l op)) = lim_limits l"
  by (cases op) (simp_all add: limiter_defs split_def Let_def split: option.split)

declare lim_exec.simps [simp del]

definition rpm_ok :: "Limiter \<Rightarrow> bool" where
  "rpm_ok l \<longleftrightarrow>
     (case lim_rpm l of Some b \<Rightarrow> bucket_ok b \<and> 1 \<le> bt_max b \<and> bt_max b = of_int (lm_RPM (lim_limits l))
      | None \<Rightarrow> lm_RPM (lim_limits l) \<le> 0)"

definition tpm_ok :: "Limiter \<Rightarrow> bool" where
  "tpm_ok l \<longleftrightarrow>
     (case lim_tpm l of Some b \<Rightarrow> bucket_ok b \<and> bt_max b = of_int (lm_TPM (lim_limits l))
      | None \<Rightarrow> lm_TPM (lim_limits l) \<le> 0)"

lemma lim_exec_rpm_ok: "rpm_ok l \<Longrightarrow> rpm_ok (snd (lim_exec l op))"
proof (cases "lim_rpm l")
  case (Some b)
  assume "rpm_ok l"
  with Some show ?thesis
    by (cases op) (simp_all add: rpm_ok_def lim_exec_rpm tryConsume_ok)
qed (simp add: rpm_ok_def lim_exec_none)

lemma lim_exec_tpm_ok: "tpm_ok l \<Longrightarrow> op_ok op \<Longrightarrow> tpm_ok (snd (lim_exec l op))"
proof (cases "lim_tpm l")
  case (Some b)
  assume "tpm_ok l" "op_ok op"
  with Some show ?thesis
    by (cases op) (simp_all add: tpm_ok_def lim_exec_tpm tryConsume_ok)
qed (simp add: tpm_ok_def lim_exec_none)

definition limiter_ok :: "Limiter \<Rightarrow> bool" where
  "limiter_ok l \<longleftrightarrow> rpm_ok l \<and> tpm_ok l"

lemma newLimiter_ok [simp]: "limiter_ok (newLimiter limits now t1 t2)"
  by (auto simp: limiter_ok_def rpm_ok_def tpm_ok_def newLimiter_def newBucket_def bucket_ok_def)

lemma lim_exec_ok: "limiter_ok l \<Longrightarrow> op_ok op \<Longrightarrow> limiter_ok (snd (lim_exec l op))"
  by (simp add: limiter_ok_def lim_exec_rpm_ok lim_exec_tpm_ok)

lemma lim_run_ok:
  "limiter_ok l \<Longrightarrow> \<forall>op \<in> set ops. op_ok op \<Longrightarrow> limiter_ok (snd (lim_run l ops))"
  by (induction ops arbitrary: l) (auto simp: split_def lim_exec_ok)

text \<open>One step never creates credit, except by a refund.\<close>

definition rpm_credit :: "gotime \<Rightarrow> Limiter \<Rightarrow> float64" where
  "rpm_credit T l = (case lim_rpm l of Some b \<Rightarrow> credit T b | None \<Rightarrow> 0)"

definition tpm_credit :: "gotime \<Rightarrow> Limiter \<Rightarrow> float64" where
  "tpm_credit T l = (case lim_tpm l of Some b \<Rightarrow> credit T b | None \<Rightarrow> 0)"

lemma rpm_credit_step:
  assumes "lim_rpm l = Some b"
  shows "rpm_credit T (snd (lim_exec l op)) + rpm_granted (op, fst (lim_exec l op)) \<le> rpm_credit T l"
  using credit_tryConsume [of T b 1] credit_refill [of T b]
  by (cases op) (simp_all add: assms rpm_credit_def lim_exec_rpm)

lemma tpm_credit_step:
  assumes "lim_tpm l = Some b" and "limiter_ok l"
  shows "tpm_credit T (snd (lim_exec l op)) + tpm_granted (op, fst (lim_exec l op))
      \<le> tpm_credit T l + op_refund op"
proof -
  have "bucket_ok b" using assms by (simp add: limiter_ok_def tpm_ok_def)
  then show ?thesis
    using credit_tryConsume [of T b] credit_adjust [of b T]
    by (cases op) (simp_all add: assms(1) tpm_credit_def lim_exec_tpm)
qed

lemma rpm_credit_run:
  "lim_rpm l = Some b \<Longrightarrow>
     rpm_credit T (snd (lim_run l ops)) + sum_list (map rpm_granted (fst (lim_run l ops))) \<le> rpm_credit T l"
proof (induction ops arbitrary: l b)
  case (Cons op ops)
  from Cons.IH [OF lim_exec_rpm(1) [OF Cons.prems, of op]] rpm_credit_step [OF Cons.prems, of T op]
  show ?case by (simp add: split_def)
qed simp

lemma tpm_credit_run:
  "lim_tpm l = Some b \<Longrightarrow> limiter_ok l \<Longrightarrow> \<forall>op \<in> set ops. op_ok op \<Longrightarrow>
     tpm_credit T (snd (lim_run l ops)) + sum_list (map tpm_granted (fst (lim_run l ops)))
       \<le> tpm_credit T l + sum_list (map op_refund ops)"
proof (induction ops arbitrary: l b)
  case (Cons op ops)
  have "limiter_ok (snd (lim_exec l op))" using Cons.prems by (simp add: lim_exec_ok)
  from Cons.IH [OF lim_exec_tpm(1) [OF Cons.prems(1), of op] this] tpm_credit_step [OF Cons.prems(1,2), of T op] Cons.prems(3)
  show ?case by (simp add: split_def)
qed simp

text \<open>No bucket's clock runs past the readings it was given.\<close>

lemma rpm_clock_run:
  "lim_rpm l = Some b \<Longrightarrow> bt_lastFill b \<le> T \<Longrightarrow> \<forall>op \<in> set ops. \<forall>t. op_time op = Some t \<longrightarrow> t \<le> T \<Longrightarrow>
     \<exists>b'. lim_rpm (snd (lim_run l ops)) = Some b' \<and> bt_lastFill b' \<le> T"
proof (induction ops arbitrary: l b)
  case (Cons op ops)
  have "bt_lastFill (case op of OpRPM t \<Rightarrow> snd (snd (tryConsume b 1 t)) | OpRPMResult t \<Rightarrow> refill b t | _ \<Rightarrow> b) \<le> T"
    using Cons.prems by (cases op) (simp_all add: refill_lastFill)
  from Cons.IH [OF lim_exec_rpm(1) [OF Cons.prems(1)] this] Cons.prems(3) show ?case by (simp add: split_def)
qed simp

lemma tpm_clock_run:
  "lim_tpm l = Some b \<Longrightarrow> bt_lastFill b \<le> T \<Longrightarrow> \<forall>op \<in> set ops. \<forall>t. op_time op = Some t \<longrightarrow> t \<le> T \<Longrightarrow>
     \<exists>b'. lim_tpm (snd (lim_run l ops)) = Some b' \<and> bt_lastFill b' \<le> T"
proof (induction ops arbitrary: l b)
  case (Cons op ops)
  have "bt_lastFill (case op of OpTPM n t \<Rightarrow> snd (snd (tryConsume b (of_int n) t)) | OpAdjust d \<Rightarrow> adjust b (of_int d) | _ \<Rightarrow> b) \<le> T"
    using Cons.prems by (cases op) simp_all
  from Cons.IH [OF lim_exec_tpm(1) [OF Cons.prems(1)] this] Cons.prems(3) show ?case by (simp add: split_def)
qed simp

section \<open>Properties\<close>

text \<open>
  C6. The limiter enforces its limits. Whatever sequence of calls a key's limiter receives up to
  an instant \<open>T\<close>, in whatever order the callers read the clock, it admits at most \<open>RPM\<close> requests
  plus \<open>RPM\<close> per minute since its creation, and at most \<open>TPM\<close> estimated tokens plus \<open>TPM\<close> per
  minute plus what \<open>AdjustTPM\<close> refunded.
\<close>

theorem limiter_enforces:
  assumes "0 < lm_RPM limits" and "0 < lm_TPM limits" and "\<forall>op \<in> set ops. op_ok op"
    and "\<forall>op \<in> set ops. \<forall>t. op_time op = Some t \<longrightarrow> t \<le> T" and "t0 \<le> T"
    and "trace = fst (lim_run (newLimiter limits t0 t0 t0) ops)"
  shows "sum_list (map rpm_granted trace)
           \<le> of_int (lm_RPM limits) * (1 + dur_Seconds (time_Sub T t0) / 60) \<and>
         sum_list (map tpm_granted trace)
           \<le> of_int (lm_TPM limits) * (1 + dur_Seconds (time_Sub T t0) / 60) + sum_list (map op_refund ops)"
proof -
  let ?l = "newLimiter limits t0 t0 t0" and ?l' = "snd (lim_run (newLimiter limits t0 t0 t0) ops)"
  have rpm: "lim_rpm ?l = Some (newBucket (lm_RPM limits) t0)" and tpm: "lim_tpm ?l = Some (newBucket (lm_TPM limits) t0)"
    using assms(1,2) by (simp_all add: newLimiter_def)
  have ok: "limiter_ok ?l'" using assms(3) by (intro lim_run_ok) simp_all
  have t0: "bt_lastFill (newBucket n t0) \<le> T" for n using assms(5) by (simp add: newBucket_def)
  obtain b where b: "lim_rpm ?l' = Some b" "bt_lastFill b \<le> T" using rpm_clock_run [OF rpm t0 assms(4)] by blast
  obtain c where c: "lim_tpm ?l' = Some c" "bt_lastFill c \<le> T" using tpm_clock_run [OF tpm t0 assms(4)] by blast
  have "0 \<le> rpm_credit T ?l'" "0 \<le> tpm_credit T ?l'"
    using b c ok by (simp_all add: rpm_credit_def tpm_credit_def limiter_ok_def rpm_ok_def tpm_ok_def credit_nonneg)
  then show ?thesis
    using rpm_credit_run [OF rpm, of T ops] tpm_credit_run [OF tpm newLimiter_ok assms(3), of T]
    by (simp add: assms(6) rpm_credit_def tpm_credit_def rpm tpm credit_def newBucket_def algebra_simps)
qed

theorem limiter_enforces_witness:
  "sum_list (map rpm_granted (fst (lim_run (newLimiter \<lparr>lm_RPM = 1, lm_TPM = 100\<rparr> 0 0 0)
     [OpRPM 0, OpTPM 40 0, OpRPM second, OpAdjust 10]))) \<le> 1 + 1 / 60"
  using limiter_enforces [of "\<lparr>lm_RPM = 1, lm_TPM = 100\<rparr>" "[OpRPM 0, OpTPM 40 0, OpRPM second, OpAdjust 10]"
      second 0, OF _ _ _ _ _ refl]
  by (simp add: dur_Seconds_def time_Sub_def second_def)



text \<open>
  The registry of limiters hands every key its own limiter and keeps it: asking again with
  the same limits returns the same object, other keys keep theirs, the limiter returned enforces
  the limits asked for, and when the limits change the callers that still hold the old limiter
  do not touch the new one.
\<close>

theorem limiter_registry:
  assumes "pm_wf r" and "rl_GetOrCreate k (limits, t1, t2) now r = (l, r')"
  shows "pm_wf r' \<and> lim_limits (pm_obj r' l) = limits \<and>
    rl_GetOrCreate k (limits, t1', t2') now' r' = (l, r') \<and>
    (\<forall>k'. k' \<noteq> k \<longrightarrow> pm_lookup r' k' = pm_lookup r k' \<and> pm_ptr r' k' \<noteq> Some l) \<and>
    (\<forall>p. pm_ptr r k = Some p \<and> lim_limits (pm_obj r p) \<noteq> limits \<longrightarrow> p \<noteq> l \<and> pm_obj r' p = pm_obj r p)"
proof -
  have r': "r' = snd (rl_GetOrCreate k (limits, t1, t2) now r)" and l: "l = fst (rl_GetOrCreate k (limits, t1, t2) now r)"
    using assms(2) by simp_all
  note ptr = limiters.goc_ptr [OF assms(1), of k "(limits, t1, t2)" now, folded r' l]
  have wf: "pm_wf r'" using limiters.goc_wf [OF assms(1)] by (simp add: r')
  have again: "rl_GetOrCreate k (limits, t1', t2') now' r' = (l, r')"
    using limiters.goc_hit [of r' k l "(limits, t1', t2')"] ptr by simp
  have other: "pm_lookup r' k' = pm_lookup r k' \<and> pm_ptr r' k' \<noteq> Some l" if "k' \<noteq> k" for k'
  proof
    show "pm_ptr r' k' \<noteq> Some l" using limiters.goc_distinct [OF assms(1) that] by (simp add: r' l)
    show "pm_lookup r' k' = pm_lookup r k'"
      using limiters.goc_frame [OF that] limiters.goc_objects [of _ r k "(limits, t1, t2)" now] pm_wf_bound [OF assms(1)]
      by (cases "pm_ptr r k'") (simp_all add: pm_lookup_def r')
  qed
  have old: "p \<noteq> l \<and> pm_obj r' p = pm_obj r p" if "pm_ptr r k = Some p" "lim_limits (pm_obj r p) \<noteq> limits" for p
    using limiters.goc_objects [OF pm_wf_bound [OF assms(1) that(1)], of k "(limits, t1, t2)" now] that(2) ptr
    by (auto simp: r')
  show ?thesis using wf ptr again other old by auto
qed

theorem limiter_registry_witness:
  "lim_limits (pm_obj (snd (rl_GetOrCreate ''k'' (\<lparr>lm_RPM = 5, lm_TPM = 0\<rparr>, 7, 7) 7 rl_NewRegistry)) 0)
     = \<lparr>lm_RPM = 5, lm_TPM = 0\<rparr>"
proof -
  have "rl_GetOrCreate ''k'' (\<lparr>lm_RPM = 5, lm_TPM = 0\<rparr>, 7, 7) 7 rl_NewRegistry =
      (0, snd (rl_GetOrCreate ''k'' (\<lparr>lm_RPM = 5, lm_TPM = 0\<rparr>, 7, 7) 7 rl_NewRegistry))"
    by (simp add: rl_GetOrCreate_def rl_NewRegistry_def pm_empty_def pm_alloc_def)
  from limiter_registry [OF _ this] show ?thesis by (simp add: rl_NewRegistry_def)
qed

end
