(* ===== verification/Gateway.thy ===== *)
theory Gateway
  imports Gandalf_Prelude
begin

text \<open>
  The domain types of \<open>internal/gateway.go\<close> and the errors of \<open>internal/errors.go\<close>: requests,
  responses and stream chunks, keys and identities, the permission bitmask of the four roles,
  provider, route and usage records, and the per-request metadata that contexts carry.

  A pointer field is an \<open>option\<close>; a slice is a list (the code never tells a nil slice from an
  empty one in what is modelled here, except where a definition says so). \<open>json.RawMessage\<close> is
  the JSON text itself. A Go error is a value of \<open>goerror\<close>: a leaf, or an error that wraps
  others, so that \<open>errors.Is\<close> and \<open>errors.As\<close> walk the same tree the library walks.
\<close>

unbundle bit_operations_syntax

section \<open>Errors\<close>

datatype sentinel =
    ErrUnauthorized | ErrForbidden | ErrNotFound | ErrConflict | ErrRateLimited
  | ErrQuotaExceeded | ErrModelNotAllowed | ErrProviderError | ErrBadRequest
  | ErrKeyExpired | ErrKeyBlocked

fun sentinel_text :: "sentinel \<Rightarrow> string" where
  "sentinel_text ErrUnauthorized = ''unauthorized''"
| "sentinel_text ErrForbidden = ''forbidden''"
| "sentinel_text ErrNotFound = ''not found''"
| "sentinel_text ErrConflict = ''conflict''"
| "sentinel_text ErrRateLimited = ''rate limited''"
| "sentinel_text ErrQuotaExceeded = ''quota exceeded''"
| "sentinel_text ErrModelNotAllowed = ''model not allowed''"
| "sentinel_text ErrProviderError = ''provider error''"
| "sentinel_text ErrBadRequest = ''bad request''"
| "sentinel_text ErrKeyExpired = ''api key expired''"
| "sentinel_text ErrKeyBlocked = ''api key blocked''"

text \<open>
  \<open>Sentinel\<close> is a value of \<open>errors.go\<close>; \<open>DeadlineExceeded\<close> and \<open>OsDeadlineExceeded\<close> are
  \<open>context.DeadlineExceeded\<close> and \<open>os.ErrDeadlineExceeded\<close>; \<open>APIError\<close> is the provider error
  that carries an HTTP status; \<open>NetOpError\<close> is \<open>net.OpError\<close> around its cause; \<open>ErrorString\<close>
  is an error with no cause; \<open>Wrapf\<close> is \<open>fmt.Errorf\<close> with one or more \<open>%w\<close> verbs, its text and
  what it wraps.
\<close>

datatype goerror =
    Sentinel sentinel
  | DeadlineExceeded
  | OsDeadlineExceeded
  | Canceled
  | APIError string int string
  | NetOpError string goerror
  | ErrorString string
  | Wrapf string "goerror list"

fun errors_Is :: "goerror \<Rightarrow> goerror \<Rightarrow> bool" where
  "errors_Is (Wrapf m es) t \<longleftrightarrow> Wrapf m es = t \<or> (\<exists>e \<in> set es. errors_Is e t)"
| "errors_Is (NetOpError m e) t \<longleftrightarrow> NetOpError m e = t \<or> errors_Is e t"
| "errors_Is e t \<longleftrightarrow> e = t"

text \<open>\<open>errors.As\<close> with a target of the interface \<open>httpStatusError\<close>: the status of the first
  error of the tree, in preorder, that carries one.\<close>

fun errors_As_HTTPStatus :: "goerror \<Rightarrow> int option" where
  "errors_As_HTTPStatus (APIError p c b) = Some c"
| "errors_As_HTTPStatus (NetOpError m e) = errors_As_HTTPStatus e"
| "errors_As_HTTPStatus (Wrapf m es) =
     (case filter (\<lambda>r. r \<noteq> None) (map errors_As_HTTPStatus es) of [] \<Rightarrow> None | r # _ \<Rightarrow> r)"
| "errors_As_HTTPStatus e = None"

section \<open>Chat requests and responses\<close>

record Message =
  msg_Role :: string
  msg_Content :: bytes
  msg_Name :: string
  msg_ToolCalls :: bytes
  msg_ToolCallID :: string

record ChatRequest =
  req_Model :: string
  req_Messages :: "Message list"
  req_Temperature :: "float64 option"
  req_TopP :: "float64 option"
  req_N :: int
  req_Stream :: bool
  req_StreamOptions :: "bool option"
  req_Stop :: bytes
  req_MaxTokens :: "int option"
  req_PresencePenalty :: "float64 option"
  req_FrequencyPenalty :: "float64 option"
  req_Seed :: "int option"
  req_User :: string
  req_Tools :: bytes
  req_ToolChoice :: bytes
  req_ResponseFormat :: bytes

record Usage =
  PromptTokens :: int
  CompletionTokens :: int
  TotalTokens :: int

record Choice =
  ch_Index :: int
  ch_Message :: Message
  ch_FinishReason :: string

record ChatResponse =
  resp_ID :: string
  resp_Object :: string
  resp_Created :: int
  resp_Model :: string
  resp_Choices :: "Choice list"
  resp_Usage :: "Usage option"
  resp_SystemFingerprint :: string

record StreamChunk =
  chunk_Data :: bytes
  chunk_Usage :: "Usage option"
  chunk_Done :: bool
  chunk_Err :: "goerror option"

record EmbeddingRequest =
  emb_Model :: string
  emb_Input :: bytes
  emb_EncodingFormat :: string
  emb_User :: string

record EmbeddingResponse =
  embr_Object :: string
  embr_Data :: bytes
  embr_Model :: string
  embr_Usage :: "Usage option"

section \<open>Tenants, keys and identities\<close>

record Organization =
  org_ID :: string
  org_Name :: string
  org_AllowedModels :: "string list"
  org_RPMLimit :: "int option"
  org_TPMLimit :: "int option"
  org_MaxBudget :: "float64 option"
  org_CreatedAt :: gotime

record Team =
  team_ID :: string
  team_OrgID :: string
  team_Name :: string
  team_AllowedModels :: "string list"
  team_RPMLimit :: "int option"
  team_TPMLimit :: "int option"
  team_MaxBudget :: "float64 option"

record APIKey =
  key_ID :: string
  key_Hash :: string
  key_Prefix :: string
  key_UserID :: string
  key_TeamID :: string
  key_OrgID :: string
  key_Role :: string
  key_AllowedModels :: "string list"
  key_RPMLimit :: "int option"
  key_TPMLimit :: "int option"
  key_MaxBudget :: "float64 option"
  key_ExpiresAt :: "gotime option"
  key_Blocked :: bool
  key_LastUsedAt :: "gotime option"
  key_CreatedAt :: gotime

type_synonym Permission = "32 word"

record Identity =
  id_Subject :: string
  id_KeyID :: string
  id_UserID :: string
  id_TeamID :: string
  id_OrgID :: string
  id_Role :: string
  id_Perms :: Permission
  id_AuthMethod :: string
  id_RPMLimit :: int
  id_TPMLimit :: int
  id_MaxBudget :: float64
  id_AllowedModels :: "string list"

section \<open>Permissions\<close>

text \<open>The constants are \<open>1 << iota\<close>, in the order the source declares them.\<close>

definition PermUseModels :: Permission where "PermUseModels = push_bit 0 1"
definition PermManageOwnKeys :: Permission where "PermManageOwnKeys = push_bit 1 1"
definition PermViewOwnUsage :: Permission where "PermViewOwnUsage = push_bit 2 1"
definition PermViewAllUsage :: Permission where "PermViewAllUsage = push_bit 3 1"
definition PermManageAllKeys :: Permission where "PermManageAllKeys = push_bit 4 1"
definition PermManageProviders :: Permission where "PermManageProviders = push_bit 5 1"
definition PermManageRoutes :: Permission where "PermManageRoutes = push_bit 6 1"
definition PermManageOrgs :: Permission where "PermManageOrgs = push_bit 7 1"

definition Can :: "Identity \<Rightarrow> Permission \<Rightarrow> bool" where
  "Can i p \<longleftrightarrow> id_Perms i AND p = p"

definition IsModelAllowed :: "Identity \<Rightarrow> string \<Rightarrow> bool" where
  "IsModelAllowed i model =
     (if id_AllowedModels i = [] then True else model \<in> set (id_AllowedModels i))"

definition RolePermissions :: "string \<rightharpoonup> Permission" where
  "RolePermissions =
     [''admin'' \<mapsto> PermUseModels OR PermManageOwnKeys OR PermViewOwnUsage OR PermViewAllUsage
         OR PermManageAllKeys OR PermManageProviders OR PermManageRoutes OR PermManageOrgs,
      ''member'' \<mapsto> PermUseModels OR PermManageOwnKeys OR PermViewOwnUsage,
      ''viewer'' \<mapsto> PermViewOwnUsage OR PermViewAllUsage,
      ''service_account'' \<mapsto> PermUseModels]"

definition ValidRole :: "string \<Rightarrow> bool" where
  "ValidRole role \<longleftrightarrow> RolePermissions role \<noteq> None"

text \<open>Indexing the Go map with an unknown role gives the zero value of \<open>Permission\<close>.\<close>

definition role_perms :: "string \<Rightarrow> Permission" where
  "role_perms role = (case RolePermissions role of Some p \<Rightarrow> p | None \<Rightarrow> 0)"

section \<open>Providers, routes and usage\<close>

record ProviderConfig =
  pc_ID :: string
  pc_Name :: string
  pc_Type :: string
  pc_BaseURL :: string
  pc_APIKeyEnc :: string
  pc_Models :: "string list"
  pc_Priority :: int
  pc_Weight :: int
  pc_Enabled :: bool
  pc_MaxRPS :: int
  pc_TimeoutMs :: int

record Route =
  rt_ID :: string
  rt_ModelAlias :: string
  rt_Targets :: bytes
  rt_Strategy :: string
  rt_CacheTTLs :: int

record RouteTarget =
  tgt_ProviderID :: string
  tgt_Model :: string
  tgt_Priority :: int
  tgt_Weight :: int

record UsageRecord =
  ur_ID :: string
  ur_KeyID :: string
  ur_UserID :: string
  ur_TeamID :: string
  ur_OrgID :: string
  ur_CallerJWTSub :: string
  ur_CallerService :: string
  ur_Model :: string
  ur_ProviderID :: string
  ur_PromptTokens :: int
  ur_CompletionTokens :: int
  ur_TotalTokens :: int
  ur_CostUSD :: float64
  ur_Cached :: bool
  ur_LatencyMs :: int
  ur_StatusCode :: int
  ur_RequestID :: string
  ur_CreatedAt :: gotime

record UsageRollup =
  ro_OrgID :: string
  ro_KeyID :: string
  ro_Model :: string
  ro_Period :: string
  ro_Bucket :: string
  ro_RequestCount :: int
  ro_PromptTokens :: int
  ro_CompletionTokens :: int
  ro_TotalTokens :: int
  ro_CostUSD :: float64
  ro_CachedCount :: int

record UsageFilter =
  uf_OrgID :: string
  uf_KeyID :: string
  uf_Model :: string
  uf_Since :: string
  uf_Until :: string
  uf_Offset :: int
  uf_Limit :: int

record RollupFilter =
  rf_OrgID :: string
  rf_KeyID :: string
  rf_Model :: string
  rf_Period :: string
  rf_Since :: string
  rf_Until :: string

section \<open>Request metadata in contexts\<close>

text \<open>
  The metadata is reached through a pointer that several contexts may share, and
  \<open>ContextWithIdentity\<close> writes through it. The store holds the allocated metadata, a pointer
  is an index into it, and a context holds the pointer, if it has one.
\<close>

record requestMeta =
  meta_RequestID :: string
  meta_Identity :: "Identity option"

type_synonym meta_store = "requestMeta list"
type_synonym context_meta = "nat option"

definition metaFromContext :: "meta_store \<Rightarrow> context_meta \<Rightarrow> requestMeta option" where
  "metaFromContext ms ctx =
     (case ctx of Some a \<Rightarrow> (if a < length ms then Some (ms ! a) else None) | None \<Rightarrow> None)"

definition IdentityFromContext :: "meta_store \<Rightarrow> context_meta \<Rightarrow> Identity option" where
  "IdentityFromContext ms ctx =
     (case metaFromContext ms ctx of Some m \<Rightarrow> meta_Identity m | None \<Rightarrow> None)"

definition ContextWithIdentity ::
  "meta_store \<Rightarrow> context_meta \<Rightarrow> Identity \<Rightarrow> meta_store \<times> context_meta" where
  "ContextWithIdentity ms ctx i =
     (case metaFromContext ms ctx of
        Some m \<Rightarrow> (ms[the ctx := m\<lparr>meta_Identity := Some i\<rparr>], ctx)
      | None \<Rightarrow> (ms @ [\<lparr>meta_RequestID = '''', meta_Identity = Some i\<rparr>], Some (length ms)))"

definition RequestIDFromContext :: "meta_store \<Rightarrow> context_meta \<Rightarrow> string" where
  "RequestIDFromContext ms ctx =
     (case metaFromContext ms ctx of Some m \<Rightarrow> meta_RequestID m | None \<Rightarrow> '''')"

definition ContextWithRequestID :: "meta_store \<Rightarrow> string \<Rightarrow> meta_store \<times> context_meta" where
  "ContextWithRequestID ms i =
     (ms @ [\<lparr>meta_RequestID = i, meta_Identity = None\<rparr>], Some (length ms))"

definition APIKeyPrefix :: string where
  "APIKeyPrefix = ''gnd_''"

section \<open>Context lemmas\<close>

text \<open>The identity is written through the pointer: every context that shares it sees it, and
  the request id stays.\<close>

lemma ContextWithRequestID_fresh:
  assumes "ContextWithRequestID ms rid = (ms1, ctx)"
  shows "RequestIDFromContext ms1 ctx = rid" "IdentityFromContext ms1 ctx = None"
    "\<And>c. c \<noteq> ctx \<Longrightarrow> metaFromContext ms1 c = metaFromContext ms c"
  using assms by (auto simp: ContextWithRequestID_def RequestIDFromContext_def IdentityFromContext_def
      metaFromContext_def nth_append split: option.splits)

lemma ContextWithIdentity_shared:
  assumes "metaFromContext ms ctx = Some m" and "ContextWithIdentity ms ctx i = (ms1, ctx1)"
  shows "ctx1 = ctx" "IdentityFromContext ms1 ctx = Some i" "RequestIDFromContext ms1 ctx = meta_RequestID m"
    "\<And>c. c \<noteq> ctx \<Longrightarrow> metaFromContext ms1 c = metaFromContext ms c"
  using assms by (auto simp: ContextWithIdentity_def RequestIDFromContext_def IdentityFromContext_def
      metaFromContext_def nth_list_update split: option.splits if_splits)

section \<open>Properties\<close>

lemma role_perms_cases:
  obtains "role = ''admin''" | "role = ''member''" | "role = ''viewer''" | "role = ''service_account''"
  | "role \<notin> {''admin'', ''member'', ''viewer'', ''service_account''}" "role_perms role = 0"
  by (cases "role \<in> {''admin'', ''member'', ''viewer'', ''service_account''}")
    (auto simp: role_perms_def RolePermissions_def)

lemmas perm_defs = PermUseModels_def PermManageOwnKeys_def PermViewOwnUsage_def PermViewAllUsage_def
  PermManageAllKeys_def PermManageProviders_def PermManageRoutes_def PermManageOrgs_def

text \<open>
  The permission matrix. The bitmask that a role resolves to grants exactly: model use to
  admins, members and service accounts; own keys to admins and members; own usage to everyone but
  service accounts; all usage to admins and viewers; and the four management permissions to
  admins only. An unknown role has no permission.
\<close>

theorem role_matrix:
  "(Can (i\<lparr>id_Perms := role_perms role\<rparr>) PermUseModels \<longleftrightarrow> role \<in> {''admin'', ''member'', ''service_account''}) \<and>
   (Can (i\<lparr>id_Perms := role_perms role\<rparr>) PermManageOwnKeys \<longleftrightarrow> role \<in> {''admin'', ''member''}) \<and>
   (Can (i\<lparr>id_Perms := role_perms role\<rparr>) PermViewOwnUsage \<longleftrightarrow> role \<in> {''admin'', ''member'', ''viewer''}) \<and>
   (Can (i\<lparr>id_Perms := role_perms role\<rparr>) PermViewAllUsage \<longleftrightarrow> role \<in> {''admin'', ''viewer''}) \<and>
   (Can (i\<lparr>id_Perms := role_perms role\<rparr>) PermManageAllKeys \<longleftrightarrow> role = ''admin'') \<and>
   (Can (i\<lparr>id_Perms := role_perms role\<rparr>) PermManageProviders \<longleftrightarrow> role = ''admin'') \<and>
   (Can (i\<lparr>id_Perms := role_perms role\<rparr>) PermManageRoutes \<longleftrightarrow> role = ''admin'') \<and>
   (Can (i\<lparr>id_Perms := role_perms role\<rparr>) PermManageOrgs \<longleftrightarrow> role = ''admin'') \<and>
   (ValidRole role \<longleftrightarrow> role \<in> {''admin'', ''member'', ''viewer'', ''service_account''})"
  by (cases role rule: role_perms_cases)
    (simp_all add: Can_def role_perms_def RolePermissions_def ValidRole_def perm_defs)

end
