(* ===== verification/Quota.thy ===== *)
theory Quota
  imports Gateway
begin

text \<open>
  Spend budgets per key: the tracker of \<open>internal/ratelimit/quota.go\<close> and the worker of
  \<open>internal/worker/quota_sync.go\<close> that reloads it from the store; and the token estimator of
  \<open>internal/tokencount/tokencount.go\<close> whose estimates the TPM limiter consumes. The store is
  reached through \<open>SumUsageCost\<close>, an argument of the operations that call it.
\<close>

section \<open>The tracker\<close>

record budgetEntry =
  be_limit :: float64
  be_consumed :: float64

type_synonym QuotaTracker = "string \<rightharpoonup> budgetEntry"

definition NewQuotaTracker :: QuotaTracker where
  "NewQuotaTracker = Map.empty"

definition Preload :: "string \<Rightarrow> float64 \<Rightarrow> QuotaTracker \<Rightarrow> QuotaTracker" where
  "Preload keyID limit q =
     (if q keyID = None then q(keyID \<mapsto> \<lparr>be_limit = limit, be_consumed = 0\<rparr>) else q)"

definition Check :: "string \<Rightarrow> float64 \<Rightarrow> QuotaTracker \<Rightarrow> bool \<times> QuotaTracker" where
  "Check keyID limit q =
     (if limit \<le> 0 then (True, q)
      else case q keyID of
        None \<Rightarrow> (True, q(keyID \<mapsto> \<lparr>be_limit = limit, be_consumed = 0\<rparr>))
      | Some e \<Rightarrow> (be_consumed e < limit, q(keyID \<mapsto> e\<lparr>be_limit := limit\<rparr>)))"

definition entry_or_zero :: "string \<Rightarrow> QuotaTracker \<Rightarrow> budgetEntry" where
  "entry_or_zero keyID q = (case q keyID of Some e \<Rightarrow> e | None \<Rightarrow> \<lparr>be_limit = 0, be_consumed = 0\<rparr>)"

definition Consume :: "string \<Rightarrow> float64 \<Rightarrow> QuotaTracker \<Rightarrow> QuotaTracker" where
  "Consume keyID costUSD q =
     (let e = entry_or_zero keyID q in q(keyID \<mapsto> e\<lparr>be_consumed := be_consumed e + costUSD\<rparr>))"

text \<open>\<open>Sync\<close> asks the store first and takes the lock only to write what it was told.\<close>

definition Sync ::
  "(string \<Rightarrow> goerror + float64) \<Rightarrow> string \<Rightarrow> QuotaTracker \<Rightarrow> goerror option \<times> QuotaTracker" where
  "Sync SumUsageCost keyID q =
     (case SumUsageCost keyID of
        Inl err \<Rightarrow> (Some err, q)
      | Inr spend \<Rightarrow> (None, q(keyID \<mapsto> (entry_or_zero keyID q)\<lparr>be_consumed := spend\<rparr>)))"

fun sync_keys ::
  "(string \<Rightarrow> goerror + float64) \<Rightarrow> string list \<Rightarrow> QuotaTracker \<Rightarrow> goerror option \<times> QuotaTracker" where
  "sync_keys SumUsageCost [] q = (None, q)"
| "sync_keys SumUsageCost (k # ks) q =
     (case Sync SumUsageCost k q of
        (Some err, q) \<Rightarrow> (Some err, q)
      | (None, q) \<Rightarrow> sync_keys SumUsageCost ks q)"

text \<open>\<open>order\<close> is the order in which Go ranges over the tracked keys.\<close>

definition SyncAll ::
  "(string \<Rightarrow> goerror + float64) \<Rightarrow> string list \<Rightarrow> QuotaTracker \<Rightarrow> goerror option \<times> QuotaTracker" where
  "SyncAll SumUsageCost order q = sync_keys SumUsageCost order q"

section \<open>The sync worker\<close>

definition quotaSyncInterval :: duration where
  "quotaSyncInterval = 60 * second"

text \<open>
  Start-up of \<open>Run\<close>: load the budgeted keys if there is a budget store (an error is logged and
  the keys are skipped), then sync every tracked key (an error is logged). \<open>budgets\<close> lists what
  the store returned in the order Go ranges over it; \<open>order\<close> is chosen by the range over the
  tracker after the preload. Each tick of the timer then runs \<open>SyncAll\<close> again.
\<close>

definition qs_preload :: "(goerror + (string \<times> float64) list) option \<Rightarrow> QuotaTracker \<Rightarrow> QuotaTracker" where
  "qs_preload budgets q =
     (case budgets of
        Some (Inr bs) \<Rightarrow> fold (\<lambda>(keyID, budget). Preload keyID budget) bs q
      | Some (Inl err) \<Rightarrow> q
      | None \<Rightarrow> q)"

definition qs_start ::
  "(goerror + (string \<times> float64) list) option \<Rightarrow> (string \<Rightarrow> goerror + float64) \<Rightarrow> string list
     \<Rightarrow> QuotaTracker \<Rightarrow> QuotaTracker" where
  "qs_start budgets SumUsageCost order q = snd (SyncAll SumUsageCost order (qs_preload budgets q))"

definition qs_tick :: "(string \<Rightarrow> goerror + float64) \<Rightarrow> string list \<Rightarrow> QuotaTracker \<Rightarrow> QuotaTracker" where
  "qs_tick SumUsageCost order q = snd (SyncAll SumUsageCost order q)"

section \<open>Token estimates\<close>

definition estimateTokens :: "string \<Rightarrow> int" where
  "estimateTokens s = (if length s = 0 then 0 else (int (length s) + 3) div 4)"

definition estimateTokensBytes :: "bytes \<Rightarrow> int" where
  "estimateTokensBytes b = (if length b = 0 then 0 else (int (length b) + 3) div 4)"

definition messageOverhead :: "string \<Rightarrow> int" where
  "messageOverhead model = 4"

definition estimateMessage :: "int \<Rightarrow> Message \<Rightarrow> int" where
  "estimateMessage overhead m =
     overhead + estimateTokens (msg_Role m) + estimateTokensBytes (msg_Content m)
     + (if msg_Name m \<noteq> '''' then estimateTokens (msg_Name m) + 1 else 0)
     + (if length (msg_ToolCalls m) > 0 then estimateTokensBytes (msg_ToolCalls m) else 0)
     + (if msg_ToolCallID m \<noteq> '''' then estimateTokens (msg_ToolCallID m) else 0)"

definition EstimateRequest :: "string \<Rightarrow> Message list \<Rightarrow> int" where
  "EstimateRequest model messages =
     (let n = fold (\<lambda>m n. n + estimateMessage (messageOverhead model) m) messages 0
      in max (n + 3) 1)"

definition CountText :: "string \<Rightarrow> string \<Rightarrow> int" where
  "CountText model text = max (estimateTokens text) 1"

lemma estimateTokens_ceil: "estimateTokens s = \<lceil>of_nat (length s) / (4 :: rat)\<rceil>"
proof -
  have "\<lceil>of_nat (length s) / (4 :: rat)\<rceil> = (int (length s) + 3) div 4"
    by (rule ceiling_unique; simp add: field_simps; linarith)
  then show ?thesis by (simp add: estimateTokens_def)
qed

lemma estimateTokensBytes_eq: "estimateTokensBytes b = estimateTokens b"
  by (simp add: estimateTokensBytes_def estimateTokens_def)

lemma estimateTokens_nonneg [simp]: "0 \<le> estimateTokens s" "0 \<le> estimateTokensBytes s"
  by (simp_all add: estimateTokens_def estimateTokensBytes_def pos_imp_zdiv_nonneg_iff)

lemma estimateMessage_ge: "0 \<le> h \<Longrightarrow> h \<le> estimateMessage h m"
  using estimateTokens_nonneg by (auto simp: estimateMessage_def intro!: add_increasing2)

lemma estimate_fold:
  "fold (\<lambda>m n. n + estimateMessage h m) ms t = t + sum_list (map (estimateMessage h) ms)"
  by (induction ms arbitrary: t) simp_all

section \<open>The specification: spend per key\<close>

definition spent :: "QuotaTracker \<Rightarrow> string \<Rightarrow> float64" where
  "spent q k = (case q k of Some e \<Rightarrow> be_consumed e | None \<Rightarrow> 0)"

lemma spent_Consume: "spent (Consume k c q) = (spent q)(k := spent q k + c)"
  by (auto simp: spent_def Consume_def entry_or_zero_def Let_def fun_eq_iff split: option.splits)

lemma spent_Check: "spent (snd (Check k l q)) = spent q"
  by (auto simp: spent_def Check_def fun_eq_iff split: option.splits)

lemma spent_Preload: "spent (Preload k l q) = spent q"
  by (auto simp: spent_def Preload_def fun_eq_iff)

lemma Check_answer: "fst (Check k l q) \<longleftrightarrow> l \<le> 0 \<or> spent q k < l"
  by (auto simp: Check_def spent_def split: option.splits)

lemma spent_Sync: "SumUsageCost k = Inr spend \<Longrightarrow> spent (snd (Sync SumUsageCost k q)) = (spent q)(k := spend)"
  by (auto simp: spent_def Sync_def entry_or_zero_def fun_eq_iff split: option.splits)

lemma Sync_error: "SumUsageCost k = Inl e \<Longrightarrow> Sync SumUsageCost k q = (Some e, q)"
  by (simp add: Sync_def)

datatype quota_op = QPreload string float64 | QCheck string float64 | QConsume string float64
  | QSync string float64

fun quota_exec :: "QuotaTracker \<Rightarrow> quota_op \<Rightarrow> QuotaTracker" where
  "quota_exec q (QPreload k l) = Preload k l q"
| "quota_exec q (QCheck k l) = snd (Check k l q)"
| "quota_exec q (QConsume k c) = Consume k c q"
| "quota_exec q (QSync k spend) = snd (Sync (\<lambda>_. Inr spend) k q)"

text \<open>The spend the operations on one key add up to: what the last reload said, plus what was
  consumed since.\<close>

fun ledger :: "string \<Rightarrow> quota_op \<Rightarrow> float64 \<Rightarrow> float64" where
  "ledger k (QConsume k' c) s = (if k' = k then s + c else s)"
| "ledger k (QSync k' spend) s = (if k' = k then spend else s)"
| "ledger k _ s = s"

lemma spent_exec: "spent (quota_exec q op) k = ledger k op (spent q k)"
  by (cases op) (simp_all add: spent_Preload spent_Check spent_Consume spent_Sync)

lemma spent_run: "spent (foldl quota_exec q ops) k = fold (ledger k) ops (spent q k)"
  by (induction ops arbitrary: q) (simp_all add: spent_exec)

lemma fold_Preload_None:
  "fold (\<lambda>(k, b). Preload k b) bs q k = None \<longleftrightarrow> q k = None \<and> k \<notin> fst ` set bs"
  by (induction bs arbitrary: q) (auto simp: Preload_def split: if_splits)

lemma sync_keys_ok:
  assumes "\<forall>k \<in> set ks. \<exists>t. SumUsageCost k = Inr t"
  shows "fst (sync_keys SumUsageCost ks q) = None \<and>
    spent (snd (sync_keys SumUsageCost ks q)) =
      (\<lambda>k. if k \<in> set ks then projr (SumUsageCost k) else spent q k)"
  using assms
proof (induction ks arbitrary: q)
  case (Cons a ks)
  obtain t where t: "SumUsageCost a = Inr t" using Cons.prems by auto
  obtain q' where q': "Sync SumUsageCost a q = (None, q')" "spent q' = (spent q)(a := t)"
    using spent_Sync [where SumUsageCost = SumUsageCost, OF t, of q] by (simp add: Sync_def t)
  with Cons.IH [of q'] Cons.prems t show ?case by (auto simp: fun_eq_iff)
qed simp

section \<open>Properties\<close>

text \<open>
  C8. The tracker keeps the books. After any sequence of preloads, checks, consumptions and
  reloads, \<open>Check\<close> admits a key under a limit exactly when the limit is not positive (no
  budget) or the key's spend, what the last reload said plus what was consumed since, is below
  the limit.
\<close>

theorem quota_keeps_books:
  "fst (Check k limit (foldl quota_exec NewQuotaTracker ops)) \<longleftrightarrow> limit \<le> 0 \<or> fold (ledger k) ops 0 < limit"
  by (simp add: Check_answer spent_run) (simp add: spent_def NewQuotaTracker_def)

text \<open>
  C9. Budgets hold right after a restart. When the store answers every query, the worker's
  start-up leaves every key that has a budget checked against its stored cost, although the key
  has sent no request yet.
\<close>

theorem quota_after_restart:
  assumes "\<forall>k \<in> set order. \<exists>t. SumUsageCost k = Inr t"
    and "set order = dom (qs_preload (Some (Inr bs)) NewQuotaTracker)"
    and "(k, limit) \<in> set bs" and "0 < limit" and "SumUsageCost k = Inr spend"
  shows "fst (Check k limit (qs_start (Some (Inr bs)) SumUsageCost order NewQuotaTracker)) \<longleftrightarrow> spend < limit"
proof -
  have "k \<in> set order"
    using assms(2,3) fold_Preload_None [of bs NewQuotaTracker k] by (force simp: qs_preload_def dom_def)
  then show ?thesis
    using sync_keys_ok [OF assms(1)] assms(4,5) by (simp add: Check_answer qs_start_def SyncAll_def)
qed

theorem quota_after_restart_witness:
  "\<not> fst (Check ''k1'' 5 (qs_start (Some (Inr [(''k1'', 5)])) (\<lambda>_. Inr 7) [''k1''] NewQuotaTracker))"
  using quota_after_restart [of "[''k1'']" "\<lambda>_. Inr 7" "[(''k1'', 5)]" "''k1''" 5 7]
  by (simp add: qs_preload_def NewQuotaTracker_def Preload_def)

text \<open>
  Token estimates. A request is estimated at 3 tokens for the reply plus, for every message,
  4 tokens and a quarter of the bytes of each of its parts, rounded up (and 1 more when it is
  named), so the estimate is at least 3 plus 4 per message; never 0, as the limiter requires.
\<close>

theorem estimate_request:
  "EstimateRequest model messages =
     3 + (\<Sum>m \<leftarrow> messages. 4 + \<lceil>of_nat (length (msg_Role m)) / (4 :: rat)\<rceil>
           + \<lceil>of_nat (length (msg_Content m)) / (4 :: rat)\<rceil>
           + (if msg_Name m = '''' then 0 else \<lceil>of_nat (length (msg_Name m)) / (4 :: rat)\<rceil> + 1)
           + \<lceil>of_nat (length (msg_ToolCalls m)) / (4 :: rat)\<rceil>
           + \<lceil>of_nat (length (msg_ToolCallID m)) / (4 :: rat)\<rceil>) \<and>
   EstimateRequest model messages \<ge> 3 + 4 * int (length messages)"
proof -
  have m: "estimateMessage 4 m = 4 + \<lceil>of_nat (length (msg_Role m)) / (4 :: rat)\<rceil>
           + \<lceil>of_nat (length (msg_Content m)) / (4 :: rat)\<rceil>
           + (if msg_Name m = '''' then 0 else \<lceil>of_nat (length (msg_Name m)) / (4 :: rat)\<rceil> + 1)
           + \<lceil>of_nat (length (msg_ToolCalls m)) / (4 :: rat)\<rceil>
           + \<lceil>of_nat (length (msg_ToolCallID m)) / (4 :: rat)\<rceil>" for m
    by (auto simp: estimateMessage_def estimateTokensBytes_eq estimateTokens_ceil)
  have ge: "4 * int (length messages) \<le> sum_list (map (estimateMessage 4) messages)"
    using estimateMessage_ge [of 4] by (induction messages) (auto intro: add_mono)
  then have "EstimateRequest model messages = 3 + sum_list (map (estimateMessage 4) messages)"
    by (simp add: EstimateRequest_def estimate_fold messageOverhead_def Let_def)
  with ge show ?thesis by (simp only: m [abs_def]) simp
qed

end
