(* ===== verification/Json.thy ===== *)
theory Json
  imports Gateway
begin

text \<open>
  \<open>encoding/json\<close> as the sources use it: the grammar of the texts that \<open>Unmarshal\<close> accepts, with
  the raw text of every value (a \<open>json.RawMessage\<close> field keeps it), the strings that its escapes
  and its UTF-8 checks produce, the matching of object keys to field names, and the text that
  \<open>Marshal\<close> writes. A string is its bytes. The limit of 10000 nested values is not modelled.
\<close>

section \<open>Bytes and UTF-8\<close>

abbreviation ch_quote :: char where "ch_quote \<equiv> CHR 0x22"
abbreviation ch_backslash :: char where "ch_backslash \<equiv> CHR 0x5C"

definition byte :: "char \<Rightarrow> nat" where
  "byte c = of_char c"

definition is_cont :: "nat \<times> nat \<Rightarrow> char \<Rightarrow> bool" where
  "is_cont r c \<longleftrightarrow> fst r \<le> byte c \<and> byte c \<le> snd r"

text \<open>The ranges of the bytes that must follow a first byte; none if it cannot be a first byte.\<close>

definition utf8_ranges :: "nat \<Rightarrow> (nat \<times> nat) list option" where
  "utf8_ranges n =
     (if n < 0x80 then Some []
      else if n < 0xC2 then None
      else if n < 0xE0 then Some [(0x80, 0xBF)]
      else if n < 0xF0 then
        Some [(if n = 0xE0 then 0xA0 else 0x80, if n = 0xED then 0x9F else 0xBF), (0x80, 0xBF)]
      else if n < 0xF5 then
        Some [(if n = 0xF0 then 0x90 else 0x80, if n = 0xF4 then 0x8F else 0xBF), (0x80, 0xBF), (0x80, 0xBF)]
      else None)"

text \<open>The length of the well-formed UTF-8 sequence at the head of the text; 0 if there is none.\<close>

definition utf8_len :: "bytes \<Rightarrow> nat" where
  "utf8_len s =
     (case s of
        [] \<Rightarrow> 0
      | c # cs \<Rightarrow>
          (case utf8_ranges (byte c) of
             None \<Rightarrow> 0
           | Some rs \<Rightarrow> if list_all2 is_cont rs (take (length rs) cs) then Suc (length rs) else 0))"

definition utf8_encode :: "nat \<Rightarrow> bytes" where
  "utf8_encode r =
     (if r < 0x80 then [char_of r]
      else if r < 0x800 then [char_of (0xC0 + r div 0x40), char_of (0x80 + r mod 0x40)]
      else if r < 0x10000 then
        [char_of (0xE0 + r div 0x1000), char_of (0x80 + r div 0x40 mod 0x40), char_of (0x80 + r mod 0x40)]
      else
        [char_of (0xF0 + r div 0x40000), char_of (0x80 + r div 0x1000 mod 0x40),
         char_of (0x80 + r div 0x40 mod 0x40), char_of (0x80 + r mod 0x40)])"

definition rune_error :: bytes where
  "rune_error = utf8_encode 0xFFFD"

lemma utf8_len_le: "utf8_len s \<le> length s"
  by (auto simp: utf8_len_def dest!: list_all2_lengthD split: list.splits option.splits)

section \<open>The values of a text\<close>

datatype json =
    JNull
  | JBool bool
  | JNum bytes
  | JStr string
  | JArr "jval list"
  | JObj "(string \<times> jval) list"
and jval = JV (jraw: bytes) (jnode: json)

section \<open>Strings\<close>

definition hex_val :: "char \<Rightarrow> nat option" where
  "hex_val c =
     (let n = byte c in
      if 0x30 \<le> n \<and> n \<le> 0x39 then Some (n - 0x30)
      else if 0x61 \<le> n \<and> n \<le> 0x66 then Some (n - 0x61 + 10)
      else if 0x41 \<le> n \<and> n \<le> 0x46 then Some (n - 0x41 + 10)
      else None)"

definition hex4 :: "bytes \<Rightarrow> (nat \<times> bytes) option" where
  "hex4 s =
     (case s of
        a # b # c # d # rest \<Rightarrow>
          (case (hex_val a, hex_val b, hex_val c, hex_val d) of
             (Some w, Some x, Some y, Some z) \<Rightarrow> Some (((w * 16 + x) * 16 + y) * 16 + z, rest)
           | _ \<Rightarrow> None)
      | _ \<Rightarrow> None)"

definition is_surrogate :: "nat \<Rightarrow> bool" where
  "is_surrogate r \<longleftrightarrow> 0xD800 \<le> r \<and> r < 0xE000"

text \<open>The text after a \<open>\u\<close>: a surrogate takes the \<open>\u\<close> that follows it if the two make a pair,
  and is the replacement character otherwise.\<close>

definition unicode_escape :: "bytes \<Rightarrow> (bytes \<times> bytes) option" where
  "unicode_escape s =
     (case hex4 s of
        None \<Rightarrow> None
      | Some (r, rest) \<Rightarrow>
          if \<not> is_surrogate r then Some (utf8_encode r, rest)
          else case rest of
            b # u # rest' \<Rightarrow>
              if b = ch_backslash \<and> u = CHR ''u'' then
                (case hex4 rest' of
                   Some (r2, rest'') \<Rightarrow>
                     if r < 0xDC00 \<and> 0xDC00 \<le> r2 \<and> r2 < 0xE000
                     then Some (utf8_encode (0x10000 + (r - 0xD800) * 0x400 + (r2 - 0xDC00)), rest'')
                     else Some (rune_error, rest)
                 | None \<Rightarrow> Some (rune_error, rest))
              else Some (rune_error, rest)
          | _ \<Rightarrow> Some (rune_error, rest))"

definition simple_escape :: "char \<Rightarrow> char option" where
  "simple_escape c =
     (if c = ch_quote \<or> c = ch_backslash \<or> c = CHR ''/'' then Some c
      else if c = CHR ''b'' then Some (CHR 0x08)
      else if c = CHR ''f'' then Some (CHR 0x0C)
      else if c = CHR ''n'' then Some (CHR 0x0A)
      else if c = CHR ''r'' then Some (CHR 0x0D)
      else if c = CHR ''t'' then Some (CHR 0x09)
      else None)"

lemma hex4_length: "hex4 s = Some (r, rest) \<Longrightarrow> length s = length rest + 4"
  by (auto simp: hex4_def split: list.splits option.splits prod.splits)

lemma unicode_escape_length: "unicode_escape s = Some (x, rest) \<Longrightarrow> length rest < length s"
  by (auto simp: unicode_escape_def split: list.splits option.splits prod.splits if_splits dest!: hex4_length)

text \<open>The rest of a string literal after its opening quote: the decoded bytes and what follows
  the closing quote.\<close>

function parse_str :: "bytes \<Rightarrow> (string \<times> bytes) option" where
  "parse_str s =
     (case s of
        [] \<Rightarrow> None
      | c # cs \<Rightarrow>
          if c = ch_quote then Some ([], cs)
          else if c = ch_backslash then
            (case cs of
               [] \<Rightarrow> None
             | d # ds \<Rightarrow>
                 if d = CHR ''u'' then
                   (case unicode_escape ds of
                      None \<Rightarrow> None
                    | Some (x, rest) \<Rightarrow> map_option (\<lambda>(y, r). (x @ y, r)) (parse_str rest))
                 else case simple_escape d of
                   None \<Rightarrow> None
                 | Some x \<Rightarrow> map_option (\<lambda>(y, r). (x # y, r)) (parse_str ds))
          else if byte c < 0x20 then None
          else if utf8_len s = 0 then map_option (\<lambda>(y, r). (rune_error @ y, r)) (parse_str cs)
          else map_option (\<lambda>(y, r). (take (utf8_len s) s @ y, r)) (parse_str (drop (utf8_len s) s)))"
  by pat_completeness auto
termination
  by (relation "measure length") (auto dest: unicode_escape_length)

declare parse_str.simps [simp del]

section \<open>Numbers and literals\<close>

definition is_ws :: "char \<Rightarrow> bool" where
  "is_ws c \<longleftrightarrow> byte c \<in> {0x20, 0x09, 0x0A, 0x0D}"

definition skip_ws :: "bytes \<Rightarrow> bytes" where
  "skip_ws s = dropWhile is_ws s"

definition is_digit :: "char \<Rightarrow> bool" where
  "is_digit c \<longleftrightarrow> 0x30 \<le> byte c \<and> byte c \<le> 0x39"

definition scan_digits :: "bytes \<Rightarrow> (bytes \<times> bytes) option" where
  "scan_digits s = (if takeWhile is_digit s = [] then None else Some (takeWhile is_digit s, dropWhile is_digit s))"

definition scan_int :: "bytes \<Rightarrow> (bytes \<times> bytes) option" where
  "scan_int s =
     (case s of
        [] \<Rightarrow> None
      | c # cs \<Rightarrow> if c = CHR ''0'' then Some ([c], cs) else scan_digits s)"

definition scan_frac :: "bytes \<Rightarrow> (bytes \<times> bytes) option" where
  "scan_frac s =
     (case s of
        c # cs \<Rightarrow>
          if c = CHR ''.'' then map_option (\<lambda>(d, r). (c # d, r)) (scan_digits cs) else Some ([], s)
      | [] \<Rightarrow> Some ([], []))"

definition scan_exp :: "bytes \<Rightarrow> (bytes \<times> bytes) option" where
  "scan_exp s =
     (case s of
        c # cs \<Rightarrow>
          if c = CHR ''e'' \<or> c = CHR ''E'' then
            (case cs of
               d # ds \<Rightarrow>
                 if d = CHR ''+'' \<or> d = CHR ''-''
                 then map_option (\<lambda>(x, r). (c # d # x, r)) (scan_digits ds)
                 else map_option (\<lambda>(x, r). (c # x, r)) (scan_digits cs)
             | [] \<Rightarrow> None)
          else Some ([], s)
      | [] \<Rightarrow> Some ([], []))"

definition scan_unsigned :: "bytes \<Rightarrow> (bytes \<times> bytes) option" where
  "scan_unsigned s =
     (case scan_int s of None \<Rightarrow> None | Some (i, s) \<Rightarrow>
      case scan_frac s of None \<Rightarrow> None | Some (f, s) \<Rightarrow>
      case scan_exp s of None \<Rightarrow> None | Some (e, s) \<Rightarrow> Some (i @ f @ e, s))"

definition scan_number :: "bytes \<Rightarrow> (bytes \<times> bytes) option" where
  "scan_number s =
     (case s of
        c # cs \<Rightarrow>
          if c = CHR ''-'' then map_option (\<lambda>(n, r). (c # n, r)) (scan_unsigned cs) else scan_unsigned s
      | [] \<Rightarrow> None)"

definition scan_literal :: "bytes \<Rightarrow> (json \<times> bytes) option" where
  "scan_literal s =
     (if strings_HasPrefix s ''null'' then Some (JNull, drop 4 s)
      else if strings_HasPrefix s ''true'' then Some (JBool True, drop 4 s)
      else if strings_HasPrefix s ''false'' then Some (JBool False, drop 5 s)
      else map_option (\<lambda>(n, r). (JNum n, r)) (scan_number s))"

section \<open>Values\<close>

text \<open>The recursion is on a bound of the calls; more than twice the length of the text is enough.\<close>

fun parse_value :: "nat \<Rightarrow> bytes \<Rightarrow> (jval \<times> bytes) option"
and parse_elems :: "nat \<Rightarrow> bytes \<Rightarrow> (jval list \<times> bytes) option"
and parse_members :: "nat \<Rightarrow> bytes \<Rightarrow> ((string \<times> jval) list \<times> bytes) option" where
  "parse_value 0 s0 = None"
| "parse_value (Suc n) s0 =
     (let s = skip_ws s0 in
      case s of
        [] \<Rightarrow> None
      | c # cs \<Rightarrow>
          map_option (\<lambda>(v, rest). (JV (take (length s - length rest) s) v, rest))
            (if c = CHR ''{'' then
               (case skip_ws cs of
                  [] \<Rightarrow> None
                | d # ds \<Rightarrow>
                    if d = CHR ''}'' then Some (JObj [], ds)
                    else map_option (\<lambda>(kvs, r). (JObj kvs, r)) (parse_members n (d # ds)))
             else if c = CHR ''['' then
               (case skip_ws cs of
                  [] \<Rightarrow> None
                | d # ds \<Rightarrow>
                    if d = CHR '']'' then Some (JArr [], ds)
                    else map_option (\<lambda>(vs, r). (JArr vs, r)) (parse_elems n (d # ds)))
             else if c = ch_quote then map_option (\<lambda>(x, r). (JStr x, r)) (parse_str cs)
             else scan_literal s))"
| "parse_elems 0 s = None"
| "parse_elems (Suc n) s =
     (case parse_value n s of
        None \<Rightarrow> None
      | Some (v, rest) \<Rightarrow>
          (case skip_ws rest of
             [] \<Rightarrow> None
           | c # cs \<Rightarrow>
               if c = CHR '','' then map_option (\<lambda>(vs, r). (v # vs, r)) (parse_elems n cs)
               else if c = CHR '']'' then Some ([v], cs)
               else None))"
| "parse_members 0 s = None"
| "parse_members (Suc n) s =
     (case skip_ws s of
        [] \<Rightarrow> None
      | q # s1 \<Rightarrow>
          if q \<noteq> ch_quote then None
          else case parse_str s1 of
            None \<Rightarrow> None
          | Some (k, s2) \<Rightarrow>
              (case skip_ws s2 of
                 [] \<Rightarrow> None
               | col # s3 \<Rightarrow>
                   if col \<noteq> CHR '':'' then None
                   else case parse_value n s3 of
                     None \<Rightarrow> None
                   | Some (v, rest) \<Rightarrow>
                       (case skip_ws rest of
                          [] \<Rightarrow> None
                        | c # cs \<Rightarrow>
                            if c = CHR '','' then map_option (\<lambda>(kvs, r). ((k, v) # kvs, r)) (parse_members n cs)
                            else if c = CHR ''}'' then Some ([(k, v)], cs)
                            else None)))"

text \<open>\<open>Unmarshal\<close> accepts one value with nothing but white space around it.\<close>

definition json_parse :: "bytes \<Rightarrow> jval option" where
  "json_parse s =
     (case parse_value (2 * length s + 2) s of
        Some (v, rest) \<Rightarrow> if skip_ws rest = [] then Some v else None
      | None \<Rightarrow> None)"

section \<open>The bound is enough\<close>

lemma skip_ws_length: "length (skip_ws s) \<le> length s"
  by (simp add: skip_ws_def length_dropWhile_le)

lemma skip_ws_Cons: "skip_ws s = c # cs \<Longrightarrow> length cs < length s"
  using skip_ws_length [of s] by simp

lemma parse_str_simps [simp]:
  "parse_str [] = None"
  "parse_str (ch_quote # cs) = Some ([], cs)"
  "parse_str [ch_backslash] = None"
  "parse_str (ch_backslash # CHR ''u'' # ds) =
     (case unicode_escape ds of
        None \<Rightarrow> None | Some (x, rest) \<Rightarrow> map_option (\<lambda>(y, r). (x @ y, r)) (parse_str rest))"
  "d \<noteq> CHR ''u'' \<Longrightarrow> parse_str (ch_backslash # d # ds) =
     (case simple_escape d of
        None \<Rightarrow> None | Some x \<Rightarrow> map_option (\<lambda>(y, r). (x # y, r)) (parse_str ds))"
  by (subst parse_str.simps, simp)+

lemma parse_str_raw:
  "c \<noteq> ch_quote \<Longrightarrow> c \<noteq> ch_backslash \<Longrightarrow> parse_str (c # cs) =
     (if byte c < 0x20 then None
      else if utf8_len (c # cs) = 0 then map_option (\<lambda>(y, r). (rune_error @ y, r)) (parse_str cs)
      else map_option (\<lambda>(y, r). (take (utf8_len (c # cs)) (c # cs) @ y, r))
             (parse_str (drop (utf8_len (c # cs)) (c # cs))))"
  by (subst parse_str.simps) simp

lemma parse_str_length: "parse_str s = Some (x, rest) \<Longrightarrow> length rest < length s"
proof (induction "length s" arbitrary: s x rest rule: less_induct)
  case less
  have IH: "length rest < length t" if "length t < length s" "parse_str t = Some (y, rest)" for t y
    using less.hyps that by blast
  consider "s = []" | cs where "s = ch_quote # cs" | "s = [ch_backslash]"
    | ds where "s = ch_backslash # CHR ''u'' # ds" | d ds where "s = ch_backslash # d # ds" "d \<noteq> CHR ''u''"
    | c cs where "s = c # cs" "c \<noteq> ch_quote" "c \<noteq> ch_backslash"
    by (metis list.exhaust)
  then show ?case
  proof cases
    case 4
    with less.prems obtain y t u where "unicode_escape ds = Some (y, t)" "parse_str t = Some (u, rest)"
      by (auto split: option.splits)
    with 4 IH [of t u] unicode_escape_length [of ds y t] show ?thesis by simp
  next
    case 5
    with less.prems obtain u where "parse_str ds = Some (u, rest)" by (auto split: option.splits)
    with 5 IH [of ds u] show ?thesis by simp
  next
    case 6
    with less.prems obtain t u where "parse_str t = Some (u, rest)" "length t < length s"
      by (auto simp: parse_str_raw split: if_splits)
    with IH [of t u] show ?thesis by simp
  qed (use less.prems in auto)
qed

lemma scan_digits_length: "scan_digits s = Some (d, r) \<Longrightarrow> length r < length s"
  using length_dropWhile_le [of is_digit s]
  by (cases s) (auto simp: scan_digits_def le_imp_less_Suc length_dropWhile_le split: if_splits)

lemma scan_int_length: "scan_int s = Some (d, r) \<Longrightarrow> length r < length s"
  by (auto simp: scan_int_def dest: scan_digits_length split: list.splits if_splits)

lemma scan_frac_length: "scan_frac s = Some (d, r) \<Longrightarrow> length r \<le> length s"
  by (auto simp: scan_frac_def dest!: scan_digits_length split: list.splits if_splits)

lemma scan_exp_length: "scan_exp s = Some (d, r) \<Longrightarrow> length r \<le> length s"
  by (auto simp: scan_exp_def dest!: scan_digits_length split: list.splits if_splits)

lemma scan_unsigned_length: "scan_unsigned s = Some (d, r) \<Longrightarrow> length r < length s"
  by (auto simp: scan_unsigned_def dest!: scan_int_length scan_frac_length scan_exp_length split: option.splits)

lemma scan_number_length: "scan_number s = Some (d, r) \<Longrightarrow> length r < length s"
  by (auto simp: scan_number_def dest!: scan_unsigned_length split: list.splits if_splits)

lemma scan_literal_length: "scan_literal s = Some (v, r) \<Longrightarrow> length r < length s"
  by (cases s) (auto simp: scan_literal_def strings_HasPrefix_def dest!: scan_number_length split: if_splits)

lemma parse_length:
  "(\<forall>s v r. parse_value n s = Some (v, r) \<longrightarrow> length r < length s) \<and>
   (\<forall>s vs r. parse_elems n s = Some (vs, r) \<longrightarrow> length r < length s) \<and>
   (\<forall>s kvs r. parse_members n s = Some (kvs, r) \<longrightarrow> length r < length s)"
proof (induction n)
  case (Suc n)
  then have IH: "\<And>s v r. parse_value n s = Some (v, r) \<Longrightarrow> length r < length s"
      "\<And>s vs r. parse_elems n s = Some (vs, r) \<Longrightarrow> length r < length s"
      "\<And>s kvs r. parse_members n s = Some (kvs, r) \<Longrightarrow> length r < length s"
    by blast+
  have "length r < length s" if "parse_value (Suc n) s = Some (v, r)" for s v r
  proof (cases "skip_ws s")
    case (Cons c cs)
    have "length r < length (c # cs)"
      using that Cons skip_ws_length [of cs]
      by (auto simp: Let_def split: list.splits if_splits
          dest: parse_str_length scan_literal_length IH skip_ws_Cons)
    then show ?thesis using skip_ws_length [of s] Cons by simp
  qed (use that in simp)
  moreover have "length r < length s" if p: "parse_elems (Suc n) s = Some (vs, r)" for s vs r
  proof -
    obtain v t where v: "parse_value n s = Some (v, t)"
      using p by (auto split: option.splits)
    moreover obtain c cs where c: "skip_ws t = c # cs"
      using p v by (auto split: list.splits)
    moreover have "length r \<le> length cs"
      using p v c by (auto split: if_splits dest: IH(2))
    ultimately show ?thesis using IH(1) [OF v] skip_ws_Cons [OF c] by simp
  qed
  moreover have "length r < length s" if p: "parse_members (Suc n) s = Some (kvs, r)" for s kvs r
  proof -
    obtain s1 where q: "skip_ws s = ch_quote # s1"
      using p by (auto split: list.splits if_splits)
    obtain k s2 where k: "parse_str s1 = Some (k, s2)"
      using p q by (auto split: option.splits)
    obtain s3 where s3: "skip_ws s2 = CHR '':'' # s3"
      using p q k by (auto split: list.splits if_splits)
    obtain v t where v: "parse_value n s3 = Some (v, t)"
      using p q k s3 by (auto split: option.splits)
    obtain c cs where c: "skip_ws t = c # cs"
      using p q k s3 v by (auto split: list.splits)
    have "length r \<le> length cs"
      using p q k s3 v c by (auto split: if_splits dest: IH(3))
    then show ?thesis
      using skip_ws_Cons [OF q] parse_str_length [OF k] skip_ws_Cons [OF s3] IH(1) [OF v] skip_ws_Cons [OF c] by simp
  qed
  ultimately show ?case by blast
qed simp

lemma parse_fuel:
  "(\<forall>m s. 2 * length s < n \<longrightarrow> 2 * length s < m \<longrightarrow> parse_value n s = parse_value m s) \<and>
   (\<forall>m s. 2 * length s + 1 < n \<longrightarrow> 2 * length s + 1 < m \<longrightarrow> parse_elems n s = parse_elems m s) \<and>
   (\<forall>m s. 2 * length s + 1 < n \<longrightarrow> 2 * length s + 1 < m \<longrightarrow> parse_members n s = parse_members m s)"
proof (induction n)
  case (Suc n)
  have v: "2 * length t < n \<Longrightarrow> 2 * length t < m \<Longrightarrow> parse_value n t = parse_value m t"
      "2 * length t + 1 < n \<Longrightarrow> 2 * length t + 1 < m \<Longrightarrow> parse_elems n t = parse_elems m t"
      "2 * length t + 1 < n \<Longrightarrow> 2 * length t + 1 < m \<Longrightarrow> parse_members n t = parse_members m t" for m t
    using Suc.IH by blast+
  have A: "parse_value (Suc n) s = parse_value (Suc m) s" if l: "2 * length s < Suc n" "2 * length s < Suc m" for m s
  proof (cases "skip_ws s")
    case (Cons c cs)
    have b: "2 * length (d # ds) + 1 < n" "2 * length (d # ds) + 1 < m" if "skip_ws cs = d # ds" for d ds
      using that l skip_ws_Cons [OF Cons] skip_ws_length [of cs] by simp_all
    show ?thesis
      by (simp add: Cons Let_def) (auto split: list.split simp: v(2,3) [OF b])
  qed simp
  have B: "parse_elems (Suc n) s = parse_elems (Suc m) s"
    if l: "2 * length s + 1 < Suc n" "2 * length s + 1 < Suc m" for m s
  proof -
    have eq: "parse_value n s = parse_value m s" using l by (intro v) simp_all
    have b: "2 * length cs + 1 < n" "2 * length cs + 1 < m"
      if "parse_value m s = Some (x, t)" "skip_ws t = c # cs" for x t c cs
      using l parse_length [THEN conjunct1, rule_format, OF that(1)] skip_ws_Cons [OF that(2)] by linarith+
    show ?thesis
      by (auto simp: eq v(2) [OF b] split: option.split list.split)
  qed
  have C: "parse_members (Suc n) s = parse_members (Suc m) s"
    if l: "2 * length s + 1 < Suc n" "2 * length s + 1 < Suc m" for m s
  proof -
    have s3: "length s3 < length s" if "skip_ws s = q # s1" "parse_str s1 = Some (k, s2)" "skip_ws s2 = col # s3"
      for q s1 k s2 col s3
      using skip_ws_Cons [OF that(1)] parse_str_length [OF that(2)] skip_ws_Cons [OF that(3)] by simp
    have eq: "parse_value n t = parse_value m t" if "length t < length s" for t
      using l that by (intro v) simp_all
    have b: "2 * length cs + 1 < n" "2 * length cs + 1 < m"
      if "length s3 < length s" "parse_value m s3 = Some (x, t)" "skip_ws t = c # cs" for s3 x t c cs
      using l that(1) parse_length [THEN conjunct1, rule_format, OF that(2)] skip_ws_Cons [OF that(3)] by linarith+
    show ?thesis
      by (auto simp: eq [OF s3] v(3) [OF b [OF s3]] split: option.split list.split)
  qed
  show ?case
  proof (intro conjI allI impI)
    fix m s
    show "2 * length s < Suc n \<Longrightarrow> 2 * length s < m \<Longrightarrow> parse_value (Suc n) s = parse_value m s"
      using A [of s "m - 1"] by (cases m) simp_all
    show "2 * length s + 1 < Suc n \<Longrightarrow> 2 * length s + 1 < m \<Longrightarrow> parse_elems (Suc n) s = parse_elems m s"
      using B [of s "m - 1"] by (cases m) simp_all
    show "2 * length s + 1 < Suc n \<Longrightarrow> 2 * length s + 1 < m \<Longrightarrow> parse_members (Suc n) s = parse_members m s"
      using C [of s "m - 1"] by (cases m) simp_all
  qed
qed simp

section \<open>Writing\<close>

definition hex_digit :: "nat \<Rightarrow> char" where
  "hex_digit k = (if k < 10 then char_of (0x30 + k) else char_of (0x61 + (k - 10)))"

definition u_escape :: "nat \<Rightarrow> bytes" where
  "u_escape n =
     [ch_backslash, CHR ''u'', hex_digit (n div 4096), hex_digit (n div 256 mod 16),
      hex_digit (n div 16 mod 16), hex_digit (n mod 16)]"

text \<open>\<open>Marshal\<close> also escapes the characters \<open><\<close>, \<open>>\<close> and \<open>&\<close>, and the two line separators.\<close>

definition esc_char :: "char \<Rightarrow> bytes" where
  "esc_char c =
     (if c = ch_quote \<or> c = ch_backslash then [ch_backslash, c]
      else if c = CHR 0x08 then ch_backslash # ''b''
      else if c = CHR 0x0C then ch_backslash # ''f''
      else if c = CHR 0x0A then ch_backslash # ''n''
      else if c = CHR 0x0D then ch_backslash # ''r''
      else if c = CHR 0x09 then ch_backslash # ''t''
      else if byte c < 0x20 \<or> c = CHR ''<'' \<or> c = CHR ''>'' \<or> c = CHR ''&'' then u_escape (byte c)
      else [c])"

function esc_str :: "string \<Rightarrow> bytes" where
  "esc_str s =
     (case s of
        [] \<Rightarrow> []
      | c # cs \<Rightarrow>
          if byte c < 0x80 then esc_char c @ esc_str cs
          else if utf8_len s = 0 then u_escape 0xFFFD @ esc_str cs
          else if take 3 s = utf8_encode 0x2028 then u_escape 0x2028 @ esc_str (drop (utf8_len s) s)
          else if take 3 s = utf8_encode 0x2029 then u_escape 0x2029 @ esc_str (drop (utf8_len s) s)
          else take (utf8_len s) s @ esc_str (drop (utf8_len s) s))"
  by pat_completeness auto
termination
  by (relation "measure length") auto

declare esc_str.simps [simp del]

definition quote :: "string \<Rightarrow> bytes" where
  "quote s = ch_quote # esc_str s @ [ch_quote]"

datatype jout =
    ONull
  | OBool bool
  | ONum bytes
  | OStr string
  | OArr "jout list"
  | OObj "(string \<times> jout) list"
  | ORaw bytes

fun join_comma :: "bytes list \<Rightarrow> bytes" where
  "join_comma [] = []"
| "join_comma [x] = x"
| "join_comma (x # y # xs) = x @ CHR '','' # join_comma (y # xs)"

text \<open>A raw message is copied without the white space outside its strings, with the same
  escapes; a nil one is \<open>null\<close>.\<close>

fun compact_out :: "bool \<Rightarrow> bytes \<Rightarrow> bytes" where
  "compact_out instr [] = []"
| "compact_out instr (c # cs) =
     (if \<not> instr then
        (if is_ws c then compact_out False cs else c # compact_out (c = ch_quote) cs)
      else if c = ch_backslash then
        (case cs of [] \<Rightarrow> [c] | d # ds \<Rightarrow> c # d # compact_out True ds)
      else if c = ch_quote then c # compact_out False cs
      else if c = CHR ''<'' \<or> c = CHR ''>'' \<or> c = CHR ''&'' then u_escape (byte c) @ compact_out True cs
      else if take 3 (c # cs) = utf8_encode 0x2028 then u_escape 0x2028 @ compact_out True (drop 2 cs)
      else if take 3 (c # cs) = utf8_encode 0x2029 then u_escape 0x2029 @ compact_out True (drop 2 cs)
      else c # compact_out True cs)"

definition raw_text :: "bytes \<Rightarrow> bytes" where
  "raw_text r = (if r = [] then ''null'' else compact_out False r)"

fun marshal_text :: "jout \<Rightarrow> bytes" where
  "marshal_text ONull = ''null''"
| "marshal_text (OBool b) = (if b then ''true'' else ''false'')"
| "marshal_text (ONum n) = n"
| "marshal_text (OStr s) = quote s"
| "marshal_text (OArr vs) = CHR ''['' # join_comma (map marshal_text vs) @ '']''"
| "marshal_text (OObj kvs) =
     CHR ''{'' # join_comma (map (\<lambda>(k, v). quote k @ CHR '':'' # marshal_text v) kvs) @ ''}''"
| "marshal_text (ORaw r) = raw_text r"

fun raws_ok :: "jout \<Rightarrow> bool" where
  "raws_ok (OArr vs) = (\<forall>v \<in> set vs. raws_ok v)"
| "raws_ok (OObj kvs) = (\<forall>(k, v) \<in> set kvs. raws_ok v)"
| "raws_ok (ORaw r) = (r = [] \<or> json_parse r \<noteq> None)"
| "raws_ok _ = True"

text \<open>\<open>Marshal\<close> fails on a raw message that is not JSON.\<close>

definition json_marshal :: "jout \<Rightarrow> bytes option" where
  "json_marshal j = (if raws_ok j then Some (marshal_text j) else None)"

section \<open>Round trip\<close>

function utf8_valid :: "string \<Rightarrow> bool" where
  "utf8_valid s =
     (if s = [] then True else if utf8_len s = 0 then False else utf8_valid (drop (utf8_len s) s))"
  by pat_completeness auto
termination
  by (relation "measure length") auto

declare utf8_valid.simps [simp del]

lemma byte_char_of [simp]: "n < 256 \<Longrightarrow> byte (char_of n) = n"
  by (simp add: byte_def)

lemma byte_less [simp]: "byte c < 256"
  by (simp add: byte_def)

lemma char_of_byte [simp]: "char_of (byte c) = c"
  by (simp add: byte_def)

lemma hex_val_digit: "k < 16 \<Longrightarrow> hex_val (hex_digit k) = Some k"
  by (simp add: hex_val_def hex_digit_def Let_def)

lemma hex4_digits:
  assumes "n < 65536"
  shows "hex4 (hex_digit (n div 4096) # hex_digit (n div 256 mod 16) # hex_digit (n div 16 mod 16)
      # hex_digit (n mod 16) # rest) = Some (n, rest)"
proof -
  have "n div 4096 = n div 256 div 16" "n div 256 = n div 16 div 16"
    by (simp_all add: div_mult2_eq [symmetric])
  then have "((n div 4096 * 16 + n div 256 mod 16) * 16 + n div 16 mod 16) * 16 + n mod 16 = n"
    by (metis div_mult_mod_eq)
  moreover have "n div 4096 < 16" using assms by (simp add: less_mult_imp_div_less)
  ultimately show ?thesis by (simp add: hex4_def hex_val_digit)
qed

lemma parse_str_u_escape:
  "n < 65536 \<Longrightarrow> \<not> is_surrogate n \<Longrightarrow>
     parse_str (u_escape n @ rest) = map_option (\<lambda>(y, r). (utf8_encode n @ y, r)) (parse_str rest)"
  by (simp add: u_escape_def unicode_escape_def hex4_digits)

lemma parse_str_esc_char:
  assumes "byte c < 0x80"
  shows "parse_str (esc_char c @ rest) = map_option (\<lambda>(y, r). (c # y, r)) (parse_str rest)"
proof -
  let ?S = "[ch_quote, ch_backslash, CHR 0x08, CHR 0x0C, CHR 0x0A, CHR 0x0D, CHR 0x09]"
    and ?u = "byte c < 0x20 \<or> c = CHR ''<'' \<or> c = CHR ''>'' \<or> c = CHR ''&''"
  consider "c \<in> set ?S" | "c \<notin> set ?S" ?u | "c \<notin> set ?S" "\<not> ?u" by blast
  then show ?thesis
  proof cases
    case 1
    then show ?thesis by (auto simp: esc_char_def simple_escape_def)
  next
    case 2
    then have "esc_char c = u_escape (byte c)" by (simp add: esc_char_def)
    with assms parse_str_u_escape [of "byte c" rest] show ?thesis
      by (simp add: is_surrogate_def utf8_encode_def)
  next
    case 3
    then have "esc_char c = [c]" by (simp add: esc_char_def)
    with 3 assms show ?thesis
      by (simp add: parse_str_raw utf8_len_def utf8_ranges_def)
  qed
qed

text \<open>Only the bytes of the sequence itself decide about its length.\<close>

lemma utf8_len_take:
  assumes "utf8_len s \<noteq> 0"
  shows "utf8_len (take (utf8_len s) s @ t) = utf8_len s"
proof -
  obtain c cs rs where s: "s = c # cs" "utf8_ranges (byte c) = Some rs" "list_all2 is_cont rs (take (length rs) cs)"
    using assms by (auto simp: utf8_len_def split: list.splits option.splits if_splits)
  have "length (take (length rs) cs) = length rs" using list_all2_lengthD [OF s(3)] by simp
  moreover have "utf8_len s = Suc (length rs)" using s by (simp add: utf8_len_def)
  ultimately show ?thesis using s by (simp add: utf8_len_def)
qed

lemma parse_str_chunk:
  assumes "s = c # cs" and "utf8_len s \<noteq> 0" and "0x80 \<le> byte c"
  shows "parse_str (take (utf8_len s) s @ t) = map_option (\<lambda>(y, r). (take (utf8_len s) s @ y, r)) (parse_str t)"
proof -
  obtain ds where ds: "take (utf8_len s) s = c # ds" using assms(1,2) by (cases "utf8_len s") auto
  have len: "length (take (utf8_len s) s) = utf8_len s" using utf8_len_le [of s] by simp
  have "c \<noteq> ch_quote" "c \<noteq> ch_backslash" "\<not> byte c < 0x20" using assms(3) by (auto simp: byte_def)
  then have "parse_str (c # (ds @ t)) = map_option (\<lambda>(y, r). (take (utf8_len s) (c # ds @ t) @ y, r))
      (parse_str (drop (utf8_len s) (c # ds @ t)))"
    using utf8_len_take [OF assms(2), of t] assms(2) by (subst parse_str_raw) (simp_all add: ds)
  moreover have "take (utf8_len s) (c # ds @ t) = c # ds" "drop (utf8_len s) (c # ds @ t) = t"
    using len by (simp_all add: ds flip: append_Cons)
  ultimately show ?thesis by (simp add: ds)
qed

lemma utf8_separators:
  "utf8_encode 0x2028 = [CHR 0xE2, CHR 0x80, CHR 0xA8]" "utf8_encode 0x2029 = [CHR 0xE2, CHR 0x80, CHR 0xA9]"
  by (simp_all add: utf8_encode_def char_of_def bit_0)

lemma utf8_len_separator:
  assumes "take 3 s = utf8_encode n" and "n = 0x2028 \<or> n = 0x2029"
  shows "utf8_len s = 3"
proof -
  have len: "utf8_len (utf8_encode n) = 3" using assms(2)
    by (auto simp: utf8_separators utf8_len_def utf8_ranges_def is_cont_def byte_def)
  then have "utf8_len (take 3 (utf8_encode n) @ drop 3 s) = 3"
    using utf8_len_take [of "utf8_encode n" "drop 3 s"] by simp
  moreover have "take 3 (utf8_encode n) @ drop 3 s = s" by (simp flip: assms(1))
  ultimately show ?thesis by simp
qed

lemma esc_str_high:
  assumes "s = c # cs" and "\<not> byte c < 0x80" and "utf8_len s \<noteq> 0"
  shows "esc_str s =
     (if take 3 s = utf8_encode 0x2028 then u_escape 0x2028 @ esc_str (drop (utf8_len s) s)
      else if take 3 s = utf8_encode 0x2029 then u_escape 0x2029 @ esc_str (drop (utf8_len s) s)
      else take (utf8_len s) s @ esc_str (drop (utf8_len s) s))"
  using assms(2,3) unfolding assms(1) by (subst esc_str.simps) simp

lemma parse_esc_str:
  "utf8_valid s \<Longrightarrow> parse_str (esc_str s @ ch_quote # rest) = Some (s, rest)"
proof (induction "length s" arbitrary: s rule: less_induct)
  case less
  show ?case
  proof (cases s)
    case Nil
    then show ?thesis by (simp add: esc_str.simps)
  next
    case (Cons c cs)
    let ?k = "utf8_len s"
    have k: "?k \<noteq> 0" and v: "utf8_valid (drop ?k s)"
      using less.prems Cons by (subst (asm) utf8_valid.simps, simp split: if_splits)+
    have IH: "parse_str (esc_str (drop ?k s) @ ch_quote # rest) = Some (drop ?k s, rest)"
      using k Cons v by (intro less.hyps) auto
    show ?thesis
    proof (cases "byte c < 0x80")
      case True
      then have "?k = 1" by (simp add: Cons utf8_len_def utf8_ranges_def)
      with IH True show ?thesis
        using parse_str_esc_char [OF True, of "esc_str cs @ ch_quote # rest"]
        by (simp add: Cons esc_str.simps [of "c # cs"])
    next
      case False
      consider n where "n = 0x2028 \<or> n = 0x2029" "take 3 s = utf8_encode n" "esc_str s = u_escape n @ esc_str (drop ?k s)"
        | "esc_str s = take ?k s @ esc_str (drop ?k s)"
        using esc_str_high [OF Cons False k] by metis
      then show ?thesis
      proof cases
        case 1
        then have "?k = 3" using utf8_len_separator by blast
        with 1 IH show ?thesis
          using parse_str_u_escape [of n "esc_str (drop ?k s) @ ch_quote # rest"]
          append_take_drop_id [of 3 s] by (auto simp: is_surrogate_def)
      next
        case 2
        with IH parse_str_chunk [OF Cons k, of "esc_str (drop ?k s) @ ch_quote # rest"] False show ?thesis
          by simp
      qed
    qed
  qed
qed

text \<open>A number ends where no character of a number follows.\<close>

definition num_char :: "char \<Rightarrow> bool" where
  "num_char c \<longleftrightarrow> is_digit c \<or> c \<in> {CHR ''.'', CHR ''e'', CHR ''E'', CHR ''+'', CHR ''-''}"

definition num_end :: "bytes \<Rightarrow> bool" where
  "num_end s \<longleftrightarrow> (case s of [] \<Rightarrow> True | c # _ \<Rightarrow> \<not> num_char c)"

lemma num_end_Cons [simp]: "num_end (c # s) \<longleftrightarrow> \<not> num_char c"
  by (simp add: num_end_def)

lemma num_end_Nil [simp]: "num_end []"
  by (simp add: num_end_def)

lemma digits_append:
  assumes "num_end rest"
  shows "takeWhile is_digit (s @ rest) = takeWhile is_digit s" "dropWhile is_digit (s @ rest) = dropWhile is_digit s @ rest"
proof -
  have "takeWhile is_digit rest = []" "dropWhile is_digit rest = rest"
    using assms by (auto simp: num_end_def num_char_def split: list.splits)
  then show "takeWhile is_digit (s @ rest) = takeWhile is_digit s" "dropWhile is_digit (s @ rest) = dropWhile is_digit s @ rest"
    by (induction s) auto
qed

lemma scan_digits_append:
  "num_end rest \<Longrightarrow> scan_digits s = Some (a, b) \<Longrightarrow> scan_digits (s @ rest) = Some (a, b @ rest)"
  by (auto simp: scan_digits_def digits_append split: if_splits)

lemma scan_int_append:
  "num_end rest \<Longrightarrow> scan_int s = Some (a, b) \<Longrightarrow> scan_int (s @ rest) = Some (a, b @ rest)"
  by (cases s) (auto simp: scan_int_def dest: scan_digits_append [rotated] split: if_splits)

lemma scan_frac_append:
  assumes "num_end rest" and "scan_frac s = Some (a, b)"
  shows "scan_frac (s @ rest) = Some (a, b @ rest)"
proof (cases s)
  case Nil
  with assms show ?thesis by (cases rest) (auto simp: scan_frac_def num_char_def)
next
  case (Cons c cs)
  then show ?thesis
    using assms scan_digits_append [OF assms(1), of cs] by (auto simp: scan_frac_def split: if_splits)
qed

lemma scan_exp_append:
  assumes "num_end rest" and "scan_exp s = Some (a, b)"
  shows "scan_exp (s @ rest) = Some (a, b @ rest)"
proof (cases s)
  case Nil
  with assms show ?thesis by (cases rest) (auto simp: scan_exp_def num_char_def)
next
  case (Cons c cs)
  then show ?thesis
    using assms scan_digits_append [OF assms(1), of cs] scan_digits_append [OF assms(1), of "tl cs"]
    by (cases cs) (auto simp: scan_exp_def split: if_splits)
qed

lemma scan_unsigned_append:
  assumes "num_end rest" and "scan_unsigned s = Some (a, b)"
  shows "scan_unsigned (s @ rest) = Some (a, b @ rest)"
proof -
  obtain i s1 f s2 e where "scan_int s = Some (i, s1)" "scan_frac s1 = Some (f, s2)" "scan_exp s2 = Some (e, b)"
      "a = i @ f @ e"
    using assms(2) by (auto simp: scan_unsigned_def split: option.splits)
  then show ?thesis
    using scan_int_append [OF assms(1)] scan_frac_append [OF assms(1)] scan_exp_append [OF assms(1)]
    by (simp add: scan_unsigned_def)
qed

lemma scan_number_append:
  assumes "num_end rest" and "scan_number s = Some (a, b)"
  shows "scan_number (s @ rest) = Some (a, b @ rest)"
  using assms by (cases s) (auto simp: scan_number_def dest: scan_unsigned_append [rotated] split: if_splits)

definition number_ok :: "bytes \<Rightarrow> bool" where
  "number_ok t \<longleftrightarrow> scan_number t = Some (t, [])"

lemma number_head:
  assumes "number_ok t"
  shows "\<exists>c cs. t = c # cs \<and> (is_digit c \<or> c = CHR ''-'')"
  using assms
  by (cases t) (auto simp: number_ok_def scan_number_def scan_unsigned_def scan_int_def scan_digits_def is_digit_def byte_def
      split: if_splits option.splits)

text \<open>What the reader makes of a text, without the raw texts.\<close>

fun jout_of :: "jval \<Rightarrow> jout" and jout_node :: "json \<Rightarrow> jout" where
  "jout_of (JV r v) = jout_node v"
| "jout_node JNull = ONull"
| "jout_node (JBool b) = OBool b"
| "jout_node (JNum n) = ONum n"
| "jout_node (JStr s) = OStr s"
| "jout_node (JArr vs) = OArr (map jout_of vs)"
| "jout_node (JObj kvs) = OObj (map (\<lambda>(k, v). (k, jout_of v)) kvs)"

fun clean :: "jout \<Rightarrow> bool" where
  "clean (ONum n) = number_ok n"
| "clean (OStr s) = utf8_valid s"
| "clean (OArr vs) = (\<forall>v \<in> set vs. clean v)"
| "clean (OObj kvs) = (\<forall>(k, v) \<in> set kvs. utf8_valid k \<and> clean v)"
| "clean (ORaw r) = False"
| "clean _ = True"

lemma skip_ws_nonws [simp]: "\<not> is_ws c \<Longrightarrow> skip_ws (c # cs) = c # cs"
  by (simp add: skip_ws_def)

lemma not_ws [simp]:
  "\<not> is_ws (CHR ''['')" "\<not> is_ws (CHR '']'')" "\<not> is_ws (CHR ''{'')" "\<not> is_ws (CHR ''}'')" "\<not> is_ws (CHR '','')"
  "\<not> is_ws (CHR '':'')" "\<not> is_ws ch_quote" "\<not> is_ws (CHR ''n'')" "\<not> is_ws (CHR ''t'')" "\<not> is_ws (CHR ''f'')"
  "\<not> is_ws (CHR ''-'')" "is_digit c \<Longrightarrow> \<not> is_ws c"
  by (auto simp: is_ws_def byte_def is_digit_def)

lemma not_num_char [simp]:
  "\<not> num_char (CHR '','')" "\<not> num_char (CHR '']'')" "\<not> num_char (CHR ''}'')"
  by (auto simp: num_char_def is_digit_def byte_def)

text \<open>The value that reading a written one gives, with the raw texts.\<close>

fun jval_of :: "jout \<Rightarrow> jval" where
  "jval_of ONull = JV ''null'' JNull"
| "jval_of (OBool b) = JV (marshal_text (OBool b)) (JBool b)"
| "jval_of (ONum n) = JV n (JNum n)"
| "jval_of (OStr s) = JV (quote s) (JStr s)"
| "jval_of (OArr vs) = JV (marshal_text (OArr vs)) (JArr (map jval_of vs))"
| "jval_of (OObj kvs) = JV (marshal_text (OObj kvs)) (JObj (map (\<lambda>(k, v). (k, jval_of v)) kvs))"
| "jval_of (ORaw r) = JV r JNull"

lemma jraw_jval_of: "clean j \<Longrightarrow> jraw (jval_of j) = marshal_text j"
  by (cases j) simp_all

lemma jout_of_jval_of: "clean j \<Longrightarrow> jout_of (jval_of j) = j"
  by (induction j) (auto intro!: map_idI)

definition reads_back :: "jout \<Rightarrow> bool" where
  "reads_back v \<longleftrightarrow> (\<forall>n rest. num_end rest \<longrightarrow> 2 * length (marshal_text v) < n \<longrightarrow>
     parse_value n (marshal_text v @ rest) = Some (jval_of v, rest))"

lemma reads_backD:
  assumes "reads_back v" and "num_end rest" and "2 * length (marshal_text v) < n"
  shows "parse_value n (marshal_text v @ rest) = Some (jval_of v, rest)"
  using assms by (auto simp: reads_back_def)

lemma parse_elems_marshal:
  assumes "\<forall>v \<in> set vs. reads_back v" and "vs \<noteq> []"
    and "2 * length (join_comma (map marshal_text vs)) + 1 < n"
  shows "parse_elems n (join_comma (map marshal_text vs) @ CHR '']'' # rest) = Some (map jval_of vs, rest)"
  using assms
proof (induction vs arbitrary: n rule: induct_list012)
  case (2 v)
  obtain m where n: "n = Suc m" using "2.prems"(3) by (cases n) auto
  have "parse_value m (marshal_text v @ CHR '']'' # rest) = Some (jval_of v, CHR '']'' # rest)"
    by (rule reads_backD) (use "2.prems" n in auto)
  then show ?case by (simp add: n)
next
  case (3 v u vs)
  obtain m where n: "n = Suc m" using "3.prems"(3) by (cases n) auto
  let ?t = "join_comma (map marshal_text (u # vs)) @ CHR '']'' # rest"
  have "parse_value m (marshal_text v @ CHR '','' # ?t) = Some (jval_of v, CHR '','' # ?t)"
    by (rule reads_backD) (use "3.prems" n in auto)
  moreover have "parse_elems m ?t = Some (map jval_of (u # vs), rest)"
    using "3.IH"(2) [of m] "3.prems" n by auto
  ultimately show ?case by (simp add: n)
qed simp

abbreviation member_text :: "string \<times> jout \<Rightarrow> bytes" where
  "member_text \<equiv> \<lambda>(k, v). quote k @ CHR '':'' # marshal_text v"

abbreviation member_of :: "string \<times> jout \<Rightarrow> string \<times> jval" where
  "member_of \<equiv> \<lambda>(k, v). (k, jval_of v)"

lemma parse_member_step:
  assumes "utf8_valid k" and "parse_value m (marshal_text v @ c # t) = Some (w, c # t)" and "\<not> is_ws c"
  shows "parse_members (Suc m) (member_text (k, v) @ c # t) =
    (if c = CHR '','' then map_option (\<lambda>(kvs, r). ((k, w) # kvs, r)) (parse_members m t)
     else if c = CHR ''}'' then Some ([(k, w)], t) else None)"
  using assms by (simp add: quote_def parse_esc_str)

declare parse_members.simps(2) [simp del]

lemma parse_members_marshal:
  assumes "\<forall>(k, v) \<in> set kvs. reads_back v \<and> utf8_valid k" and "kvs \<noteq> []"
    and "2 * length (join_comma (map member_text kvs)) + 1 < n"
  shows "parse_members n (join_comma (map member_text kvs) @ CHR ''}'' # rest) = Some (map member_of kvs, rest)"
  using assms
proof (induction kvs arbitrary: n rule: induct_list012)
  case (2 kv)
  obtain k v where kv: "kv = (k, v)" by (cases kv)
  obtain m where n: "n = Suc m" using "2.prems"(3) by (cases n) auto
  have w: "parse_value m (marshal_text v @ CHR ''}'' # rest) = Some (jval_of v, CHR ''}'' # rest)"
    by (rule reads_backD) (use "2.prems" n kv in auto)
  have "utf8_valid k" using "2.prems"(1) kv by auto
  from parse_member_step [OF this w] show ?case by (simp add: n kv)
next
  case (3 kv u kvs)
  obtain k v where kv: "kv = (k, v)" by (cases kv)
  obtain m where n: "n = Suc m" using "3.prems"(3) by (cases n) auto
  let ?t = "join_comma (map member_text (u # kvs)) @ CHR ''}'' # rest"
  have w: "parse_value m (marshal_text v @ CHR '','' # ?t) = Some (jval_of v, CHR '','' # ?t)"
    by (rule reads_backD) (use "3.prems" n kv in auto)
  have ws: "parse_members m ?t = Some (map member_of (u # kvs), rest)"
    using "3.IH"(2) [of m] "3.prems" n by (auto simp: kv)
  have "utf8_valid k" using "3.prems"(1) kv by auto
  from parse_member_step [OF this w] ws show ?case by (simp add: n kv)
qed simp

lemma scan_literal_number:
  assumes "number_ok t" and "num_end rest"
  shows "scan_literal (t @ rest) = Some (JNum t, rest)"
proof -
  obtain c cs where c: "t = c # cs" "is_digit c \<or> c = CHR ''-''" using number_head [OF assms(1)] by blast
  then have "c \<notin> {CHR ''n'', CHR ''t'', CHR ''f''}" by (auto simp: is_digit_def byte_def)
  with c(1) show ?thesis
    using scan_number_append [OF assms(2), of t t "[]"] assms(1)
    by (simp add: scan_literal_def strings_HasPrefix_def number_ok_def)
qed

lemma marshal_head:
  assumes "clean j"
  shows "\<exists>c cs. marshal_text j = c # cs \<and> \<not> is_ws c \<and> c \<noteq> CHR '']'' \<and> c \<noteq> CHR ''}''"
proof (cases j)
  case (ONum n)
  with assms number_head [of n] show ?thesis by (fastforce simp: is_digit_def byte_def)
qed (use assms in \<open>auto simp: quote_def\<close>)

lemma parse_marshal: "clean j \<Longrightarrow> reads_back j"
proof (induction j)
  case (ONum t)
  obtain c cs where c: "t = c # cs" "is_digit c \<or> c = CHR ''-''" using number_head [of t] ONum by auto
  then have h: "\<not> is_ws c" "c \<notin> {CHR ''{'', CHR ''['', ch_quote}" by (auto simp: is_digit_def byte_def)
  show ?case unfolding reads_back_def
  proof (intro allI impI)
    fix n rest assume "num_end rest" "2 * length (marshal_text (ONum t)) < n"
    with c(1) h show "parse_value n (marshal_text (ONum t) @ rest) = Some (jval_of (ONum t), rest)"
      using scan_literal_number [of t rest] ONum by (cases n) (simp_all add: Let_def)
  qed
next
  case (OArr vs)
  show ?case unfolding reads_back_def
  proof (intro allI impI)
    fix n rest assume a: "num_end rest" "2 * length (marshal_text (OArr vs)) < n"
    then obtain m where n: "n = Suc m" by (cases n) auto
    show "parse_value n (marshal_text (OArr vs) @ rest) = Some (jval_of (OArr vs), rest)"
    proof (cases "vs = []")
      case False
      then obtain c cs where c: "join_comma (map marshal_text vs) = c # cs" "\<not> is_ws c" "c \<noteq> CHR '']''"
        using marshal_head [of "hd vs"] OArr.prems by (cases vs rule: remdups_adj.cases) auto
      have "\<forall>v \<in> set vs. reads_back v" using OArr by simp
      from parse_elems_marshal [OF this False, of m rest] a(2) c show ?thesis
        by (auto simp: n Let_def numeral_3_eq_3)
    qed (simp add: n Let_def)
  qed
next
  case (OObj kvs)
  have kvs: "\<forall>(k, v) \<in> set kvs. reads_back v \<and> utf8_valid k" using OObj by fastforce
  show ?case unfolding reads_back_def
  proof (intro allI impI)
    fix n rest assume a: "num_end rest" "2 * length (marshal_text (OObj kvs)) < n"
    then obtain m where n: "n = Suc m" by (cases n) auto
    show "parse_value n (marshal_text (OObj kvs) @ rest) = Some (jval_of (OObj kvs), rest)"
    proof (cases "kvs = []")
      case False
      obtain cs where c: "join_comma (map member_text kvs) = ch_quote # cs"
        using False by (cases kvs rule: remdups_adj.cases) (auto simp: quote_def)
      from parse_members_marshal [OF kvs False, of m rest] a(2) c show ?thesis
        by (auto simp: n Let_def numeral_3_eq_3)
    qed (simp add: n Let_def)
  qed
next
  case (OStr s)
  then have "parse_value n (marshal_text (OStr s) @ rest) = Some (JV (marshal_text (OStr s)) (JStr s), rest)" if "0 < n" for n rest
    using that by (cases n) (simp_all add: Let_def quote_def parse_esc_str)
  then show ?case unfolding reads_back_def by (simp add: gr_implies_not0)
next
  case ONull
  have "parse_value n (marshal_text ONull @ rest) = Some (JV ''null'' JNull, rest)" if "0 < n" for n rest
    using that by (cases n) (simp_all add: Let_def scan_literal_def strings_HasPrefix_def)
  then show ?case unfolding reads_back_def by (simp add: gr_implies_not0)
next
  case (OBool b)
  have "parse_value n (marshal_text (OBool b) @ rest) = Some (JV (marshal_text (OBool b)) (JBool b), rest)" if "0 < n" for n rest
    using that by (cases n; cases b) (simp_all add: Let_def scan_literal_def strings_HasPrefix_def)
  then show ?case unfolding reads_back_def by (simp add: gr_implies_not0)
qed simp

declare parse_value.simps(2) [simp del] parse_elems.simps(2) [simp del]

text \<open>\<open>Unmarshal\<close> reads back what \<open>Marshal\<close> wrote.\<close>

lemma json_parse_exact:
  assumes "clean j"
  shows "json_parse (marshal_text j) = Some (jval_of j)"
  using reads_backD [OF parse_marshal [OF assms], of "[]" "2 * length (marshal_text j) + 2"]
  by (simp add: json_parse_def skip_ws_def)

lemma json_parse_marshal:
  assumes "clean j"
  shows "\<exists>w. json_parse (marshal_text j) = Some w \<and> jout_of w = j"
  using json_parse_exact [OF assms] jout_of_jval_of [OF assms] by blast

end
