(* ===== verification/Json_Decode.thy ===== *)
theory Json_Decode
  imports Json
begin

text \<open>
  The part of \<open>encoding/json\<close> between texts and Go values: numbers, the matching of object keys to
  field names, and decoders for the kinds of fields the sources have. A decoder gets the value
  and what the target held before, and fails where \<open>Unmarshal\<close> reports a type error (the callers
  never use a target after an error).
\<close>

section \<open>Integers as text\<close>

definition digit_val :: "char \<Rightarrow> int" where
  "digit_val c = int (byte c) - 0x30"

definition digits_val :: "bytes \<Rightarrow> int" where
  "digits_val s = foldl (\<lambda>n c. 10 * n + digit_val c) 0 s"

definition digit_char :: "nat \<Rightarrow> char" where
  "digit_char d = char_of (0x30 + d)"

fun nat_text :: "nat \<Rightarrow> bytes" where
  "nat_text n = (if n < 10 then [digit_char n] else nat_text (n div 10) @ [digit_char (n mod 10)])"

declare nat_text.simps [simp del]

definition int_text :: "int \<Rightarrow> bytes" where
  "int_text n = (if n < 0 then CHR ''-'' # nat_text (nat (- n)) else nat_text (nat n))"

text \<open>\<open>strconv.ParseInt\<close> in base 10 for 64 bits, on a JSON number.\<close>

definition parse_int :: "bytes \<Rightarrow> int option" where
  "parse_int s =
     (let neg = (s \<noteq> [] \<and> hd s = CHR ''-'');
          ds = (if neg then tl s else s);
          n = (if neg then - digits_val ds else digits_val ds)
      in if ds \<noteq> [] \<and> list_all is_digit ds \<and> in_int64 n then Some n else None)"

lemma char_eq_byte: "c = d \<longleftrightarrow> byte c = byte d"
  by (metis char_of_byte)

lemma digit_char_props:
  assumes "d < 10"
  shows "is_digit (digit_char d)" "digit_val (digit_char d) = int d" "digit_char d = CHR ''0'' \<longleftrightarrow> d = 0"
    "digit_char d \<noteq> CHR ''-''"
proof -
  have b: "byte (digit_char d) = 0x30 + d" using assms by (simp add: digit_char_def)
  then show "is_digit (digit_char d)" "digit_val (digit_char d) = int d"
    using assms by (simp_all add: is_digit_def digit_val_def)
  have "byte (CHR ''0'') = 0x30" "byte (CHR ''-'') = 0x2D" by (simp_all add: byte_def)
  with b show "digit_char d = CHR ''0'' \<longleftrightarrow> d = 0" "digit_char d \<noteq> CHR ''-''"
    by (simp_all add: char_eq_byte)
qed

lemma digits_val_append: "digits_val (s @ [c]) = 10 * digits_val s + digit_val c"
  by (simp add: digits_val_def)

lemma nat_text_val: "digits_val (nat_text n) = int n \<and> list_all is_digit (nat_text n) \<and> nat_text n \<noteq> []"
proof (induction n rule: nat_text.induct)
  case (1 n)
  show ?case
  proof (cases "n < 10")
    case True
    then show ?thesis by (simp add: nat_text.simps [of n] digits_val_def digit_char_props)
  next
    case False
    with 1 have "digits_val (nat_text (n div 10)) = int (n div 10)" "list_all is_digit (nat_text (n div 10))" by auto
    with False show ?thesis
      by (simp add: nat_text.simps [of n] digits_val_append digit_char_props) presburger
  qed
qed

lemma nat_text_head: "nat_text n = c # cs \<Longrightarrow> is_digit c \<and> (c = CHR ''0'' \<longrightarrow> cs = [])"
proof (induction n arbitrary: c cs rule: nat_text.induct)
  case (1 n)
  show ?case
  proof (cases "n < 10")
    case True
    with "1.prems" show ?thesis by (auto simp: nat_text.simps [of n] digit_char_props)
  next
    case False
    obtain d ds where d: "nat_text (n div 10) = d # ds" using nat_text_val [of "n div 10"] by (cases "nat_text (n div 10)") auto
    have "d \<noteq> CHR ''0''"
    proof
      assume z: "d = CHR ''0''"
      with "1.IH" [OF False d] d have "digits_val (nat_text (n div 10)) = 0" by (simp add: digits_val_def digit_val_def byte_def)
      with nat_text_val [of "n div 10"] have "n div 10 = 0" by simp
      with False show False by (simp add: div_eq_0_iff)
    qed
    with False d "1.IH" [OF False d] "1.prems" show ?thesis by (simp add: nat_text.simps [of n])
  qed
qed

lemma nat_text_not_minus: "hd (nat_text n) \<noteq> CHR ''-''"
proof -
  obtain c cs where c: "nat_text n = c # cs" using nat_text_val [of n] by (cases "nat_text n") auto
  then show ?thesis using nat_text_head [OF c] by (auto simp: is_digit_def byte_def)
qed

lemma parse_int_text: "in_int64 n \<Longrightarrow> parse_int (int_text n) = Some n"
  using nat_text_val [of "nat n"] nat_text_val [of "nat (- n)"] nat_text_not_minus [of "nat n"]
  by (simp add: parse_int_def int_text_def Let_def)

lemma scan_digits_all: "s \<noteq> [] \<Longrightarrow> list_all is_digit s \<Longrightarrow> scan_digits s = Some (s, [])"
  by (cases s) (simp_all add: scan_digits_def dropWhile_eq_Nil_conv list_all_iff)

lemma scan_nat_text: "scan_unsigned (nat_text n) = Some (nat_text n, [])"
proof -
  obtain c cs where c: "nat_text n = c # cs" using nat_text_val [of n] by (cases "nat_text n") auto
  have "scan_int (nat_text n) = Some (nat_text n, [])"
    using nat_text_head [OF c] scan_digits_all [of "nat_text n"] nat_text_val [of n] c
    by (auto simp: scan_int_def)
  then show ?thesis by (simp add: scan_unsigned_def scan_frac_def scan_exp_def)
qed

lemma int_text_ok: "number_ok (int_text n)"
proof -
  obtain c cs where c: "nat_text (nat n) = c # cs" using nat_text_val [of "nat n"] by (cases "nat_text (nat n)") auto
  then show ?thesis
    using scan_nat_text [of "nat n"] scan_nat_text [of "nat (- n)"] nat_text_not_minus [of "nat n"]
    by (auto simp: number_ok_def int_text_def scan_number_def)
qed

section \<open>Numbers as rationals\<close>

definition pow10 :: "int \<Rightarrow> rat" where
  "pow10 e = (if 0 \<le> e then 10 ^ nat e else 1 / 10 ^ nat (- e))"

definition exp_val :: "bytes \<Rightarrow> int" where
  "exp_val s =
     (case s of
        c # d # ds \<Rightarrow>
          if d = CHR ''-'' then - digits_val ds
          else if d = CHR ''+'' then digits_val ds
          else digits_val (d # ds)
      | _ \<Rightarrow> 0)"

text \<open>The value of a JSON number: digits, an optional fraction and an optional exponent.\<close>

definition number_val :: "bytes \<Rightarrow> float64" where
  "number_val s =
     (let neg = (s \<noteq> [] \<and> hd s = CHR ''-'');
          u = (if neg then tl s else s);
          i = takeWhile is_digit u;
          r = dropWhile is_digit u;
          f = (if r \<noteq> [] \<and> hd r = CHR ''.'' then takeWhile is_digit (tl r) else []);
          r = (if r \<noteq> [] \<and> hd r = CHR ''.'' then dropWhile is_digit (tl r) else r);
          v = of_int (digits_val (i @ f)) * pow10 (exp_val r - int (length f))
      in if neg then - v else v)"

text \<open>The literals that overflow a \<open>float64\<close> are rejected; rounding is not modelled.\<close>

definition parse_float :: "bytes \<Rightarrow> float64 option" where
  "parse_float s =
     (let v = number_val s in if \<bar>v\<bar> < 2 ^ 1024 - 2 ^ 970 then Some v else None)"

section \<open>Object keys\<close>

text \<open>
  A key belongs to the field whose name equals it under simple case folding. Field names are
  ASCII, so besides ASCII letters only the long s and the Kelvin sign fold into them.
\<close>

definition fold_ascii :: "char \<Rightarrow> char" where
  "fold_ascii c = (if 0x41 \<le> byte c \<and> byte c \<le> 0x5A then char_of (byte c + 0x20) else c)"

function json_fold :: "string \<Rightarrow> string" where
  "json_fold s =
     (case s of
        [] \<Rightarrow> []
      | c # cs \<Rightarrow>
          if take 2 s = [CHR 0xC5, CHR 0xBF] then CHR ''s'' # json_fold (drop 2 s)
          else if take 3 s = [CHR 0xE2, CHR 0x84, CHR 0xAA] then CHR ''k'' # json_fold (drop 3 s)
          else fold_ascii c # json_fold cs)"
  by pat_completeness auto
termination
  by (relation "measure length") auto

declare json_fold.simps [simp del]

definition obj_values :: "string \<Rightarrow> (string \<times> jval) list \<Rightarrow> jval list" where
  "obj_values name kvs = map snd (filter (\<lambda>(k, v). json_fold k = json_fold name) kvs)"

text \<open>On ASCII text, folding changes the letters only, and text is well-formed.\<close>

lemma json_fold_ascii:
  "json_fold [] = []" "byte c < 0x80 \<Longrightarrow> json_fold (c # cs) = fold_ascii c # json_fold cs"
proof -
  show "json_fold [] = []" by (subst json_fold.simps) simp
  assume "byte c < 0x80"
  then have "c \<noteq> CHR 0xC5" "c \<noteq> CHR 0xE2" by (auto simp: byte_def)
  then show "json_fold (c # cs) = fold_ascii c # json_fold cs" by (subst json_fold.simps) simp
qed

lemma utf8_valid_ascii:
  "utf8_valid []" "byte c < 0x80 \<Longrightarrow> utf8_valid (c # cs) = utf8_valid cs"
  by (subst utf8_valid.simps, simp add: utf8_len_def utf8_ranges_def)+

section \<open>Decoders\<close>

type_synonym 'a decoder = "jval \<Rightarrow> 'a \<Rightarrow> 'a option"

text \<open>The values of the keys that match a field are decoded one after the other; the last wins.\<close>

definition dec_field :: "string \<Rightarrow> 'a decoder \<Rightarrow> (string \<times> jval) list \<Rightarrow> 'a \<Rightarrow> 'a option" where
  "dec_field name d kvs old = foldl (\<lambda>acc v. Option.bind acc (d v)) (Some old) (obj_values name kvs)"

definition dec_string :: "string decoder" where
  "dec_string v old = (case jnode v of JStr s \<Rightarrow> Some s | JNull \<Rightarrow> Some old | _ \<Rightarrow> None)"

definition dec_bool :: "bool decoder" where
  "dec_bool v old = (case jnode v of JBool b \<Rightarrow> Some b | JNull \<Rightarrow> Some old | _ \<Rightarrow> None)"

definition dec_int :: "int decoder" where
  "dec_int v old = (case jnode v of JNum t \<Rightarrow> parse_int t | JNull \<Rightarrow> Some old | _ \<Rightarrow> None)"

definition dec_float :: "float64 decoder" where
  "dec_float v old = (case jnode v of JNum t \<Rightarrow> parse_float t | JNull \<Rightarrow> Some old | _ \<Rightarrow> None)"

text \<open>A raw message keeps the text, \<open>null\<close> included.\<close>

definition dec_raw :: "bytes decoder" where
  "dec_raw v old = Some (jraw v)"

definition dec_ptr :: "'a decoder \<Rightarrow> 'a \<Rightarrow> 'a option decoder" where
  "dec_ptr d zero v old =
     (case jnode v of
        JNull \<Rightarrow> Some None
      | _ \<Rightarrow> map_option Some (d v (case old of Some x \<Rightarrow> x | None \<Rightarrow> zero)))"

definition dec_list :: "'a decoder \<Rightarrow> 'a \<Rightarrow> 'a list decoder" where
  "dec_list d zero v old =
     (case jnode v of
        JNull \<Rightarrow> Some []
      | JArr vs \<Rightarrow> those (map (\<lambda>v. d v zero) vs)
      | _ \<Rightarrow> None)"

text \<open>A struct takes an object, field by field; \<open>null\<close> leaves it as it is.\<close>

definition dec_struct :: "((string \<times> jval) list \<Rightarrow> 'a \<Rightarrow> 'a option) \<Rightarrow> 'a decoder" where
  "dec_struct fs v old =
     (case jnode v of JObj kvs \<Rightarrow> fs kvs old | JNull \<Rightarrow> Some old | _ \<Rightarrow> None)"

definition json_Unmarshal :: "bytes \<Rightarrow> 'a decoder \<Rightarrow> 'a \<Rightarrow> goerror + 'a" where
  "json_Unmarshal s d zero =
     (case json_parse s of
        None \<Rightarrow> Inl (ErrorString ''json: syntax error'')
      | Some v \<Rightarrow>
          (case d v zero of
             None \<Rightarrow> Inl (ErrorString ''json: cannot unmarshal'')
           | Some x \<Rightarrow> Inr x))"

text \<open>\<open>Decoder.Decode\<close> reads the first value and leaves what follows it.\<close>

definition json_Decode :: "bytes \<Rightarrow> 'a decoder \<Rightarrow> 'a \<Rightarrow> goerror + 'a" where
  "json_Decode s d zero =
     (case parse_value (2 * length s + 2) s of
        None \<Rightarrow> Inl (ErrorString ''json: syntax error'')
      | Some (v, rest) \<Rightarrow>
          (case d v zero of
             None \<Rightarrow> Inl (ErrorString ''json: cannot unmarshal'')
           | Some x \<Rightarrow> Inr x))"

section \<open>Decoding what was written\<close>

text \<open>What a decoder sees of a written object: the values, in order, under their keys.\<close>

lemma obj_values_map:
  "map jout_of (obj_values name kvs) =
     map snd (filter (\<lambda>(k, v). json_fold k = json_fold name) (map (\<lambda>(k, v). (k, jout_of v)) kvs))"
  by (induction kvs) (auto simp: obj_values_def)

lemma jout_of_eq [simp]:
  "jout_of v = ONull \<longleftrightarrow> jnode v = JNull"
  "jout_of v = OStr s \<longleftrightarrow> jnode v = JStr s"
  "jout_of v = ONum t \<longleftrightarrow> jnode v = JNum t"
  "jout_of v = OBool b \<longleftrightarrow> jnode v = JBool b"
  by (cases v; cases "jnode v"; simp)+

lemma jout_of_arr: "jout_of v = OArr xs \<longleftrightarrow> (\<exists>vs. jnode v = JArr vs \<and> map jout_of vs = xs)"
  by (cases v; cases "jnode v"; auto)

lemma jout_of_obj:
  "jout_of v = OObj xs \<longleftrightarrow> (\<exists>kvs. jnode v = JObj kvs \<and> map (\<lambda>(k, v). (k, jout_of v)) kvs = xs)"
  by (cases v; cases "jnode v"; auto)

lemma dec_string_out: "jout_of v = OStr s \<Longrightarrow> dec_string v old = Some s"
  by (simp add: dec_string_def)

lemma dec_int_out: "in_int64 n \<Longrightarrow> jout_of v = ONum (int_text n) \<Longrightarrow> dec_int v old = Some n"
  by (simp add: dec_int_def parse_int_text)

lemma dec_bool_out: "jout_of v = OBool b \<Longrightarrow> dec_bool v old = Some b"
  by (simp add: dec_bool_def)

text \<open>A decoder reads what an encoder wrote.\<close>

definition decodes :: "('a \<Rightarrow> jout) \<Rightarrow> 'a decoder \<Rightarrow> 'a \<Rightarrow> bool" where
  "decodes enc d x \<longleftrightarrow> (\<forall>v old. jout_of v = enc x \<longrightarrow> d v old = Some x)"

lemma dec_list_out:
  assumes "\<forall>x \<in> set xs. decodes enc d x"
  shows "decodes (\<lambda>xs. OArr (map enc xs)) (dec_list d zero) xs"
  unfolding decodes_def
proof (intro allI impI)
  fix v old assume "jout_of v = OArr (map enc xs)"
  then obtain vs where vs: "jnode v = JArr vs" "map jout_of vs = map enc xs" by (auto simp: jout_of_arr)
  have "those (map (\<lambda>v. d v zero) vs) = Some xs"
    using vs(2) assms
  proof (induction xs arbitrary: vs)
    case (Cons x xs)
    then obtain w ws where "vs = w # ws" "jout_of w = enc x" "map jout_of ws = map enc xs" by (cases vs) auto
    with Cons show ?case by (simp add: decodes_def)
  qed simp
  with vs(1) show "dec_list d zero v old = Some xs" by (simp add: dec_list_def)
qed

lemma json_Unmarshal_out:
  assumes "decodes enc d x" and "clean (enc x)"
  shows "json_Unmarshal (marshal_text (enc x)) d zero = Inr x"
  using json_parse_marshal [OF assms(2)] assms(1) by (auto simp: json_Unmarshal_def decodes_def)

end
