(* ===== verification/Otter_Cache.thy ===== *)
theory Otter_Cache
  imports Gandalf_Prelude
begin

text \<open>
  The cache library \<open>otter\<close> as the sources use it (route targets, API keys, responses): its
  operations are an argument of the definitions that call it, and \<open>otter_ok\<close> states what its
  documentation promises of a cache that expires entries a fixed time after they were written.
  The response cache of \<open>internal/cache/memory.go\<close> on top of it is modelled here.
\<close>

section \<open>The library\<close>

record ('c, 'v) otter =
  GetIfPresent :: "'c \<Rightarrow> string \<Rightarrow> gotime \<Rightarrow> 'v option"
  CacheSet :: "'c \<Rightarrow> string \<Rightarrow> 'v \<Rightarrow> gotime \<Rightarrow> 'c"
  CacheInvalidate :: "'c \<Rightarrow> string \<Rightarrow> 'c"
  CacheInvalidateAll :: "'c \<Rightarrow> 'c"

text \<open>
  What \<open>otter\<close> documents for a cache with \<open>ExpiryWriting ttl\<close>: a new cache is empty; a lookup
  finds nothing, or the value last written under the key since it was last invalidated, and never
  one written more than \<open>ttl\<close> ago. It may drop any entry at any time.
\<close>

definition otter_ok :: "('c, 'v) otter \<Rightarrow> duration \<Rightarrow> 'c \<Rightarrow> bool" where
  "otter_ok ops ttl new \<longleftrightarrow>
     (\<forall>k t. GetIfPresent ops new k t = None) \<and>
     (\<forall>c k v t k' t' v'. GetIfPresent ops (CacheSet ops c k v t) k' t' = Some v' \<longrightarrow>
        (if k' = k then v' = v \<and> t' - t \<le> ttl else GetIfPresent ops c k' t' = Some v')) \<and>
     (\<forall>c k k' t' v'. GetIfPresent ops (CacheInvalidate ops c k) k' t' = Some v' \<longrightarrow>
        k' \<noteq> k \<and> GetIfPresent ops c k' t' = Some v') \<and>
     (\<forall>c k' t'. GetIfPresent ops (CacheInvalidateAll ops c) k' t' = None)"

lemma otter_ok_new: "otter_ok ops ttl new \<Longrightarrow> GetIfPresent ops new k t = None"
  by (simp add: otter_ok_def)

lemma otter_okD:
  assumes "otter_ok ops ttl new" and "GetIfPresent ops (CacheSet ops c k v t) k' t' = Some v'"
  shows "if k' = k then v' = v \<and> t' - t \<le> ttl else GetIfPresent ops c k' t' = Some v'"
  using assms unfolding otter_ok_def by blast

lemma otter_ok_invalidate:
  assumes "otter_ok ops ttl new" and "GetIfPresent ops (CacheInvalidate ops c k) k' t' = Some v'"
  shows "k' \<noteq> k \<and> GetIfPresent ops c k' t' = Some v'"
  using assms unfolding otter_ok_def by blast

lemma otter_ok_invalidate_all:
  "otter_ok ops ttl new \<Longrightarrow> GetIfPresent ops (CacheInvalidateAll ops c) k t = None"
  unfolding otter_ok_def by blast

text \<open>A cache with these promises, for the examples: it remembers everything until it expires.\<close>

definition map_cache :: "duration \<Rightarrow> (string \<Rightarrow> ('v \<times> gotime) option, 'v) otter" where
  "map_cache ttl =
     \<lparr>GetIfPresent = (\<lambda>c k t. case c k of Some (v, t0) \<Rightarrow> if t - t0 \<le> ttl then Some v else None | None \<Rightarrow> None),
      CacheSet = (\<lambda>c k v t. c(k \<mapsto> (v, t))),
      CacheInvalidate = (\<lambda>c k. c(k := None)),
      CacheInvalidateAll = (\<lambda>c. Map.empty)\<rparr>"

lemma map_cache_ok: "otter_ok (map_cache ttl) ttl Map.empty"
  by (auto simp: otter_ok_def map_cache_def split: option.splits if_splits)

section \<open>The response cache\<close>

record entry =
  en_data :: bytes
  en_expiresAt :: gotime

text \<open>\<open>t_get\<close> is the library's clock at the lookup and \<open>now\<close> the reading that checks the entry.\<close>

definition Memory_Get :: "('c, entry) otter \<Rightarrow> string \<Rightarrow> gotime \<Rightarrow> gotime \<Rightarrow> 'c \<Rightarrow> bytes option \<times> 'c" where
  "Memory_Get ops key t_get now m =
     (case GetIfPresent ops m key t_get of
        None \<Rightarrow> (None, m)
      | Some e \<Rightarrow>
          if time_After now (en_expiresAt e) then (None, CacheInvalidate ops m key)
          else (Some (en_data e), m))"

definition Memory_Set :: "('c, entry) otter \<Rightarrow> string \<Rightarrow> bytes \<Rightarrow> duration \<Rightarrow> gotime \<Rightarrow> gotime \<Rightarrow> 'c \<Rightarrow> 'c" where
  "Memory_Set ops key val ttl now t_set m =
     CacheSet ops m key \<lparr>en_data = val, en_expiresAt = now + ttl\<rparr> t_set"

definition Memory_Delete :: "('c, entry) otter \<Rightarrow> string \<Rightarrow> 'c \<Rightarrow> 'c" where
  "Memory_Delete ops key m = CacheInvalidate ops m key"

definition Memory_Purge :: "('c, entry) otter \<Rightarrow> 'c \<Rightarrow> 'c" where
  "Memory_Purge ops m = CacheInvalidateAll ops m"

section \<open>Histories of the response cache\<close>

datatype mem_op =
    MGet string gotime gotime
  | MSet string bytes duration gotime gotime
  | MDelete string
  | MPurge

fun mem_exec :: "('c, entry) otter \<Rightarrow> mem_op \<Rightarrow> 'c \<Rightarrow> 'c" where
  "mem_exec ops (MGet k tg now) m = snd (Memory_Get ops k tg now m)"
| "mem_exec ops (MSet k v ttl now ts) m = Memory_Set ops k v ttl now ts m"
| "mem_exec ops (MDelete k) m = Memory_Delete ops k m"
| "mem_exec ops MPurge m = Memory_Purge ops m"

text \<open>The last write under a key that no deletion followed.\<close>

fun last_write :: "string \<Rightarrow> mem_op \<Rightarrow> (bytes \<times> gotime) option \<Rightarrow> (bytes \<times> gotime) option" where
  "last_write k (MSet k' v ttl now ts) w = (if k' = k then Some (v, now + ttl) else w)"
| "last_write k (MDelete k') w = (if k' = k then None else w)"
| "last_write k MPurge w = None"
| "last_write k (MGet k' tg now) w = w"

lemma mem_exec_content:
  assumes "otter_ok ops ttl new" and "GetIfPresent ops (fold (mem_exec ops) hist new) k t = Some e"
  shows "fold (last_write k) hist None = Some (en_data e, en_expiresAt e)"
  using assms(2)
proof (induction hist arbitrary: e rule: rev_induct)
  case Nil
  with otter_ok_new [OF assms(1)] show ?case by simp
next
  case (snoc op hist)
  let ?m = "fold (mem_exec ops) hist new"
  show ?case
  proof (cases op)
    case (MGet k' tg now)
    from snoc.prems MGet have "GetIfPresent ops ?m k t = Some e"
      by (auto simp: Memory_Get_def split: option.splits if_splits dest: otter_ok_invalidate [OF assms(1)])
    with snoc.IH MGet show ?thesis by simp
  next
    case (MSet k' v d now ts)
    from otter_okD [OF assms(1), of ?m k' "\<lparr>en_data = v, en_expiresAt = now + d\<rparr>" ts k t e] snoc MSet
    show ?thesis by (auto simp: Memory_Set_def split: if_splits)
  next
    case (MDelete k')
    with snoc otter_ok_invalidate [OF assms(1), of ?m k' k t e] show ?thesis by (auto simp: Memory_Delete_def)
  next
    case MPurge
    with snoc.prems otter_ok_invalidate_all [OF assms(1)] show ?thesis by (simp add: Memory_Purge_def)
  qed
qed

section \<open>Properties\<close>

text \<open>
  C16. The response cache returns what was stored. Whatever operations came before, \<open>Get\<close> returns
  only the bytes of the last \<open>Set\<close> under this key that no \<open>Delete\<close> or \<open>Purge\<close> followed, and only
  until the time to live of that \<open>Set\<close> has passed.
\<close>

theorem memory_cache_faithful:
  assumes "otter_ok ops ttl new" and "fst (Memory_Get ops k t now (fold (mem_exec ops) hist new)) = Some data"
  shows "\<exists>expires. fold (last_write k) hist None = Some (data, expires) \<and> now \<le> expires"
proof -
  obtain e where e: "GetIfPresent ops (fold (mem_exec ops) hist new) k t = Some e" "data = en_data e" "now \<le> en_expiresAt e"
    using assms(2) by (auto simp: Memory_Get_def time_After_def split: option.splits if_splits)
  with mem_exec_content [OF assms(1) e(1)] show ?thesis by auto
qed

theorem memory_cache_faithful_witness:
  "\<exists>expires. fold (last_write ''k'') [MSet ''k'' ''v'' 5 10 10, MGet ''k'' 11 11] None = Some (''v'', expires) \<and> 12 \<le> expires"
proof (rule memory_cache_faithful [OF map_cache_ok])
  show "fst (Memory_Get (map_cache 60) ''k'' 12 12
      (fold (mem_exec (map_cache 60)) [MSet ''k'' ''v'' 5 10 10, MGet ''k'' 11 11] Map.empty)) = Some ''v''"
    by (simp add: Memory_Get_def Memory_Set_def map_cache_def time_After_def)
qed

end
