(* ===== verification/Router.thy ===== *)
theory Router
  imports Json_Decode Otter_Cache
begin

text \<open>
  Model routing, \<open>internal/app/router.go\<close>: a model alias is resolved to the targets of its route,
  sorted by priority, and the result is kept in a cache for ten seconds. The cache is the library
  \<open>otter\<close> of the theory \<open>Otter_Cache\<close>.
\<close>

section \<open>Sorting\<close>

text \<open>
  \<open>slices.SortStableFunc\<close> inserts each element into the sorted prefix, moving left while the
  comparison is negative; the prefix is kept reversed here. (From 21 elements on the library
  sorts blocks this way and merges them; with a consistent comparison every stable sort gives
  the same list.)
\<close>

fun insert_back :: "('a \<Rightarrow> 'a \<Rightarrow> int) \<Rightarrow> 'a \<Rightarrow> 'a list \<Rightarrow> 'a list" where
  "insert_back cmp x [] = [x]"
| "insert_back cmp x (y # ys) = (if cmp x y < 0 then y # insert_back cmp x ys else x # y # ys)"

definition SortStableFunc :: "('a \<Rightarrow> 'a \<Rightarrow> int) \<Rightarrow> 'a list \<Rightarrow> 'a list" where
  "SortStableFunc cmp xs = rev (foldl (\<lambda>ys x. insert_back cmp x ys) [] xs)"

text \<open>With a comparison that agrees with a key, this is the stable sort of the library.\<close>

lemma mset_insert_back: "mset (insert_back cmp x ys) = add_mset x (mset ys)"
  by (induction ys) auto

lemma foldl_insert_back_mset: "mset (foldl (\<lambda>ys x. insert_back cmp x ys) ys xs) = mset ys + mset xs"
  by (induction xs arbitrary: ys) (auto simp: mset_insert_back)

lemma set_insert_back [simp]: "set (insert_back cmp x ys) = insert x (set ys)"
  by (metis mset_insert_back set_mset_add_mset_insert set_mset_mset)

lemma insert_back_sorted:
  fixes f :: "'a \<Rightarrow> int"
  assumes "\<forall>y \<in> set ys. (cmp x y < 0) = (f x < f y)" and "sorted (rev (map f ys))"
  shows "sorted (rev (map f (insert_back cmp x ys))) \<and>
    filter (\<lambda>y. f y = k) (insert_back cmp x ys) =
      (if f x = k then x # filter (\<lambda>y. f y = k) ys else filter (\<lambda>y. f y = k) ys)"
  using assms
proof (induction ys)
  case (Cons y ys)
  show ?case
  proof (cases "cmp x y < 0")
    case True
    with Cons show ?thesis by (auto simp: sorted_append)
  next
    case False
    with Cons.prems show ?thesis by (auto simp: sorted_append)
  qed
qed simp

lemma foldl_insert_back:
  fixes f :: "'a \<Rightarrow> int"
  assumes "\<forall>x \<in> set ys \<union> set xs. \<forall>y \<in> set ys \<union> set xs. (cmp x y < 0) = (f x < f y)" and "sorted (rev (map f ys))"
  shows "sorted (rev (map f (foldl (\<lambda>ys x. insert_back cmp x ys) ys xs))) \<and>
    filter (\<lambda>y. f y = k) (foldl (\<lambda>ys x. insert_back cmp x ys) ys xs) =
      rev (filter (\<lambda>y. f y = k) xs) @ filter (\<lambda>y. f y = k) ys"
  using assms
proof (induction xs arbitrary: ys)
  case (Cons x xs)
  have "sorted (rev (map f (insert_back cmp x ys))) \<and>
    filter (\<lambda>y. f y = k) (insert_back cmp x ys) =
      (if f x = k then x # filter (\<lambda>y. f y = k) ys else filter (\<lambda>y. f y = k) ys)"
    using Cons.prems by (intro insert_back_sorted) auto
  with Cons.IH [of "insert_back cmp x ys"] Cons.prems(1) show ?case by auto
qed simp

lemma SortStableFunc_key:
  fixes f :: "'a \<Rightarrow> int"
  assumes "\<forall>x \<in> set xs. \<forall>y \<in> set xs. (cmp x y < 0) = (f x < f y)"
  shows "SortStableFunc cmp xs = sort_key f xs"
proof (rule sym, rule properties_for_sort_key)
  show "mset (SortStableFunc cmp xs) = mset xs"
    by (simp add: SortStableFunc_def foldl_insert_back_mset)
  show "filter (\<lambda>x. f k = f x) (SortStableFunc cmp xs) = filter (\<lambda>x. f k = f x) xs" for k
    using foldl_insert_back [of "[]" xs cmp f "f k"] assms
    by (simp add: SortStableFunc_def rev_filter [symmetric] eq_commute [of "f k"])
  show "sorted (map f (SortStableFunc cmp xs))"
    using foldl_insert_back [of "[]" xs cmp f] assms by (simp add: SortStableFunc_def rev_map)
qed

section \<open>Resolving a model\<close>

definition routeCacheTTL :: duration where
  "routeCacheTTL = 10 * second"

record ResolvedTarget =
  rtg_ProviderID :: string
  rtg_Model :: string
  rtg_Priority :: int

definition dec_RouteTarget :: "RouteTarget decoder" where
  "dec_RouteTarget = dec_struct (\<lambda>kvs t.
     Option.bind (dec_field ''provider_id'' dec_string kvs (tgt_ProviderID t)) (\<lambda>p.
     Option.bind (dec_field ''model'' dec_string kvs (tgt_Model t)) (\<lambda>m.
     Option.bind (dec_field ''priority'' dec_int kvs (tgt_Priority t)) (\<lambda>pr.
     Option.bind (dec_field ''weight'' dec_int kvs (tgt_Weight t)) (\<lambda>w.
     Some \<lparr>tgt_ProviderID = p, tgt_Model = m, tgt_Priority = pr, tgt_Weight = w\<rparr>)))))"

definition zero_RouteTarget :: RouteTarget where
  "zero_RouteTarget = \<lparr>tgt_ProviderID = '''', tgt_Model = '''', tgt_Priority = 0, tgt_Weight = 0\<rparr>"

text \<open>The comparison subtracts in 64 bits.\<close>

definition cmp_priority :: "ResolvedTarget \<Rightarrow> ResolvedTarget \<Rightarrow> int" where
  "cmp_priority a b = wrap64 (rtg_Priority a - rtg_Priority b)"

definition to_resolved :: "RouteTarget \<Rightarrow> ResolvedTarget" where
  "to_resolved t = \<lparr>rtg_ProviderID = tgt_ProviderID t, rtg_Model = tgt_Model t, rtg_Priority = tgt_Priority t\<rparr>"

text \<open>\<open>GetRouteByAlias\<close> is the store's answer at the time of the call.\<close>

definition resolve_uncached :: "(string \<Rightarrow> goerror + Route) \<Rightarrow> string \<Rightarrow> goerror + ResolvedTarget list" where
  "resolve_uncached GetRouteByAlias model =
     (case GetRouteByAlias model of
        Inl err \<Rightarrow> Inl (Wrapf (''resolve model '' @ fmt_q model) [err])
      | Inr route \<Rightarrow>
          (case json_Unmarshal (rt_Targets route) (dec_list dec_RouteTarget zero_RouteTarget) [] of
             Inl err \<Rightarrow> Inl (Wrapf ''parse route targets'' [err])
           | Inr targets \<Rightarrow>
               if targets = [] then Inl (ErrorString (''route '' @ fmt_q model @ '' has no targets''))
               else Inr (SortStableFunc cmp_priority (map to_resolved targets))))"

definition ResolveModel ::
  "('c, ResolvedTarget list) otter \<Rightarrow> (string \<Rightarrow> goerror + Route) \<Rightarrow> gotime \<Rightarrow> string \<Rightarrow> 'c
     \<Rightarrow> (goerror + ResolvedTarget list) \<times> 'c" where
  "ResolveModel ops GetRouteByAlias now model cache =
     (case GetIfPresent ops cache model now of
        Some cached \<Rightarrow> (Inr cached, cache)
      | None \<Rightarrow>
          (case resolve_uncached GetRouteByAlias model of
             Inl err \<Rightarrow> (Inl err, cache)
           | Inr resolved \<Rightarrow> (Inr resolved, CacheSet ops cache model resolved now)))"

definition ttl_uncached :: "(string \<Rightarrow> goerror + Route) \<Rightarrow> string \<Rightarrow> duration" where
  "ttl_uncached GetRouteByAlias model =
     (case GetRouteByAlias model of
        Inr route \<Rightarrow> if rt_CacheTTLs route > 0 then wrap64 (rt_CacheTTLs route * second) else 0
      | Inl err \<Rightarrow> 0)"

definition CacheTTL ::
  "('c, duration) otter \<Rightarrow> (string \<Rightarrow> goerror + Route) \<Rightarrow> gotime \<Rightarrow> string \<Rightarrow> 'c \<Rightarrow> duration \<times> 'c" where
  "CacheTTL ops GetRouteByAlias now model ttlCache =
     (case GetIfPresent ops ttlCache model now of
        Some ttl \<Rightarrow> (ttl, ttlCache)
      | None \<Rightarrow>
          let ttl = ttl_uncached GetRouteByAlias model in (ttl, CacheSet ops ttlCache model ttl now))"

section \<open>Reading what was written\<close>

definition enc_RouteTarget :: "RouteTarget \<Rightarrow> jout" where
  "enc_RouteTarget t =
     OObj [(''provider_id'', OStr (tgt_ProviderID t)), (''model'', OStr (tgt_Model t)),
           (''priority'', ONum (int_text (tgt_Priority t))), (''weight'', ONum (int_text (tgt_Weight t)))]"

definition target_ok :: "RouteTarget \<Rightarrow> bool" where
  "target_ok t \<longleftrightarrow> utf8_valid (tgt_ProviderID t) \<and> utf8_valid (tgt_Model t) \<and>
     in_int64 (tgt_Priority t) \<and> in_int64 (tgt_Weight t)"

lemma enc_RouteTarget_clean: "target_ok t \<Longrightarrow> clean (enc_RouteTarget t)"
  by (simp add: enc_RouteTarget_def target_ok_def int_text_ok utf8_valid_ascii byte_def)

lemma dec_RouteTarget_enc: "target_ok t \<Longrightarrow> decodes enc_RouteTarget dec_RouteTarget t"
  unfolding decodes_def
proof (intro allI impI)
  fix v old assume t: "target_ok t" and v: "jout_of v = enc_RouteTarget t"
  then obtain a b c d where "jnode v = JObj [(''provider_id'', a), (''model'', b), (''priority'', c), (''weight'', d)]"
      "jnode a = JStr (tgt_ProviderID t)" "jnode b = JStr (tgt_Model t)" "jnode c = JNum (int_text (tgt_Priority t))"
      "jnode d = JNum (int_text (tgt_Weight t))"
    by (auto simp: enc_RouteTarget_def jout_of_obj)
  with t show "dec_RouteTarget v old = Some t"
    by (simp add: dec_RouteTarget_def dec_struct_def dec_field_def obj_values_def json_fold_ascii fold_ascii_def byte_def
        dec_string_def dec_int_def target_ok_def parse_int_text)
qed

section \<open>Properties\<close>



text \<open>
  The subtraction that compares priorities wraps around: a target of priority \<open>2 ^ 62\<close> is put
  before one of priority \<open>- 2 ^ 62\<close>.
\<close>

lemma priority_overflow:
  "map rtg_Priority (SortStableFunc cmp_priority
     [\<lparr>rtg_ProviderID = p, rtg_Model = m, rtg_Priority = - (2 ^ 62)\<rparr>,
      \<lparr>rtg_ProviderID = q, rtg_Model = n, rtg_Priority = 2 ^ 62\<rparr>]) = [2 ^ 62, - (2 ^ 62)]"
  by (simp add: SortStableFunc_def cmp_priority_def wrap64_def)

text \<open>A sequence of resolutions, each at some instant, against the store as it was then.\<close>

definition resolve_all ::
  "('c, ResolvedTarget list) otter \<Rightarrow> (gotime \<times> (string \<Rightarrow> goerror + Route) \<times> string) list \<Rightarrow> 'c \<Rightarrow> 'c" where
  "resolve_all ops calls cache = fold (\<lambda>(t, store, m) c. snd (ResolveModel ops store t m c)) calls cache"

lemma ResolveModel_cache:
  "snd (ResolveModel ops store t m c) = c \<or>
   (\<exists>xs. resolve_uncached store m = Inr xs \<and> snd (ResolveModel ops store t m c) = CacheSet ops c m xs t)"
  by (simp add: ResolveModel_def split: option.split sum.split)

lemma resolve_all_cached:
  assumes "otter_ok ops routeCacheTTL new" and "GetIfPresent ops (resolve_all ops calls new) model now = Some rs"
  shows "\<exists>t store. (t, store, model) \<in> set calls \<and> resolve_uncached store model = Inr rs \<and> now - t \<le> routeCacheTTL"
  using assms(2)
proof (induction calls rule: rev_induct)
  case Nil
  with otter_ok_new [OF assms(1)] show ?case by (simp add: resolve_all_def)
next
  case (snoc call calls)
  obtain t store m where call: "call = (t, store, m)" by (cases call)
  let ?c = "resolve_all ops calls new"
  have p: "GetIfPresent ops (snd (ResolveModel ops store t m ?c)) model now = Some rs"
    using snoc.prems by (simp add: resolve_all_def call)
  from ResolveModel_cache [of ops store t m ?c] show ?case
  proof (elim disjE exE conjE)
    assume "snd (ResolveModel ops store t m ?c) = ?c"
    with p snoc.IH show ?thesis by auto
  next
    fix xs assume xs: "resolve_uncached store m = Inr xs" "snd (ResolveModel ops store t m ?c) = CacheSet ops ?c m xs t"
    from otter_okD [OF assms(1) p [unfolded xs(2)]] snoc.IH xs(1) show ?thesis
      by (cases "model = m") (auto simp: call)
  qed
qed

text \<open>
  C11. Routing changes take effect within ten seconds. Whatever requests were resolved before,
  and whatever the cache dropped, the targets returned for a model are those that the store
  prescribed at the time of this request or of an earlier one for the same model at most ten
  seconds ago.
\<close>

theorem resolve_bounded_staleness:
  assumes "otter_ok ops routeCacheTTL new"
    and "fst (ResolveModel ops store now model (resolve_all ops calls new)) = Inr rs"
  shows "\<exists>t store0. (t, store0, model) \<in> set (calls @ [(now, store, model)]) \<and>
    resolve_uncached store0 model = Inr rs \<and> now - t \<le> routeCacheTTL"
proof (cases "GetIfPresent ops (resolve_all ops calls new) model now")
  case None
  with assms(2) have "resolve_uncached store model = Inr rs"
    by (auto simp: ResolveModel_def split: sum.splits)
  then show ?thesis
    by (intro exI [of _ now] exI [of _ store]) (simp add: routeCacheTTL_def second_def)
next
  case (Some xs)
  with assms(2) have "GetIfPresent ops (resolve_all ops calls new) model now = Some rs"
    by (simp add: ResolveModel_def)
  from resolve_all_cached [OF assms(1) this] show ?thesis by auto
qed

definition example_target :: RouteTarget where
  "example_target = \<lparr>tgt_ProviderID = ''p'', tgt_Model = ''x'', tgt_Priority = 1, tgt_Weight = 0\<rparr>"

definition example_store :: "string \<Rightarrow> goerror + Route" where
  "example_store m = Inr \<lparr>rt_ID = ''r'', rt_ModelAlias = m,
     rt_Targets = marshal_text (OArr (map enc_RouteTarget [example_target])), rt_Strategy = '''', rt_CacheTTLs = 0\<rparr>"

lemma example_resolves: "resolve_uncached example_store m = Inr [to_resolved example_target]"
proof -
  have "target_ok example_target"
    by (simp add: target_ok_def in_int64_def utf8_valid_ascii byte_def example_target_def)
  then have "json_Unmarshal (marshal_text (OArr (map enc_RouteTarget [example_target])))
      (dec_list dec_RouteTarget zero_RouteTarget) [] = Inr [example_target]"
    by (intro json_Unmarshal_out dec_list_out ballI dec_RouteTarget_enc) (auto simp: enc_RouteTarget_clean)
  then show ?thesis by (simp add: resolve_uncached_def example_store_def SortStableFunc_def)
qed

theorem resolve_bounded_staleness_witness:
  "\<exists>t store0. (t, store0, ''m'') \<in> set [(3, example_store, ''m''), (5, \<lambda>_. Inl (Sentinel ErrNotFound), ''m'')] \<and>
     resolve_uncached store0 ''m'' = Inr [to_resolved example_target] \<and>
     5 - t \<le> routeCacheTTL"
proof -
  have "fst (ResolveModel (map_cache routeCacheTTL) (\<lambda>_. Inl (Sentinel ErrNotFound)) 5 ''m''
      (resolve_all (map_cache routeCacheTTL) [(3, example_store, ''m'')] Map.empty))
    = Inr [to_resolved example_target]"
    by (simp add: resolve_all_def ResolveModel_def example_resolves map_cache_def routeCacheTTL_def second_def)
  from resolve_bounded_staleness [OF map_cache_ok this] show ?thesis by simp
qed

end
