(* ===== verification/Sliding_Window.thy ===== *)
theory Sliding_Window
  imports Gandalf_Prelude
begin

text \<open>
  The error-rate window of \<open>internal/circuitbreaker/circuitbreaker.go\<close>: a ring buffer of
  one-second buckets, and its abstract specification, a log of timestamped outcomes of which
  the last \<open>size\<close> seconds count. The interface the breaker relies on is the locale
  \<open>error_window\<close>; the ring buffer interprets it.
\<close>

section \<open>The ring buffer\<close>

record bucket =
  bk_errors :: float64
  bk_total :: int

record SlidingWindow =
  win_buckets :: "bucket list"
  win_size :: nat
  win_head :: nat
  win_headTime :: int

definition bucket_zero :: bucket where
  "bucket_zero = \<lparr>bk_errors = 0, bk_total = 0\<rparr>"

text \<open>The array has 60 buckets whatever the size of the window.\<close>

definition newSlidingWindow :: "int \<Rightarrow> SlidingWindow" where
  "newSlidingWindow windowSeconds =
     (let ws = (if windowSeconds \<le> 0 \<or> windowSeconds > 60 then 60 else windowSeconds)
      in \<lparr>win_buckets = replicate 60 bucket_zero, win_size = nat ws, win_head = 0,
          win_headTime = 0\<rparr>)"

definition clear_buckets :: "nat \<Rightarrow> nat \<Rightarrow> nat \<Rightarrow> bucket list \<Rightarrow> bucket list" where
  "clear_buckets head sz clr bs =
     fold (\<lambda>i bs. bs[(head + 1 + i) mod sz := bucket_zero]) [0..<clr] bs"

definition win_advance :: "SlidingWindow \<Rightarrow> int \<Rightarrow> SlidingWindow" where
  "win_advance w nowSec =
     (if win_headTime w = 0 then w\<lparr>win_headTime := nowSec\<rparr>
      else let gap = nowSec - win_headTime w in
        if gap \<le> 0 then w
        else let clr = min (nat gap) (win_size w) in
          w\<lparr>win_buckets := clear_buckets (win_head w) (win_size w) clr (win_buckets w),
            win_head := (win_head w + nat gap) mod win_size w,
            win_headTime := nowSec\<rparr>)"

definition bucket_add :: "float64 \<Rightarrow> bucket \<Rightarrow> bucket" where
  "bucket_add weight b = b\<lparr>bk_total := bk_total b + 1, bk_errors := bk_errors b + weight\<rparr>"

definition win_Record :: "SlidingWindow \<Rightarrow> float64 \<Rightarrow> gotime \<Rightarrow> SlidingWindow" where
  "win_Record w weight now =
     (let w = win_advance w (time_Unix now)
      in w\<lparr>win_buckets := (win_buckets w)[win_head w :=
             bucket_add weight (win_buckets w ! win_head w)]\<rparr>)"

definition win_ErrorRate :: "SlidingWindow \<Rightarrow> gotime \<Rightarrow> float64 \<times> int \<times> SlidingWindow" where
  "win_ErrorRate w now =
     (let w = win_advance w (time_Unix now);
          bs = take (win_size w) (win_buckets w);
          totalErrors = sum_list (map bk_errors bs);
          totalRequests = sum_list (map bk_total bs)
      in if totalRequests = 0 then (0, 0, w)
         else (totalErrors / of_int totalRequests, totalRequests, w))"

definition win_Reset :: "SlidingWindow \<Rightarrow> SlidingWindow" where
  "win_Reset w =
     w\<lparr>win_buckets := fold (\<lambda>i bs. bs[i := bucket_zero]) [0..<win_size w] (win_buckets w),
       win_headTime := 0, win_head := 0\<rparr>"

section \<open>The abstract specification: a log of outcomes\<close>

text \<open>
  The specification keeps the second \<open>wl_now\<close> up to which the window has moved and every
  outcome with the second it is counted in. An outcome reported with an earlier clock reading
  than the window has already seen counts in the latest second. An empty log has no second yet.
\<close>

record window_log =
  wl_now :: "int option"
  wl_events :: "(int \<times> float64) list"

definition wl_move :: "int \<Rightarrow> window_log \<Rightarrow> window_log" where
  "wl_move s l = l\<lparr>wl_now := Some (case wl_now l of None \<Rightarrow> s | Some t \<Rightarrow> max t s)\<rparr>"

definition wl_add :: "float64 \<Rightarrow> int \<Rightarrow> window_log \<Rightarrow> window_log" where
  "wl_add weight s l =
     (let l = wl_move s l in l\<lparr>wl_events := wl_events l @ [(the (wl_now l), weight)]\<rparr>)"

definition wl_recent :: "nat \<Rightarrow> window_log \<Rightarrow> (int \<times> float64) list" where
  "wl_recent n l =
     (case wl_now l of None \<Rightarrow> [] | Some t \<Rightarrow> filter (\<lambda>(s, x). t - int n < s) (wl_events l))"

definition wl_rate :: "nat \<Rightarrow> window_log \<Rightarrow> float64 \<times> int" where
  "wl_rate n l =
     (let r = wl_recent n l
      in if r = [] then (0, 0)
         else (sum_list (map snd r) / of_nat (length r), int (length r)))"

definition wl_empty :: window_log where
  "wl_empty = \<lparr>wl_now = None, wl_events = []\<rparr>"

text \<open>The bucket of age \<open>k\<close> counts exactly the outcomes of the second \<open>k\<close> before the latest.\<close>

definition sec_total :: "(int \<times> float64) list \<Rightarrow> int \<Rightarrow> int" where
  "sec_total evs s = int (length (filter (\<lambda>(t, x). t = s) evs))"

definition sec_errors :: "(int \<times> float64) list \<Rightarrow> int \<Rightarrow> float64" where
  "sec_errors evs s = sum_list (map snd (filter (\<lambda>(t, x). t = s) evs))"

definition win_wf :: "SlidingWindow \<Rightarrow> bool" where
  "win_wf w \<longleftrightarrow> length (win_buckets w) = 60 \<and> 0 < win_size w \<and> win_size w \<le> 60
     \<and> win_head w < win_size w"

definition win_age :: "SlidingWindow \<Rightarrow> nat \<Rightarrow> nat" where
  "win_age w k = (win_head w + win_size w - k) mod win_size w"

definition win_abs :: "SlidingWindow \<Rightarrow> window_log \<Rightarrow> bool" where
  "win_abs w l \<longleftrightarrow> win_wf w \<and>
     (case wl_now l of
        None \<Rightarrow> win_headTime w = 0 \<and> wl_events l = [] \<and>
          (\<forall>k < win_size w. win_buckets w ! k = bucket_zero)
      | Some t \<Rightarrow> win_headTime w = t \<and> 0 < t \<and> (\<forall>(s, x) \<in> set (wl_events l). s \<le> t) \<and>
          (\<forall>k < win_size w. win_buckets w ! win_age w k =
             \<lparr>bk_errors = sec_errors (wl_events l) (t - int k),
              bk_total = sec_total (wl_events l) (t - int k)\<rparr>))"

section \<open>The ring buffer implements the log\<close>

lemma length_clear_buckets [simp]: "length (clear_buckets h n c bs) = length bs"
  by (induction c) (simp_all add: clear_buckets_def)

lemma nth_clear_buckets:
  "j < length bs \<Longrightarrow>
     clear_buckets h n c bs ! j = (if \<exists>i < c. (h + 1 + i) mod n = j then bucket_zero else bs ! j)"
proof (induction c)
  case 0
  then show ?case by (simp add: clear_buckets_def)
next
  case (Suc c)
  have "clear_buckets h n (Suc c) bs = (clear_buckets h n c bs)[(h + 1 + c) mod n := bucket_zero]"
    by (simp add: clear_buckets_def)
  then have "clear_buckets h n (Suc c) bs ! j =
      (if (h + 1 + c) mod n = j then bucket_zero else clear_buckets h n c bs ! j)"
    using Suc.prems by (cases "(h + 1 + c) mod n = j") simp_all
  then show ?case
    using Suc by (auto simp: less_Suc_eq)
qed

lemma ring_add_inj:
  fixes h n a b :: nat
  assumes "(h + a) mod n = (h + b) mod n" and "0 < a" "a \<le> n" "0 < b" "b \<le> n"
  shows "a = b"
proof (rule ccontr)
  have *: False if "(h + a) mod n = (h + b) mod n" "a < b" "0 < a" "b \<le> n" for a b :: nat
  proof -
    from that have "n dvd (h + b) - (h + a)"
      by (metis add_left_mono less_imp_le_nat mod_eq_dvd_iff_nat)
    then have "n dvd b - a" by simp
    moreover have "0 < b - a" and "b - a < n" using that by simp_all
    ultimately show False by (simp add: nat_dvd_not_less)
  qed
  assume "a \<noteq> b"
  with assms * [of a b] * [of b a] show False by (metis nat_neq_iff)
qed

lemma ring_age_mod:
  fixes h g n k :: nat
  assumes "k < n"
  shows "((h + g) mod n + n - k) mod n = (h + g + n - k) mod n"
proof -
  have "((h + g) mod n + (n - k)) mod n = (h + g + (n - k)) mod n"
    by (simp add: mod_add_left_eq)
  with assms show ?thesis by simp
qed

lemma ring_cleared:
  fixes h g n k :: nat
  assumes "k < n" and "k < g"
  shows "\<exists>i < min g n. (h + 1 + i) mod n = ((h + g) mod n + n - k) mod n"
proof (intro exI conjI)
  have "(g - k - 1) mod n < g"
    using assms mod_less_eq_dividend [of "g - k - 1" n] by linarith
  with assms show "(g - k - 1) mod n < min g n" by simp
  have "(h + 1 + (g - k - 1) mod n) mod n = (h + 1 + (g - k - 1)) mod n"
    by (rule mod_add_right_eq)
  also have "h + 1 + (g - k - 1) = h + g - k" using assms by simp
  also have "(h + g - k) mod n = (h + g - k + n) mod n" by simp
  also have "h + g - k + n = h + g + n - k" using assms by simp
  finally show "(h + 1 + (g - k - 1) mod n) mod n = ((h + g) mod n + n - k) mod n"
    using assms by (simp add: ring_age_mod)
qed

lemma ring_kept:
  fixes h g n k :: nat
  assumes "k < n" and "g \<le> k"
  shows "((h + g) mod n + n - k) mod n = (h + n - (k - g)) mod n"
    and "\<not> (\<exists>i < min g n. (h + 1 + i) mod n = ((h + g) mod n + n - k) mod n)"
proof -
  have "h + g + n - k = h + n - (k - g)" using assms by simp
  with assms show eq: "((h + g) mod n + n - k) mod n = (h + n - (k - g)) mod n"
    by (simp add: ring_age_mod)
  have split: "h + n - (k - g) = h + (n - (k - g))" using assms by simp
  show "\<not> (\<exists>i < min g n. (h + 1 + i) mod n = ((h + g) mod n + n - k) mod n)"
  proof (rule notI, elim exE conjE)
    fix i assume i: "i < min g n" and "(h + 1 + i) mod n = ((h + g) mod n + n - k) mod n"
    then have "(h + (1 + i)) mod n = (h + (n - (k - g))) mod n"
      by (simp add: eq split add.assoc)
    then have "1 + i = n - (k - g)"
      by (rule ring_add_inj) (use assms i in simp_all)
    with assms i show False by simp
  qed
qed

lemma win_abs_wf: "win_abs w l \<Longrightarrow> win_wf w"
  by (simp add: win_abs_def)

lemma sec_future:
  assumes "\<forall>(s, x) \<in> set evs. s \<le> t" and "t < s"
  shows "sec_total evs s = 0" and "sec_errors evs s = 0"
proof -
  have "filter (\<lambda>(t, x). t = s) evs = []"
    using assms by (auto simp: filter_empty_conv)
  then show "sec_total evs s = 0" and "sec_errors evs s = 0"
    by (simp_all add: sec_total_def sec_errors_def)
qed

lemma win_advance_first:
  assumes abs: "win_abs w l" and "wl_now l = None" and "0 < s"
  shows "win_abs (win_advance w s) (wl_move s l)"
proof -
  have wf: "win_wf w" and h0: "win_headTime w = 0" and ev: "wl_events l = []"
    and z: "\<And>k. k < win_size w \<Longrightarrow> win_buckets w ! k = bucket_zero"
    using assms by (auto simp: win_abs_def)
  have "win_age w k < win_size w" for k
    using wf by (simp add: win_age_def win_wf_def)
  then have "win_buckets w ! win_age w k = bucket_zero" for k
    by (rule z)
  with wf h0 ev \<open>0 < s\<close> \<open>wl_now l = None\<close> show ?thesis
    by (auto simp: win_abs_def win_advance_def wl_move_def win_wf_def win_age_def
        bucket_zero_def sec_errors_def sec_total_def)
qed

lemma win_advance_later:
  assumes abs: "win_abs w l" and now: "wl_now l = Some t" and "t < s"
  shows "win_abs (win_advance w s) (wl_move s l)"
proof -
  define g where "g = nat (s - t)"
  have wf: "win_wf w" and ht: "win_headTime w = t" and "0 < t"
    and le: "\<forall>(r, x) \<in> set (wl_events l). r \<le> t"
    and bk: "\<And>k. k < win_size w \<Longrightarrow> win_buckets w ! win_age w k =
       \<lparr>bk_errors = sec_errors (wl_events l) (t - int k), bk_total = sec_total (wl_events l) (t - int k)\<rparr>"
    using abs now by (auto simp: win_abs_def)
  have s: "s = t + int g" using \<open>t < s\<close> by (simp add: g_def)
  let ?n = "win_size w" and ?h = "win_head w"
  let ?w = "win_advance w s"
  have w': "?w = w\<lparr>win_buckets := clear_buckets ?h ?n (min g ?n) (win_buckets w),
                  win_head := (?h + g) mod ?n, win_headTime := s\<rparr>"
    using \<open>0 < t\<close> \<open>t < s\<close> by (simp add: win_advance_def ht g_def Let_def)
  have buck: "win_buckets ?w ! win_age ?w k =
      \<lparr>bk_errors = sec_errors (wl_events l) (s - int k), bk_total = sec_total (wl_events l) (s - int k)\<rparr>"
    if k: "k < ?n" for k
  proof -
    have age: "win_age ?w k = ((?h + g) mod ?n + ?n - k) mod ?n"
      by (simp add: w' win_age_def)
    have "((?h + g) mod ?n + ?n - k) mod ?n < length (win_buckets w)"
      using wf by (auto simp: win_wf_def intro: less_le_trans [OF mod_less_divisor])
    then have nth: "win_buckets ?w ! win_age ?w k =
        (if \<exists>i < min g ?n. (?h + 1 + i) mod ?n = ((?h + g) mod ?n + ?n - k) mod ?n
         then bucket_zero else win_buckets w ! (((?h + g) mod ?n + ?n - k) mod ?n))"
      unfolding age by (simp add: w' nth_clear_buckets)
    show ?thesis
    proof (cases "k < g")
      case True
      with k have "win_buckets ?w ! win_age ?w k = bucket_zero"
        unfolding nth using ring_cleared by simp
      moreover have "t < s - int k" using True s by simp
      ultimately show ?thesis
        using sec_future [OF le] by (simp add: bucket_zero_def)
    next
      case False
      then have "g \<le> k" by simp
      have "win_buckets ?w ! win_age ?w k = win_buckets w ! win_age w (k - g)"
        unfolding nth by (subst if_not_P [OF ring_kept(2) [OF k \<open>g \<le> k\<close>]])
          (simp only: ring_kept(1) [OF k \<open>g \<le> k\<close>] win_age_def)
      moreover have "t - int (k - g) = s - int k" using s \<open>g \<le> k\<close> by simp
      ultimately show ?thesis using bk [of "k - g"] k by simp
    qed
  qed
  have "win_wf ?w"
    using wf by (simp add: win_wf_def w')
  moreover have "win_headTime ?w = s" and "win_size ?w = ?n" by (simp_all add: w')
  ultimately show ?thesis
    using now buck le \<open>0 < t\<close> \<open>t < s\<close> by (auto simp: win_abs_def wl_move_def)
qed

lemma win_advance_abs:
  assumes "win_abs w l" and "0 < s"
  shows "win_abs (win_advance w s) (wl_move s l)"
proof (cases "wl_now l")
  case None
  then show ?thesis using assms by (rule_tac win_advance_first)
next
  case (Some t)
  show ?thesis
  proof (cases "t < s")
    case True
    with assms Some show ?thesis by (rule_tac win_advance_later)
  next
    case False
    with assms Some have "win_advance w s = w" and "wl_move s l = l"
      by (auto simp: win_abs_def win_advance_def wl_move_def)
    with assms show ?thesis by simp
  qed
qed


lemma win_age_buckets [simp]: "win_age (w\<lparr>win_buckets := bs\<rparr>) k = win_age w k"
  by (simp add: win_age_def)

lemma win_age_0: "win_wf w \<Longrightarrow> win_age w 0 = win_head w"
  by (simp add: win_age_def win_wf_def)

lemma win_age_inj:
  assumes "win_wf w" and "j < win_size w" "k < win_size w" and "win_age w j = win_age w k"
  shows "j = k"
proof -
  have eq: "win_age w i = (win_head w + (win_size w - i)) mod win_size w" if "i < win_size w" for i
    using that by (simp add: win_age_def)
  have "win_size w - j = win_size w - k"
    by (rule ring_add_inj [of "win_head w" _ "win_size w"]) (use assms in \<open>simp_all add: eq\<close>)
  with assms show ?thesis by simp
qed

lemma win_age_image:
  assumes "win_wf w"
  shows "win_age w ` {..<win_size w} = {..<win_size w}"
proof (rule card_subset_eq)
  show "win_age w ` {..<win_size w} \<subseteq> {..<win_size w}"
    using assms by (auto simp: win_age_def win_wf_def)
  have "inj_on (win_age w) {..<win_size w}"
    using assms by (auto simp: inj_on_def dest: win_age_inj)
  then show "card (win_age w ` {..<win_size w}) = card {..<win_size w}"
    by (rule card_image)
qed simp

lemma sec_add:
  "sec_total (evs @ [(t, x)]) s = sec_total evs s + (if t = s then 1 else 0)"
  "sec_errors (evs @ [(t, x)]) s = sec_errors evs s + (if t = s then x else 0)"
  by (simp_all add: sec_total_def sec_errors_def)

lemma bucket_add_head:
  assumes abs: "win_abs w l" and now: "wl_now l = Some t"
  shows "win_abs (w\<lparr>win_buckets := (win_buckets w)[win_head w := bucket_add x (win_buckets w ! win_head w)]\<rparr>)
           (l\<lparr>wl_events := wl_events l @ [(t, x)]\<rparr>)" (is "win_abs ?w ?l")
proof -
  have wf: "win_wf w" and ht: "win_headTime w = t" and "0 < t"
    and le: "\<forall>(r, x) \<in> set (wl_events l). r \<le> t"
    and bk: "\<And>k. k < win_size w \<Longrightarrow> win_buckets w ! win_age w k =
       \<lparr>bk_errors = sec_errors (wl_events l) (t - int k), bk_total = sec_total (wl_events l) (t - int k)\<rparr>"
    using abs now by (auto simp: win_abs_def)
  have "win_buckets ?w ! win_age ?w k =
      \<lparr>bk_errors = sec_errors (wl_events ?l) (t - int k), bk_total = sec_total (wl_events ?l) (t - int k)\<rparr>"
    if k: "k < win_size w" for k
  proof (cases "k = 0")
    case True
    moreover have "win_head w < length (win_buckets w)" and "0 < win_size w"
      using wf by (auto simp: win_wf_def)
    ultimately show ?thesis
      using bk [of 0] wf by (simp add: win_age_0 bucket_add_def sec_add)
  next
    case False
    then have "win_age w k \<noteq> win_head w"
      using win_age_inj [OF wf k, of 0] win_age_0 [OF wf] k by auto
    then show ?thesis
      using bk [OF k] False by (simp add: sec_add)
  qed
  moreover have "win_wf ?w"
    using wf by (simp add: win_wf_def)
  ultimately show ?thesis
    using now le ht \<open>0 < t\<close> by (auto simp: win_abs_def)
qed

lemma win_Record_abs:
  assumes "win_abs w l" and "0 < time_Unix now"
  shows "win_abs (win_Record w x now) (wl_add x (time_Unix now) l)"
proof -
  have "win_abs (win_advance w (time_Unix now)) (wl_move (time_Unix now) l)"
    using assms by (rule win_advance_abs)
  moreover have "wl_now (wl_move (time_Unix now) l) = Some (the (wl_now (wl_move (time_Unix now) l)))"
    by (simp add: wl_move_def)
  ultimately show ?thesis
    unfolding win_Record_def wl_add_def Let_def by (rule bucket_add_head)
qed

lemma sum_take_age:
  assumes "win_wf w"
  shows "sum_list (map f (take (win_size w) (win_buckets w)))
           = (\<Sum>k < win_size w. f (win_buckets w ! win_age w k))"
proof -
  have "sum_list (map f (take (win_size w) (win_buckets w)))
      = (\<Sum>i < win_size w. f (win_buckets w ! i))"
    using assms by (simp add: sum_list_sum_nth win_wf_def atLeast0LessThan)
  also have "\<dots> = sum (\<lambda>i. f (win_buckets w ! i)) (win_age w ` {..<win_size w})"
    by (simp add: win_age_image [OF assms])
  also have "\<dots> = (\<Sum>k < win_size w. f (win_buckets w ! win_age w k))"
    by (subst sum.reindex) (auto simp: inj_on_def o_def dest: win_age_inj [OF assms])
  finally show ?thesis .
qed

text \<open>Summing the seconds of a window one by one is summing the outcomes of the window.\<close>

lemma recent_by_second:
  assumes "\<forall>(s, x) \<in> set evs. s \<le> t"
  shows "(\<Sum>k < n. sec_total evs (t - int k))
           = int (length (filter (\<lambda>(s, x). t - int n < s) evs))"
    and "(\<Sum>k < n. sec_errors evs (t - int k))
           = sum_list (map snd (filter (\<lambda>(s, x). t - int n < s) evs))"
proof -
  have step: "(\<Sum>k < n. if s = t - int k then c else 0) = (if t - int n < s then c else 0)"
    if "s \<le> t" for s and c :: "'a::comm_monoid_add"
  proof (cases "t - int n < s")
    case True
    have "(\<Sum>k < n. if s = t - int k then c else 0) = (\<Sum>k < n. if k = nat (t - s) then c else 0)"
      using that by (intro sum.cong) auto
    moreover have "nat (t - s) < n" using True that by linarith
    ultimately show ?thesis using True by simp
  next
    case False
    then have "\<forall>k \<in> {..<n}. s \<noteq> t - int k" by auto
    with False show ?thesis by simp
  qed
  show "(\<Sum>k < n. sec_total evs (t - int k))
          = int (length (filter (\<lambda>(s, x). t - int n < s) evs))"
    using assms
  proof (induction evs rule: rev_induct)
    case (snoc e evs)
    obtain s x where "e = (s, x)" by (cases e)
    with snoc show ?case
      using step [of s "1::int"] by (auto simp: sec_add sum.distrib)
  qed (simp add: sec_total_def)
  show "(\<Sum>k < n. sec_errors evs (t - int k))
          = sum_list (map snd (filter (\<lambda>(s, x). t - int n < s) evs))"
    using assms
  proof (induction evs rule: rev_induct)
    case (snoc e evs)
    obtain s x where "e = (s, x)" by (cases e)
    with snoc show ?case
      using step [of s x] by (auto simp: sec_add sum.distrib)
  qed (simp add: sec_errors_def)
qed

lemma win_totals_abs:
  assumes "win_abs w l" and "wl_now l = Some t"
  shows "sum_list (map bk_total (take (win_size w) (win_buckets w))) = int (length (wl_recent (win_size w) l))"
    and "sum_list (map bk_errors (take (win_size w) (win_buckets w))) = sum_list (map snd (wl_recent (win_size w) l))"
proof -
  have wf: "win_wf w" and le: "\<forall>(r, x) \<in> set (wl_events l). r \<le> t"
    and bk: "\<And>k. k < win_size w \<Longrightarrow> win_buckets w ! win_age w k =
       \<lparr>bk_errors = sec_errors (wl_events l) (t - int k), bk_total = sec_total (wl_events l) (t - int k)\<rparr>"
    using assms by (auto simp: win_abs_def)
  show "sum_list (map bk_total (take (win_size w) (win_buckets w))) = int (length (wl_recent (win_size w) l))"
    using assms(2) bk recent_by_second(1) [OF le]
    by (simp add: sum_take_age [OF wf] wl_recent_def)
  show "sum_list (map bk_errors (take (win_size w) (win_buckets w))) = sum_list (map snd (wl_recent (win_size w) l))"
    using assms(2) bk recent_by_second(2) [OF le]
    by (simp add: sum_take_age [OF wf] wl_recent_def)
qed

lemma win_size_advance [simp]: "win_size (win_advance w s) = win_size w"
  by (simp add: win_advance_def Let_def)

lemma win_size_Record [simp]: "win_size (win_Record w x now) = win_size w"
  by (simp add: win_Record_def Let_def)

lemma win_ErrorRate_abs:
  assumes "win_abs w l" and "0 < time_Unix now"
  shows "win_ErrorRate w now =
    (let (r, n) = wl_rate (win_size w) (wl_move (time_Unix now) l)
     in (r, n, win_advance w (time_Unix now)))"
proof -
  let ?s = "time_Unix now"
  have "win_abs (win_advance w ?s) (wl_move ?s l)"
    using assms by (rule win_advance_abs)
  moreover have "wl_now (wl_move ?s l) = Some (the (wl_now (wl_move ?s l)))"
    by (simp add: wl_move_def)
  ultimately show ?thesis
    using win_totals_abs [of "win_advance w ?s" "wl_move ?s l"]
    by (simp add: win_ErrorRate_def wl_rate_def Let_def)
qed

lemma fold_zero_nth:
  "n \<le> length bs \<Longrightarrow> k < n \<Longrightarrow>
     fold (\<lambda>i bs. bs[i := bucket_zero]) [0..<n] bs ! k = bucket_zero"
proof (induction n arbitrary: k)
  case (Suc n)
  have len: "length (fold (\<lambda>i bs. bs[i := bucket_zero]) [0..<n] bs) = length bs" for n
    by (induction n) simp_all
  from Suc show ?case
    by (cases "k = n") (simp_all add: len)
qed simp

lemma length_fold_zero [simp]:
  "length (fold (\<lambda>i bs. bs[i := bucket_zero]) [0..<n] bs) = length bs"
  by (induction n) simp_all

lemma win_Reset_abs: "win_wf w \<Longrightarrow> win_abs (win_Reset w) wl_empty"
  by (auto simp: win_abs_def win_Reset_def wl_empty_def win_wf_def fold_zero_nth)

lemma newSlidingWindow_abs: "win_abs (newSlidingWindow n) wl_empty"
  by (auto simp: win_abs_def newSlidingWindow_def wl_empty_def win_wf_def Let_def)

section \<open>The interface of an error window\<close>

text \<open>
  What the breaker relies on: recording, asking for the rate and resetting act on the window as
  they act on the log of outcomes that the window stands for.
\<close>

locale error_window =
  fixes add :: "'w \<Rightarrow> float64 \<Rightarrow> gotime \<Rightarrow> 'w"
    and rate :: "'w \<Rightarrow> gotime \<Rightarrow> float64 \<times> int \<times> 'w"
    and reset :: "'w \<Rightarrow> 'w"
    and span :: "'w \<Rightarrow> nat"
    and stands :: "'w \<Rightarrow> window_log \<Rightarrow> bool"
  assumes add_stands:
      "stands w l \<Longrightarrow> 0 < time_Unix now \<Longrightarrow> stands (add w x now) (wl_add x (time_Unix now) l)"
    and rate_value:
      "stands w l \<Longrightarrow> 0 < time_Unix now \<Longrightarrow>
        fst (rate w now) = fst (wl_rate (span w) (wl_move (time_Unix now) l)) \<and>
        fst (snd (rate w now)) = snd (wl_rate (span w) (wl_move (time_Unix now) l))"
    and rate_stands:
      "stands w l \<Longrightarrow> 0 < time_Unix now \<Longrightarrow>
        stands (snd (snd (rate w now))) (wl_move (time_Unix now) l)"
    and reset_stands: "stands w l \<Longrightarrow> stands (reset w) wl_empty"
    and span_add: "span (add w x now) = span w"
    and span_pos: "stands w l \<Longrightarrow> 0 < span w"
begin

definition adds :: "(float64 \<times> gotime) list \<Rightarrow> 'w \<Rightarrow> 'w" where
  "adds evs w = fold (\<lambda>(x, t) w. add w x t) evs w"

lemma adds_stands:
  "stands w l \<Longrightarrow> (\<And>x t. (x, t) \<in> set evs \<Longrightarrow> 0 < time_Unix t) \<Longrightarrow>
     stands (adds evs w) (fold (\<lambda>(x, t). wl_add x (time_Unix t)) evs l)"
proof (induction evs arbitrary: w l)
  case (Cons e evs)
  obtain x t where e: "e = (x, t)" by (cases e)
  have "stands (add w x t) (wl_add x (time_Unix t) l)"
    using Cons.prems by (auto simp: e intro: add_stands)
  then have "stands (adds evs (add w x t))
      (fold (\<lambda>(x, t). wl_add x (time_Unix t)) evs (wl_add x (time_Unix t) l))"
    by (rule Cons.IH) (use Cons.prems in auto)
  then show ?case by (simp add: adds_def e)
qed (simp add: adds_def)

lemma span_adds: "span (adds evs w) = span w"
  by (induction evs arbitrary: w) (auto simp: adds_def span_add)

lemma rate_adds:
  assumes "stands w l" and "\<And>x t. (x, t) \<in> set evs \<Longrightarrow> 0 < time_Unix t" and "0 < time_Unix now"
  shows "fst (rate (adds evs w) now) = fst (wl_rate (span w)
           (wl_move (time_Unix now) (fold (\<lambda>(x, t). wl_add x (time_Unix t)) evs l)))"
    and "fst (snd (rate (adds evs w) now)) = snd (wl_rate (span w)
           (wl_move (time_Unix now) (fold (\<lambda>(x, t). wl_add x (time_Unix t)) evs l)))"
  using rate_value [OF adds_stands [OF assms(1,2)] assms(3)] by (simp_all add: span_adds)

end

interpretation ring: error_window win_Record win_ErrorRate win_Reset win_size win_abs
proof unfold_locales
  fix w l x and now :: gotime
  assume a: "win_abs w l" and p: "0 < time_Unix now"
  show "win_abs (win_Record w x now) (wl_add x (time_Unix now) l)"
    using a p by (rule win_Record_abs)
  show "fst (win_ErrorRate w now) = fst (wl_rate (win_size w) (wl_move (time_Unix now) l)) \<and>
        fst (snd (win_ErrorRate w now)) = snd (wl_rate (win_size w) (wl_move (time_Unix now) l))"
    using win_ErrorRate_abs [OF a p] by (simp add: split_def Let_def)
  show "win_abs (snd (snd (win_ErrorRate w now))) (wl_move (time_Unix now) l)"
    using win_ErrorRate_abs [OF a p] win_advance_abs [OF a p] by (simp add: split_def Let_def)
qed (auto simp: win_Reset_abs win_abs_wf dest: win_abs_wf simp: win_wf_def)

section \<open>Facts about the log\<close>

lemma wl_move_sel [simp]:
  "wl_now (wl_move s l) = Some (case wl_now l of None \<Rightarrow> s | Some t \<Rightarrow> max t s)"
  "wl_events (wl_move s l) = wl_events l"
  by (simp_all add: wl_move_def)

lemma wl_add_sel [simp]:
  "wl_now (wl_add x s l) = wl_now (wl_move s l)"
  "wl_events (wl_add x s l) = wl_events l @ [(the (wl_now (wl_move s l)), x)]"
  by (simp_all add: wl_add_def Let_def)

lemma wl_now_fold:
  assumes "evs \<noteq> []" and "sorted (map snd evs)" and "wl_now l = None"
  shows "wl_now (fold (\<lambda>(x, t). wl_add x (time_Unix t)) evs l) = Some (time_Unix (snd (last evs)))"
  using assms
proof (induction evs rule: rev_induct)
  case (snoc e evs)
  obtain x t where e: "e = (x, t)" by (cases e)
  show ?case
  proof (cases "evs = []")
    case True
    with snoc e show ?thesis by simp
  next
    case False
    with snoc have now: "wl_now (fold (\<lambda>(x, t). wl_add x (time_Unix t)) evs l) = Some (time_Unix (snd (last evs)))"
      by (simp add: sorted_append)
    have "snd (last evs) \<le> t"
      using snoc.prems False e by (simp add: sorted_append)
    then have "time_Unix (snd (last evs)) \<le> time_Unix t" by (rule time_Unix_mono)
    with now e show ?thesis by (simp add: max_absorb2)
  qed
qed simp

lemma wl_events_fold:
  assumes "sorted (map snd evs)" and "wl_now l = None" and "wl_events l = []"
  shows "wl_events (fold (\<lambda>(x, t). wl_add x (time_Unix t)) evs l) = map (\<lambda>(x, t). (time_Unix t, x)) evs"
  using assms
proof (induction evs rule: rev_induct)
  case (snoc e evs)
  obtain x t where e: "e = (x, t)" by (cases e)
  define m where "m = fold (\<lambda>(x, t). wl_add x (time_Unix t)) evs l"
  have "wl_events m = map (\<lambda>(x, t). (time_Unix t, x)) evs"
    using snoc by (simp add: m_def sorted_append)
  moreover have "wl_now (wl_add x (time_Unix t) m) = Some (time_Unix t)"
    using wl_now_fold [of "evs @ [e]" l] snoc.prems e by (simp add: m_def)
  ultimately have "wl_events (wl_add x (time_Unix t) m) = map (\<lambda>(x, t). (time_Unix t, x)) (evs @ [e])"
    by (simp add: e)
  then show ?case by (simp add: m_def e)
qed simp

lemma wl_recent_fold:
  assumes "sorted (map snd evs @ [now])"
  shows "wl_recent n (wl_move (time_Unix now) (fold (\<lambda>(x, t). wl_add x (time_Unix t)) evs wl_empty))
    = map (\<lambda>(x, t). (time_Unix t, x)) (filter (\<lambda>(x, t). time_Unix now - int n < time_Unix t) evs)"
proof -
  let ?l = "fold (\<lambda>(x, t). wl_add x (time_Unix t)) evs wl_empty"
  have srt: "sorted (map snd evs)" and le: "\<forall>t \<in> set (map snd evs). t \<le> now"
    using assms by (auto simp: sorted_append)
  have ev: "wl_events ?l = map (\<lambda>(x, t). (time_Unix t, x)) evs"
    using srt by (intro wl_events_fold) (simp_all add: wl_empty_def)
  have now: "wl_now (wl_move (time_Unix now) ?l) = Some (time_Unix now)"
  proof (cases "evs = []")
    case False
    then have "wl_now ?l = Some (time_Unix (snd (last evs)))"
      using srt by (intro wl_now_fold) (simp_all add: wl_empty_def)
    moreover have "time_Unix (snd (last evs)) \<le> time_Unix now"
      using le False last_in_set [of evs] by (intro time_Unix_mono) auto
    ultimately show ?thesis by (simp add: max_absorb2)
  qed (simp add: wl_empty_def)
  with ev show ?thesis
    by (simp add: wl_recent_def filter_map o_def split_def)
qed

section \<open>Properties\<close>

text \<open>
  C1. The ring buffer implements the log of outcomes. Whatever sequence of outcomes is recorded
  into a new window (the clock may even run backwards, as long as readings lie after the first
  second of 1970), the rate and the sample count that \<open>ErrorRate\<close> returns are those of the log
  restricted to the last \<open>size\<close> seconds.
\<close>

theorem window_refines_log:
  assumes "\<forall>(x, t) \<in> set evs. second \<le> t" and "second \<le> now"
  shows "let w = fold (\<lambda>(x, t) w. win_Record w x t) evs (newSlidingWindow n);
             l = fold (\<lambda>(x, t). wl_add x (time_Unix t)) evs wl_empty
         in (fst (win_ErrorRate w now), fst (snd (win_ErrorRate w now)))
              = wl_rate (win_size (newSlidingWindow n)) (wl_move (time_Unix now) l)"
proof -
  have "0 < time_Unix t" if "(x, t) \<in> set evs" for x t
    using assms(1) that by (auto intro: time_Unix_pos)
  from ring.rate_adds [OF newSlidingWindow_abs this time_Unix_pos [OF assms(2)]]
  show ?thesis by (simp add: ring.adds_def Let_def)
qed

theorem window_refines_log_witness:
  "(fst (win_ErrorRate (fold (\<lambda>(x, t) w. win_Record w x t)
        [(1, 5 * second), (0, 6 * second), (1, 9 * second)] (newSlidingWindow 4)) (9 * second)),
    fst (snd (win_ErrorRate (fold (\<lambda>(x, t) w. win_Record w x t)
        [(1, 5 * second), (0, 6 * second), (1, 9 * second)] (newSlidingWindow 4)) (9 * second)))) = (1 / 2, 2)"
proof -
  have "\<forall>(x, t) \<in> set [(1, 5 * second), (0, 6 * second), (1 :: float64, 9 * second)]. second \<le> t"
    and "second \<le> 9 * second"
    by (simp_all add: second_def)
  from window_refines_log [OF this, of 4] show ?thesis
    by (simp add: Let_def newSlidingWindow_def wl_rate_def wl_recent_def wl_move_def wl_add_def
        wl_empty_def time_Unix_def second_def)
qed

text \<open>
  With a clock that does not run backwards the window counts exactly the outcomes of the
  last \<open>size\<close> seconds: the sample count is their number and the rate their average weight.
\<close>

theorem window_counts_recent:
  assumes "sorted (map snd evs @ [now])" and "\<forall>(x, t) \<in> set evs. second \<le> t" and "second \<le> now"
    and "w = fold (\<lambda>(x, t) w. win_Record w x t) evs (newSlidingWindow n)"
    and "recent = filter (\<lambda>(x, t). time_Unix now - int (win_size w) < time_Unix t) evs"
  shows "fst (snd (win_ErrorRate w now)) = int (length recent) \<and>
         fst (win_ErrorRate w now) =
           (if recent = [] then 0 else sum_list (map fst recent) / of_nat (length recent))"
proof -
  have pos: "0 < time_Unix t" if "(x, t) \<in> set evs" for x t
    using assms(2) that by (auto intro: time_Unix_pos)
  have sz: "win_size w = win_size (newSlidingWindow n)"
    using ring.span_adds [of evs "newSlidingWindow n"] by (simp add: assms(4) ring.adds_def)
  note rate = ring.rate_adds [where evs = evs and w = "newSlidingWindow n",
      OF newSlidingWindow_abs pos time_Unix_pos [OF assms(3)],
      unfolded ring.adds_def, folded assms(4) sz]
  have "fst (snd (win_ErrorRate w now)) = int (length recent)"
    using rate(2) wl_recent_fold [OF assms(1)]
    by (auto simp: wl_rate_def assms(5) Let_def)
  moreover have "fst (win_ErrorRate w now) =
           (if recent = [] then 0 else sum_list (map fst recent) / of_nat (length recent))"
    using rate(1) wl_recent_fold [OF assms(1)]
    by (simp add: wl_rate_def assms(5) Let_def split_def o_def)
  ultimately show ?thesis by simp
qed

theorem window_counts_recent_witness:
  "fst (snd (win_ErrorRate (fold (\<lambda>(x, t) w. win_Record w x t)
      [(1, 5 * second), (3 / 2, 8 * second)] (newSlidingWindow 3)) (9 * second))) = 1"
proof -
  have "sorted (map snd [(1, 5 * second), (3 / 2 :: float64, 8 * second)] @ [9 * second])"
    and "\<forall>(x, t) \<in> set [(1, 5 * second), (3 / 2 :: float64, 8 * second)]. second \<le> t"
    and "second \<le> 9 * second"
    by (simp_all add: second_def)
  from window_counts_recent [OF this refl refl, of 3] show ?thesis
    by (simp add: newSlidingWindow_def win_Record_def win_advance_def Let_def time_Unix_def second_def)
qed

end
