(* ===== verification/Circuit_Breaker.thy ===== *)
theory Circuit_Breaker
  imports Sliding_Window
begin

text \<open>
  The per-provider breaker of \<open>internal/circuitbreaker/circuitbreaker.go\<close>: its three states, its
  operations (each runs under the breaker's mutex, so each is one atomic step; the clock is read
  before the lock is taken, so successive steps may carry decreasing readings), and the step
  relation that any interleaving of callers produces.
\<close>

section \<open>States and configuration\<close>

datatype State = StateClosed | StateOpen | StateHalfOpen

fun State_String :: "State \<Rightarrow> string" where
  "State_String StateClosed = ''closed''"
| "State_String StateOpen = ''open''"
| "State_String StateHalfOpen = ''half_open''"

record Config =
  cfg_ErrorThreshold :: float64
  cfg_MinSamples :: int
  cfg_WindowSeconds :: int
  cfg_OpenTimeout :: duration

definition DefaultConfig :: Config where
  "DefaultConfig = \<lparr>cfg_ErrorThreshold = 3 / 10, cfg_MinSamples = 10, cfg_WindowSeconds = 60,
     cfg_OpenTimeout = 30 * second\<rparr>"

section \<open>The breaker\<close>

record Breaker =
  br_state :: State
  br_window :: SlidingWindow
  br_openedAt :: gotime
  br_lastUsed :: gotime
  br_probing :: bool
  br_threshold :: float64
  br_minSamples :: int
  br_openTimeout :: duration

text \<open>The zero \<open>time.Time\<close> of \<open>openedAt\<close> is the beginning of year 1, before the epoch; it is
  never read before the breaker first opens.\<close>

definition NewBreaker :: "Config \<Rightarrow> gotime \<Rightarrow> Breaker" where
  "NewBreaker cfg now =
     \<lparr>br_state = StateClosed, br_window = newSlidingWindow (cfg_WindowSeconds cfg),
      br_openedAt = zero_time, br_lastUsed = now, br_probing = False,
      br_threshold = cfg_ErrorThreshold cfg, br_minSamples = cfg_MinSamples cfg,
      br_openTimeout = cfg_OpenTimeout cfg\<rparr>"

definition Breaker_State :: "Breaker \<Rightarrow> State" where
  "Breaker_State b = br_state b"

definition Breaker_LastUsed :: "Breaker \<Rightarrow> gotime" where
  "Breaker_LastUsed b = br_lastUsed b"

definition Allow :: "Breaker \<Rightarrow> gotime \<Rightarrow> bool \<times> Breaker" where
  "Allow b now =
     (let b = b\<lparr>br_lastUsed := now\<rparr> in
      case br_state b of
        StateClosed \<Rightarrow> (True, b)
      | StateOpen \<Rightarrow>
          if time_Sub now (br_openedAt b) \<ge> br_openTimeout b
          then (True, b\<lparr>br_state := StateHalfOpen, br_probing := True\<rparr>)
          else (False, b)
      | StateHalfOpen \<Rightarrow>
          if \<not> br_probing b then (True, b\<lparr>br_probing := True\<rparr>) else (False, b))"

definition RecordSuccess :: "Breaker \<Rightarrow> gotime \<Rightarrow> Breaker" where
  "RecordSuccess b now =
     (let b = b\<lparr>br_lastUsed := now, br_window := win_Record (br_window b) 0 now\<rparr> in
      if br_state b = StateHalfOpen
      then b\<lparr>br_state := StateClosed, br_probing := False, br_window := win_Reset (br_window b)\<rparr>
      else b)"

definition RecordError :: "Breaker \<Rightarrow> float64 \<Rightarrow> gotime \<Rightarrow> Breaker" where
  "RecordError b weight now =
     (let b = b\<lparr>br_lastUsed := now, br_window := win_Record (br_window b) weight now\<rparr> in
      case br_state b of
        StateClosed \<Rightarrow>
          (case win_ErrorRate (br_window b) now of (rate, samples, w) \<Rightarrow>
             let b = b\<lparr>br_window := w\<rparr> in
             if samples \<ge> br_minSamples b \<and> rate \<ge> br_threshold b
             then b\<lparr>br_state := StateOpen, br_openedAt := now\<rparr> else b)
      | StateHalfOpen \<Rightarrow> b\<lparr>br_state := StateOpen, br_openedAt := now, br_probing := False\<rparr>
      | StateOpen \<Rightarrow> b)"

section \<open>Interleaved callers\<close>

datatype brk_event = EvAllow gotime bool | EvSuccess gotime | EvError float64 gotime

fun ev_time :: "brk_event \<Rightarrow> gotime" where
  "ev_time (EvAllow t r) = t"
| "ev_time (EvSuccess t) = t"
| "ev_time (EvError x t) = t"

inductive brk_step :: "Breaker \<Rightarrow> brk_event \<Rightarrow> Breaker \<Rightarrow> bool" where
  step_allow: "Allow b t = (r, b') \<Longrightarrow> brk_step b (EvAllow t r) b'"
| step_success: "brk_step b (EvSuccess t) (RecordSuccess b t)"
| step_error: "brk_step b (EvError x t) (RecordError b x t)"

inductive brk_run :: "Breaker \<Rightarrow> brk_event list \<Rightarrow> Breaker \<Rightarrow> bool" where
  run_nil: "brk_run b [] b"
| run_cons: "brk_step b e b' \<Longrightarrow> brk_run b' es b'' \<Longrightarrow> brk_run b (e # es) b''"

definition brk_reachable :: "Config \<Rightarrow> Breaker \<Rightarrow> bool" where
  "brk_reachable cfg b \<longleftrightarrow> (\<exists>now es. brk_run (NewBreaker cfg now) es b)"

inductive_simps brk_step_simps [simp]:
  "brk_step b (EvAllow t r) b'"
  "brk_step b (EvSuccess t) b'"
  "brk_step b (EvError x t) b'"

inductive_simps brk_run_simps [simp]:
  "brk_run b [] b'"
  "brk_run b (e # es) b'"

section \<open>Step lemmas\<close>

lemma win_wf_advance: "win_wf w \<Longrightarrow> win_wf (win_advance w s)"
  by (simp add: win_wf_def win_advance_def Let_def)

lemma win_wf_Record: "win_wf w \<Longrightarrow> win_wf (win_Record w x now)"
  using win_wf_advance [of w "time_Unix now"] by (simp add: win_Record_def win_wf_def Let_def)

lemma win_wf_ErrorRate: "win_wf w \<Longrightarrow> win_wf (snd (snd (win_ErrorRate w now)))"
  using win_wf_advance [of w "time_Unix now"] by (simp add: win_ErrorRate_def Let_def)

lemma win_wf_Reset: "win_wf w \<Longrightarrow> win_wf (win_Reset w)"
  by (simp add: win_wf_def win_Reset_def)

lemma win_wf_new: "win_wf (newSlidingWindow n)"
  using newSlidingWindow_abs win_abs_wf by blast

definition brk_inv :: "Breaker \<Rightarrow> bool" where
  "brk_inv b \<longleftrightarrow> win_wf (br_window b) \<and> (br_probing b \<longleftrightarrow> br_state b = StateHalfOpen)"

lemma brk_inv_new: "brk_inv (NewBreaker cfg now)"
  by (simp add: brk_inv_def NewBreaker_def win_wf_new)

lemma brk_step_inv: "brk_step b e b' \<Longrightarrow> brk_inv b \<Longrightarrow> brk_inv b'"
proof (induction rule: brk_step.induct)
  case (step_allow b t r b')
  then show ?case
    by (auto simp: Allow_def brk_inv_def Let_def split: State.splits if_splits)
next
  case (step_success b t)
  then show ?case
    by (auto simp: RecordSuccess_def brk_inv_def Let_def win_wf_Record win_wf_Reset)
next
  case (step_error b x t)
  then show ?case
    by (auto simp: RecordError_def brk_inv_def Let_def win_wf_Record win_wf_ErrorRate split_def
        split: State.splits)
qed

lemma brk_run_inv: "brk_run b es b' \<Longrightarrow> brk_inv b \<Longrightarrow> brk_inv b'"
  by (induction rule: brk_run.induct) (auto dest: brk_step_inv)

lemma brk_reachable_inv: "brk_reachable cfg b \<Longrightarrow> brk_inv b"
  unfolding brk_reachable_def using brk_run_inv brk_inv_new by blast

lemma win_size_Reset [simp]: "win_size (win_Reset w) = win_size w"
  by (simp add: win_Reset_def)

lemma win_size_ErrorRate [simp]: "win_size (snd (snd (win_ErrorRate w now))) = win_size w"
  by (simp add: win_ErrorRate_def Let_def)

text \<open>The parameters never change.\<close>

lemma brk_step_params:
  "brk_step b e b' \<Longrightarrow> br_threshold b' = br_threshold b \<and> br_minSamples b' = br_minSamples b
     \<and> br_openTimeout b' = br_openTimeout b \<and> win_size (br_window b') = win_size (br_window b)"
  by (induction rule: brk_step.induct)
    (auto simp: Allow_def RecordSuccess_def RecordError_def Let_def split_def split: State.splits if_splits)

lemma brk_run_params:
  "brk_run b es b' \<Longrightarrow> br_threshold b' = br_threshold b \<and> br_minSamples b' = br_minSamples b
     \<and> br_openTimeout b' = br_openTimeout b \<and> win_size (br_window b') = win_size (br_window b)"
  by (induction rule: brk_run.induct) (auto dest: brk_step_params)

text \<open>An open breaker: only a late enough \<open>Allow\<close> changes its state, and only \<open>Allow\<close> can.\<close>

lemma brk_step_open:
  assumes "brk_step b e b'" and "br_state b = StateOpen"
    and "ev_time e < br_openedAt b + br_openTimeout b"
  shows "br_state b' = StateOpen \<and> br_openedAt b' = br_openedAt b \<and> (\<forall>t r. e = EvAllow t r \<longrightarrow> \<not> r)"
  using assms
  by (cases rule: brk_step.cases)
    (auto simp: Allow_def RecordSuccess_def RecordError_def Let_def time_Sub_def)

text \<open>A half-open breaker with a probe in flight admits nothing; an outcome decides.\<close>

lemma brk_step_half_open:
  assumes "brk_step b e b'" and "br_state b = StateHalfOpen" and "br_probing b"
  shows "case e of
      EvAllow t r \<Rightarrow> \<not> r \<and> b' = b\<lparr>br_lastUsed := t\<rparr>
    | EvSuccess t \<Rightarrow> br_state b' = StateClosed \<and> \<not> br_probing b' \<and>
        br_window b' = win_Reset (win_Record (br_window b) 0 t)
    | EvError x t \<Rightarrow> br_state b' = StateOpen \<and> \<not> br_probing b' \<and> br_openedAt b' = t"
  using assms
  by (cases rule: brk_step.cases) (auto simp: Allow_def RecordSuccess_def RecordError_def Let_def)

section \<open>The specification: modes over the log of outcomes\<close>

text \<open>
  The specification knows no ring buffer and no probing flag: it is closed, open since some
  instant, or waiting for the outcome of its one probe, and it judges the log of outcomes.
\<close>

datatype brk_mode = MClosed | MOpen gotime | MProbe

record brk_spec =
  sp_mode :: brk_mode
  sp_log :: window_log

definition cfg_span :: "Config \<Rightarrow> nat" where
  "cfg_span cfg = win_size (newSlidingWindow (cfg_WindowSeconds cfg))"

definition sp_bad :: "Config \<Rightarrow> window_log \<Rightarrow> bool" where
  "sp_bad cfg l \<longleftrightarrow>
     cfg_MinSamples cfg \<le> snd (wl_rate (cfg_span cfg) l) \<and>
     cfg_ErrorThreshold cfg \<le> fst (wl_rate (cfg_span cfg) l)"

inductive sp_step :: "Config \<Rightarrow> brk_spec \<Rightarrow> brk_event \<Rightarrow> brk_spec \<Rightarrow> bool" for cfg where
  closed_allow: "sp_step cfg \<lparr>sp_mode = MClosed, sp_log = l\<rparr> (EvAllow t True) \<lparr>sp_mode = MClosed, sp_log = l\<rparr>"
| open_reject: "t < at0 + cfg_OpenTimeout cfg \<Longrightarrow>
    sp_step cfg \<lparr>sp_mode = MOpen at0, sp_log = l\<rparr> (EvAllow t False) \<lparr>sp_mode = MOpen at0, sp_log = l\<rparr>"
| open_probe: "at0 + cfg_OpenTimeout cfg \<le> t \<Longrightarrow>
    sp_step cfg \<lparr>sp_mode = MOpen at0, sp_log = l\<rparr> (EvAllow t True) \<lparr>sp_mode = MProbe, sp_log = l\<rparr>"
| probe_reject: "sp_step cfg \<lparr>sp_mode = MProbe, sp_log = l\<rparr> (EvAllow t False) \<lparr>sp_mode = MProbe, sp_log = l\<rparr>"
| probe_success: "sp_step cfg \<lparr>sp_mode = MProbe, sp_log = l\<rparr> (EvSuccess t)
    \<lparr>sp_mode = MClosed, sp_log = wl_empty\<rparr>"
| probe_error: "sp_step cfg \<lparr>sp_mode = MProbe, sp_log = l\<rparr> (EvError x t)
    \<lparr>sp_mode = MOpen t, sp_log = wl_add x (time_Unix t) l\<rparr>"
| success: "m \<noteq> MProbe \<Longrightarrow> sp_step cfg \<lparr>sp_mode = m, sp_log = l\<rparr> (EvSuccess t)
    \<lparr>sp_mode = m, sp_log = wl_add 0 (time_Unix t) l\<rparr>"
| open_error: "sp_step cfg \<lparr>sp_mode = MOpen at0, sp_log = l\<rparr> (EvError x t)
    \<lparr>sp_mode = MOpen at0, sp_log = wl_add x (time_Unix t) l\<rparr>"
| closed_error: "l' = wl_add x (time_Unix t) l \<Longrightarrow>
    sp_step cfg \<lparr>sp_mode = MClosed, sp_log = l\<rparr> (EvError x t)
      \<lparr>sp_mode = (if sp_bad cfg l' then MOpen t else MClosed), sp_log = l'\<rparr>"

inductive sp_run :: "Config \<Rightarrow> brk_spec \<Rightarrow> brk_event list \<Rightarrow> brk_spec \<Rightarrow> bool" for cfg where
  sp_nil: "sp_run cfg s [] s"
| sp_cons: "sp_step cfg s e s' \<Longrightarrow> sp_run cfg s' es s'' \<Longrightarrow> sp_run cfg s (e # es) s''"

inductive_simps sp_run_simps [simp]:
  "sp_run cfg s [] s'"
  "sp_run cfg s (e # es) s'"

inductive_cases sp_closed_errorE [elim]:
  "sp_step cfg \<lparr>sp_mode = MClosed, sp_log = l\<rparr> (EvError x t) s'"
inductive_cases sp_open_errorE [elim]:
  "sp_step cfg \<lparr>sp_mode = MOpen at0, sp_log = l\<rparr> (EvError x t) s'"

definition sp_init :: brk_spec where
  "sp_init = \<lparr>sp_mode = MClosed, sp_log = wl_empty\<rparr>"

text \<open>The abstraction: which mode a breaker is in, and which log its window stands for.\<close>

definition brk_mode_of :: "Breaker \<Rightarrow> brk_mode" where
  "brk_mode_of b =
     (case br_state b of StateClosed \<Rightarrow> MClosed | StateOpen \<Rightarrow> MOpen (br_openedAt b) | StateHalfOpen \<Rightarrow> MProbe)"

definition brk_rel :: "Config \<Rightarrow> Breaker \<Rightarrow> brk_spec \<Rightarrow> bool" where
  "brk_rel cfg b s \<longleftrightarrow>
     brk_mode_of b = sp_mode s \<and> win_abs (br_window b) (sp_log s) \<and>
     win_size (br_window b) = cfg_span cfg \<and> (br_probing b \<longleftrightarrow> br_state b = StateHalfOpen) \<and>
     br_threshold b = cfg_ErrorThreshold cfg \<and> br_minSamples b = cfg_MinSamples cfg \<and>
     br_openTimeout b = cfg_OpenTimeout cfg"

lemma brk_rel_init: "brk_rel cfg (NewBreaker cfg now) sp_init"
  by (simp add: brk_rel_def brk_mode_of_def NewBreaker_def sp_init_def newSlidingWindow_abs cfg_span_def)

lemma wl_move_add [simp]: "wl_move s (wl_add x s l) = wl_add x s l"
  by (cases "wl_now l") (simp_all add: wl_add_def wl_move_def Let_def)

text \<open>The tripping test of \<open>RecordError\<close> is the test on the log.\<close>

lemma RecordError_closed:
  assumes "win_abs (br_window b) l" and "br_state b = StateClosed" and "0 < time_Unix t"
    and "win_size (br_window b) = cfg_span cfg"
    and "br_threshold b = cfg_ErrorThreshold cfg" and "br_minSamples b = cfg_MinSamples cfg"
  shows "brk_mode_of (RecordError b x t) = (if sp_bad cfg (wl_add x (time_Unix t) l) then MOpen t else MClosed)"
    and "win_abs (br_window (RecordError b x t)) (wl_add x (time_Unix t) l)"
proof -
  let ?w = "win_Record (br_window b) x t"
  have w: "win_abs ?w (wl_add x (time_Unix t) l)"
    using assms(1,3) by (rule ring.add_stands)
  show "brk_mode_of (RecordError b x t) = (if sp_bad cfg (wl_add x (time_Unix t) l) then MOpen t else MClosed)"
    using ring.rate_value [OF w assms(3)] assms
    by (simp add: RecordError_def brk_mode_of_def sp_bad_def split_def Let_def)
  show "win_abs (br_window (RecordError b x t)) (wl_add x (time_Unix t) l)"
    using ring.rate_stands [OF w assms(3)] assms(2)
    by (simp add: RecordError_def split_def Let_def)
qed

lemma brk_rel_error:
  assumes "brk_rel cfg b s" and "0 < time_Unix t"
  shows "\<exists>s'. sp_step cfg s (EvError x t) s' \<and> brk_rel cfg (RecordError b x t) s'"
proof -
  obtain m l where s: "s = \<lparr>sp_mode = m, sp_log = l\<rparr>" by (cases s)
  let ?l = "wl_add x (time_Unix t) l"
  have l: "win_abs (br_window b) l" using assms(1) by (simp add: brk_rel_def s)
  note keeps = ring.add_stands [OF l assms(2)]
  show ?thesis
  proof (cases "br_state b")
    case StateClosed
    have "brk_rel cfg (RecordError b x t) \<lparr>sp_mode = (if sp_bad cfg ?l then MOpen t else MClosed), sp_log = ?l\<rparr>"
      using assms RecordError_closed [OF l StateClosed assms(2)] StateClosed
      by (simp add: brk_rel_def s) (simp add: RecordError_def split_def Let_def)
    moreover have "m = MClosed" using assms(1) StateClosed by (simp add: brk_rel_def s brk_mode_of_def)
    ultimately show ?thesis unfolding s by (blast intro: sp_step.closed_error)
  next
    case StateOpen
    then have "m = MOpen (br_openedAt b)" using assms(1) by (simp add: brk_rel_def s brk_mode_of_def)
    moreover have "brk_rel cfg (RecordError b x t) \<lparr>sp_mode = m, sp_log = ?l\<rparr>"
      using assms(1) StateOpen keeps by (simp add: brk_rel_def s RecordError_def Let_def brk_mode_of_def)
    ultimately show ?thesis unfolding s by (blast intro: sp_step.open_error)
  next
    case StateHalfOpen
    then have "m = MProbe" using assms(1) by (simp add: brk_rel_def s brk_mode_of_def)
    moreover have "brk_rel cfg (RecordError b x t) \<lparr>sp_mode = MOpen t, sp_log = ?l\<rparr>"
      using assms(1) StateHalfOpen keeps by (simp add: brk_rel_def s RecordError_def Let_def brk_mode_of_def)
    ultimately show ?thesis unfolding s by (blast intro: sp_step.probe_error)
  qed
qed

lemma brk_rel_success:
  assumes "brk_rel cfg b s" and "0 < time_Unix t"
  shows "\<exists>s'. sp_step cfg s (EvSuccess t) s' \<and> brk_rel cfg (RecordSuccess b t) s'"
proof -
  obtain m l where s: "s = \<lparr>sp_mode = m, sp_log = l\<rparr>" by (cases s)
  have l: "win_abs (br_window b) l" using assms(1) by (simp add: brk_rel_def s)
  note keeps = ring.add_stands [OF l assms(2)]
  show ?thesis
  proof (cases "br_state b = StateHalfOpen")
    case True
    then have "m = MProbe" using assms(1) by (simp add: brk_rel_def s brk_mode_of_def)
    moreover have "brk_rel cfg (RecordSuccess b t) \<lparr>sp_mode = MClosed, sp_log = wl_empty\<rparr>"
      using assms(1) True ring.reset_stands [OF keeps]
      by (simp add: brk_rel_def s RecordSuccess_def Let_def brk_mode_of_def)
    ultimately show ?thesis unfolding s by (blast intro: sp_step.probe_success)
  next
    case False
    then have "m \<noteq> MProbe" using assms(1) by (auto simp: brk_rel_def s brk_mode_of_def split: State.splits)
    moreover have "brk_rel cfg (RecordSuccess b t) \<lparr>sp_mode = m, sp_log = wl_add 0 (time_Unix t) l\<rparr>"
      using assms(1) False keeps
      by (simp add: brk_rel_def s RecordSuccess_def Let_def brk_mode_of_def split: State.splits)
    ultimately show ?thesis unfolding s by (blast intro: sp_step.success)
  qed
qed

lemma brk_rel_allow:
  assumes "brk_rel cfg b s" and "Allow b t = (r, b')"
  shows "\<exists>s'. sp_step cfg s (EvAllow t r) s' \<and> brk_rel cfg b' s'"
proof -
  obtain m l where s: "s = \<lparr>sp_mode = m, sp_log = l\<rparr>" by (cases s)
  have "m = brk_mode_of b" using assms(1) by (simp add: brk_rel_def s)
  with assms show ?thesis
    unfolding s
    by (cases "br_state b"; cases "t < br_openedAt b + cfg_OpenTimeout cfg")
      (auto simp: brk_rel_def brk_mode_of_def Allow_def Let_def time_Sub_def
        intro!: exI sp_step.closed_allow sp_step.open_reject sp_step.open_probe sp_step.probe_reject)
qed

lemma brk_rel_step:
  "brk_step b e b' \<Longrightarrow> brk_rel cfg b s \<Longrightarrow> second \<le> ev_time e \<Longrightarrow>
     \<exists>s'. sp_step cfg s e s' \<and> brk_rel cfg b' s'"
  by (cases e) (auto dest: brk_rel_allow intro: brk_rel_success brk_rel_error time_Unix_pos)

lemma brk_rel_run:
  assumes "brk_run b es b'" and "brk_rel cfg b s" and "\<forall>e \<in> set es. second \<le> ev_time e"
  shows "\<exists>s'. sp_run cfg s es s' \<and> brk_rel cfg b' s'"
  using assms
proof (induction arbitrary: s rule: brk_run.induct)
  case (run_cons b e b' es b'')
  then obtain s' where "sp_step cfg s e s'" "brk_rel cfg b' s'"
    using brk_rel_step by fastforce
  moreover obtain s'' where "sp_run cfg s' es s''" "brk_rel cfg b'' s''"
    using run_cons.IH [OF \<open>brk_rel cfg b' s'\<close>] run_cons.prems(2) by auto
  ultimately show ?case by (auto intro: sp_run.intros)
qed (auto intro: sp_run.intros)

section \<open>Consequences of the specification\<close>

definition is_outcome :: "brk_event \<Rightarrow> bool" where
  "is_outcome e \<longleftrightarrow> (\<forall>t r. e \<noteq> EvAllow t r)"

lemma is_outcome_simps [simp]:
  "\<not> is_outcome (EvAllow t r)" "is_outcome (EvSuccess t)" "is_outcome (EvError x t)"
  by (auto simp: is_outcome_def)

lemma wl_rate_samples: "snd (wl_rate n l) = int (length (wl_recent n l))"
  by (simp add: wl_rate_def Let_def)

lemma wl_recent_le: "length (wl_recent n l) \<le> length (wl_events l)"
  by (auto simp: wl_recent_def split: option.split)

text \<open>A closed specification stays closed until its log has enough samples.\<close>

lemma sp_step_few:
  assumes "sp_step cfg s e s'" and "sp_mode s = MClosed"
    and "int (length (wl_events (sp_log s))) + (if is_outcome e then 1 else 0) < cfg_MinSamples cfg"
  shows "sp_mode s' = MClosed \<and> (\<forall>t r. e = EvAllow t r \<longrightarrow> r) \<and>
    length (wl_events (sp_log s')) = length (wl_events (sp_log s)) + (if is_outcome e then 1 else 0)"
  using assms
proof (cases rule: sp_step.cases)
  case (closed_error l' x t l)
  then have "int (length (wl_recent (cfg_span cfg) l')) < cfg_MinSamples cfg"
    using assms(3) wl_recent_le [of "cfg_span cfg" l'] by simp
  with closed_error show ?thesis
    by (simp add: sp_bad_def wl_rate_samples)
qed auto

lemma sp_run_few:
  assumes "sp_run cfg s es s'" and "sp_mode s = MClosed"
    and "int (length (wl_events (sp_log s))) + int (length (filter is_outcome es)) < cfg_MinSamples cfg"
  shows "sp_mode s' = MClosed \<and> (\<forall>t. EvAllow t False \<notin> set es)"
  using assms
proof (induction rule: sp_run.induct)
  case (sp_cons s e s' es s'')
  have "int (length (wl_events (sp_log s))) + (if is_outcome e then 1 else 0) < cfg_MinSamples cfg"
    using sp_cons.prems(2) by (auto split: if_splits)
  note st = sp_step_few [OF sp_cons.hyps(1) sp_cons.prems(1) this]
  have "sp_mode s'' = MClosed \<and> (\<forall>t. EvAllow t False \<notin> set es)"
    using st sp_cons.prems(2) by (intro sp_cons.IH) (auto split: if_splits)
  with st show ?case by auto
qed simp

lemma sp_run_open_errors:
  "sp_run cfg \<lparr>sp_mode = MOpen at0, sp_log = l\<rparr> (map (\<lambda>(x, t). EvError x t) evs) s' \<Longrightarrow> sp_mode s' = MOpen at0"
proof (induction evs arbitrary: l)
  case (Cons e evs)
  then show ?case by (cases e) fastforce
qed auto

lemma sp_run_errors_log:
  assumes "sp_run cfg \<lparr>sp_mode = MClosed, sp_log = l\<rparr> (map (\<lambda>(x, t). EvError x t) evs) s'"
    and "sp_mode s' = MClosed"
  shows "sp_log s' = fold (\<lambda>(x, t). wl_add x (time_Unix t)) evs l \<and>
    (evs \<noteq> [] \<longrightarrow> \<not> sp_bad cfg (sp_log s'))"
  using assms
proof (induction evs arbitrary: l)
  case (Cons e evs)
  obtain x t where e: "e = (x, t)" by (cases e)
  let ?l = "wl_add x (time_Unix t) l"
  from Cons.prems(1) e have "sp_run cfg \<lparr>sp_mode = (if sp_bad cfg ?l then MOpen t else MClosed), sp_log = ?l\<rparr>
      (map (\<lambda>(x, t). EvError x t) evs) s'"
    by (auto elim!: sp_closed_errorE)
  moreover from this have good: "\<not> sp_bad cfg ?l"
    using sp_run_open_errors [of cfg t ?l evs s'] Cons.prems(2) by auto
  ultimately have "sp_log s' = fold (\<lambda>(x, t). wl_add x (time_Unix t)) evs ?l \<and>
      (evs \<noteq> [] \<longrightarrow> \<not> sp_bad cfg (sp_log s'))"
    using Cons.IH [of ?l] Cons.prems(2) by auto
  with good e show ?case by (cases evs) auto
qed auto

lemma sp_run_errors_mode:
  "sp_run cfg s (map (\<lambda>(x, t). EvError x t) evs) s' \<Longrightarrow> sp_mode s \<noteq> MProbe \<Longrightarrow> sp_mode s' \<noteq> MProbe"
proof (induction evs arbitrary: s)
  case (Cons e evs)
  obtain x t where e: "e = (x, t)" by (cases e)
  from Cons.prems e obtain s1 where "sp_step cfg s (EvError x t) s1"
    and r: "sp_run cfg s1 (map (\<lambda>(x, t). EvError x t) evs) s'" by auto
  then have "sp_mode s1 \<noteq> MProbe"
    using Cons.prems(2) by (auto elim!: sp_step.cases split: if_splits)
  with r show ?case by (rule Cons.IH)
qed auto

lemma sum_list_ge:
  "(\<forall>x \<in> set xs. (c :: float64) \<le> x) \<Longrightarrow> of_nat (length xs) * c \<le> sum_list xs"
  by (induction xs) (auto simp: algebra_simps)

lemma wl_rate_ge:
  assumes "\<forall>(s, x) \<in> set (wl_recent n l). c \<le> x" and "wl_recent n l \<noteq> []"
  shows "c \<le> fst (wl_rate n l)"
proof -
  have "of_nat (length (wl_recent n l)) * c \<le> sum_list (map snd (wl_recent n l))"
    using sum_list_ge [of "map snd (wl_recent n l)" c] assms(1) by (auto simp: split_def)
  with assms(2) show ?thesis
    by (simp add: wl_rate_def Let_def pos_le_divide_eq mult.commute)
qed

lemma sp_bad_errors:
  assumes "evs \<noteq> []" and "cfg_MinSamples cfg \<le> int (length evs)" and "sorted (map snd evs)"
    and "\<forall>(x, t) \<in> set evs. cfg_ErrorThreshold cfg \<le> x"
    and "\<forall>(x, t) \<in> set evs. time_Unix (snd (last evs)) - int (cfg_span cfg) < time_Unix t"
  shows "sp_bad cfg (fold (\<lambda>(x, t). wl_add x (time_Unix t)) evs wl_empty)"
proof -
  let ?l = "fold (\<lambda>(x, t). wl_add x (time_Unix t)) evs wl_empty"
  have "wl_now ?l = Some (time_Unix (snd (last evs)))"
    using assms(1,3) by (intro wl_now_fold) (simp_all add: wl_empty_def)
  moreover have "wl_events ?l = map (\<lambda>(x, t). (time_Unix t, x)) evs"
    using assms(3) by (intro wl_events_fold) (simp_all add: wl_empty_def)
  moreover have "filter (\<lambda>(x, t). time_Unix (snd (last evs)) - int (cfg_span cfg) < time_Unix t) evs = evs"
    using assms(5) by (simp add: filter_id_conv)
  ultimately have r: "wl_recent (cfg_span cfg) ?l = map (\<lambda>(x, t). (time_Unix t, x)) evs"
    by (simp add: wl_recent_def filter_map o_def split_def)
  have "cfg_ErrorThreshold cfg \<le> fst (wl_rate (cfg_span cfg) ?l)"
    using assms(1,4) by (intro wl_rate_ge) (auto simp: r)
  then show ?thesis
    using assms(2) by (simp add: sp_bad_def wl_rate_samples r)
qed

section \<open>Properties\<close>

text \<open>
  C2. The breaker refines its specification. Every interleaving of \<open>Allow\<close>, \<open>RecordSuccess\<close> and
  \<open>RecordError\<close> calls on a new breaker, with the answers the breaker gives, is a run of the
  specification that keeps the log of outcomes, and ends in the mode and the log the breaker
  stands for. Clock readings may be in any order but lie after the first second of 1970.
\<close>

theorem breaker_refines_spec:
  assumes "brk_run (NewBreaker cfg now) es b" and "\<forall>e \<in> set es. second \<le> ev_time e"
  shows "\<exists>s. sp_run cfg sp_init es s \<and> sp_mode s = brk_mode_of b \<and> win_abs (br_window b) (sp_log s)"
  using brk_rel_run [OF assms(1) brk_rel_init assms(2)] by (auto simp: brk_rel_def)

theorem breaker_refines_spec_witness:
  "\<exists>s. sp_run DefaultConfig sp_init [EvAllow (5 * second) True, EvSuccess (6 * second)] s \<and> sp_mode s = MClosed"
proof -
  let ?b = "NewBreaker DefaultConfig 0"
  have "brk_run ?b [EvAllow (5 * second) True, EvSuccess (6 * second)]
      (RecordSuccess (snd (Allow ?b (5 * second))) (6 * second))"
    by (simp add: Allow_def NewBreaker_def Let_def)
  from breaker_refines_spec [OF this] show ?thesis
    by (auto simp: second_def brk_mode_of_def RecordSuccess_def Allow_def NewBreaker_def Let_def)
qed

text \<open>
  C3. An open breaker fails fast: whatever callers do with clock readings before the end of the
  open timeout, it stays open since the same instant and every \<open>Allow\<close> answers false.
\<close>

theorem open_fails_fast:
  assumes "brk_run b es b'" and "br_state b = StateOpen"
    and "\<forall>e \<in> set es. ev_time e < br_openedAt b + br_openTimeout b"
  shows "br_state b' = StateOpen \<and> br_openedAt b' = br_openedAt b \<and> (\<forall>t. EvAllow t True \<notin> set es)"
  using assms
proof (induction rule: brk_run.induct)
  case (run_cons b e b' es b'')
  have st: "br_state b' = StateOpen \<and> br_openedAt b' = br_openedAt b \<and> (\<forall>t r. e = EvAllow t r \<longrightarrow> \<not> r)"
    using run_cons by (intro brk_step_open) auto
  moreover have "br_openTimeout b' = br_openTimeout b"
    using brk_step_params [OF run_cons.hyps(1)] by simp
  ultimately show ?case using run_cons.IH run_cons.prems by auto
qed simp

definition tripped :: Breaker where
  "tripped = (NewBreaker DefaultConfig 0)\<lparr>br_state := StateOpen, br_openedAt := 100 * second\<rparr>"

theorem open_fails_fast_witness:
  "br_state (snd (Allow (RecordSuccess tripped (101 * second)) (129 * second))) = StateOpen"
proof -
  let ?b = "RecordSuccess tripped (101 * second)"
  have "brk_run tripped [EvSuccess (101 * second), EvAllow (129 * second) (fst (Allow ?b (129 * second)))]
      (snd (Allow ?b (129 * second)))"
    by simp
  from open_fails_fast [OF this] show ?thesis
    by (simp add: tripped_def NewBreaker_def DefaultConfig_def second_def)
qed

text \<open>
  C4. Half-open admits one probe and waits for its outcome: in every state a breaker can reach,
  \<open>probing\<close> holds exactly in half-open, so from half-open every \<open>Allow\<close> answers false, however
  much time passes, until some outcome is recorded.
\<close>

theorem half_open_single_probe:
  assumes "brk_reachable cfg b" and "br_state b = StateHalfOpen"
    and "brk_run b es b'" and "\<forall>e \<in> set es. \<not> is_outcome e"
  shows "br_state b' = StateHalfOpen \<and> (\<forall>t. EvAllow t True \<notin> set es)"
proof -
  have "br_probing b" using brk_reachable_inv [OF assms(1)] assms(2) by (simp add: brk_inv_def)
  with assms(3,2,4) show ?thesis
  proof (induction rule: brk_run.induct)
    case (run_cons b e b' es b'')
    then obtain t r where e: "e = EvAllow t r" by (auto simp: is_outcome_def)
    have "\<not> r \<and> b' = b\<lparr>br_lastUsed := t\<rparr>"
      using brk_step_half_open [OF run_cons.hyps(1)] run_cons.prems e by simp
    with run_cons e show ?case by auto
  qed simp
qed

definition eager :: Config where
  "eager = DefaultConfig\<lparr>cfg_MinSamples := 1\<rparr>"

lemma eager_trips: "brk_mode_of (RecordError (NewBreaker eager 0) 1 (5 * second)) = MOpen (5 * second)"
proof -
  have "sp_bad eager (wl_add 1 (time_Unix (5 * second)) wl_empty)"
    by (simp add: sp_bad_def wl_rate_def wl_recent_def cfg_span_def newSlidingWindow_def eager_def
        DefaultConfig_def wl_empty_def Let_def)
  with RecordError_closed(1) [of "NewBreaker eager 0" wl_empty "5 * second" eager 1] show ?thesis
    by (simp add: NewBreaker_def newSlidingWindow_abs cfg_span_def time_Unix_pos second_def)
qed

lemma brk_mode_open: "brk_mode_of b = MOpen t \<longleftrightarrow> br_state b = StateOpen \<and> br_openedAt b = t"
  by (simp add: brk_mode_of_def split: State.split)

definition probing :: Breaker where
  "probing = snd (Allow (RecordError (NewBreaker eager 0) 1 (5 * second)) (40 * second))"

lemma probing_reached: "brk_reachable eager probing" "br_state probing = StateHalfOpen"
proof -
  let ?b = "RecordError (NewBreaker eager 0) 1 (5 * second)"
  have "brk_run (NewBreaker eager 0) [EvError 1 (5 * second), EvAllow (40 * second) (fst (Allow ?b (40 * second)))]
      probing"
    by (simp add: probing_def)
  then show "brk_reachable eager probing" unfolding brk_reachable_def by blast
  show "br_state probing = StateHalfOpen"
    using eager_trips brk_step_params [OF step_error [of "NewBreaker eager 0" 1 "5 * second"]]
    by (simp add: brk_mode_open probing_def Allow_def time_Sub_def NewBreaker_def eager_def
        DefaultConfig_def second_def Let_def)
qed

theorem half_open_single_probe_witness:
  "br_state probing = StateHalfOpen \<and> \<not> fst (Allow probing (4000 * second))"
proof -
  have "brk_run probing [EvAllow (4000 * second) (fst (Allow probing (4000 * second)))]
      (snd (Allow probing (4000 * second)))"
    by simp
  from half_open_single_probe [OF probing_reached this] probing_reached(2) show ?thesis
    by (cases "fst (Allow probing (4000 * second))") auto
qed

definition just_closed :: "Config \<Rightarrow> Breaker \<Rightarrow> bool" where
  "just_closed cfg b0 \<longleftrightarrow> (\<exists>now. b0 = NewBreaker cfg now) \<or>
     (\<exists>b t. brk_reachable cfg b \<and> br_state b = StateHalfOpen \<and> b0 = RecordSuccess b t)"

lemma brk_reachable_params:
  assumes "brk_reachable cfg b"
  shows "br_threshold b = cfg_ErrorThreshold cfg" "br_minSamples b = cfg_MinSamples cfg"
    "br_openTimeout b = cfg_OpenTimeout cfg" "win_size (br_window b) = cfg_span cfg"
  using assms by (auto simp: brk_reachable_def cfg_span_def NewBreaker_def dest!: brk_run_params)

lemma just_closed_rel:
  assumes "just_closed cfg b0"
  shows "brk_rel cfg b0 sp_init"
  using assms unfolding just_closed_def
proof (elim disjE exE conjE)
  fix now assume "b0 = NewBreaker cfg now"
  then show ?thesis by (simp add: brk_rel_init)
next
  fix b t assume b: "brk_reachable cfg b" "br_state b = StateHalfOpen" "b0 = RecordSuccess b t"
  have "win_wf (win_Record (br_window b) 0 t)"
    using brk_reachable_inv [OF b(1)] by (simp add: brk_inv_def win_wf_Record)
  then show ?thesis
    using b(2) brk_reachable_params [OF b(1)] unfolding b(3)
    by (simp add: brk_rel_def brk_mode_of_def sp_init_def RecordSuccess_def Let_def win_Reset_abs)
qed

text \<open>
  A breaker never trips on too few samples: from a new breaker, and from one that a
  successful probe has just closed, every sequence of calls with fewer than \<open>MinSamples\<close>
  outcomes leaves the breaker closed and admits every request.
\<close>

theorem closed_needs_samples:
  assumes "just_closed cfg b0" and "brk_run b0 es b" and "\<forall>e \<in> set es. second \<le> ev_time e"
    and "int (length (filter is_outcome es)) < cfg_MinSamples cfg"
  shows "br_state b = StateClosed \<and> (\<forall>t. EvAllow t False \<notin> set es)"
proof -
  obtain s where s: "sp_run cfg sp_init es s" "brk_rel cfg b s"
    using brk_rel_run [OF assms(2) just_closed_rel [OF assms(1)] assms(3)] by blast
  with sp_run_few [OF s(1)] assms(4) show ?thesis
    by (auto simp: sp_init_def wl_empty_def brk_rel_def brk_mode_of_def split: State.splits)
qed

theorem closed_needs_samples_witness:
  "br_state (RecordError (RecordError (NewBreaker DefaultConfig 0) 1 (5 * second)) 1 (5 * second)) = StateClosed"
proof -
  let ?b = "NewBreaker DefaultConfig 0"
  have "just_closed DefaultConfig ?b" by (auto simp: just_closed_def)
  moreover have "brk_run ?b [EvError 1 (5 * second), EvError 1 (5 * second)]
      (RecordError (RecordError ?b 1 (5 * second)) 1 (5 * second))"
    by simp
  ultimately have "?thesis \<and> (\<forall>t. EvAllow t False \<notin> set [EvError 1 (5 * second), EvError 1 (5 * second)])"
    by (rule closed_needs_samples) (simp_all add: second_def DefaultConfig_def)
  then show ?thesis by simp
qed

text \<open>
  C5. A failing provider does trip its breaker: at least \<open>MinSamples\<close> (and at least one) errors,
  each of a weight that reaches the threshold, recorded within one window, open a breaker that
  was new or has just been closed by a probe.
\<close>

theorem failing_trips:
  assumes "just_closed cfg b0" and "brk_run b0 (map (\<lambda>(x, t). EvError x t) evs) b"
    and "evs \<noteq> []" and "cfg_MinSamples cfg \<le> int (length evs)" and "sorted (map snd evs)"
    and "\<forall>(x, t) \<in> set evs. second \<le> t \<and> cfg_ErrorThreshold cfg \<le> x
           \<and> time_Unix (snd (last evs)) - int (cfg_span cfg) < time_Unix t"
  shows "br_state b = StateOpen"
proof -
  have "\<forall>e \<in> set (map (\<lambda>(x, t). EvError x t) evs). second \<le> ev_time e"
    using assms(6) by auto
  from brk_rel_run [OF assms(2) just_closed_rel [OF assms(1)] this]
  obtain s where s: "sp_run cfg sp_init (map (\<lambda>(x, t). EvError x t) evs) s" "brk_rel cfg b s" by blast
  have bad: "sp_bad cfg (fold (\<lambda>(x, t). wl_add x (time_Unix t)) evs wl_empty)"
    using assms(6) by (intro sp_bad_errors assms(3,4,5)) auto
  have "sp_mode s \<noteq> MClosed"
    using sp_run_errors_log [OF s(1) [unfolded sp_init_def]] bad assms(3) by auto
  moreover have "sp_mode s \<noteq> MProbe"
    using sp_run_errors_mode [OF s(1)] by (simp add: sp_init_def)
  ultimately show ?thesis
    using s(2) by (auto simp: brk_rel_def brk_mode_of_def split: State.splits)
qed

theorem failing_trips_witness:
  "br_state (RecordError (NewBreaker eager 0) 1 (5 * second)) = StateOpen"
proof -
  have "just_closed eager (NewBreaker eager 0)" by (auto simp: just_closed_def)
  from failing_trips [OF this, of "[(1, 5 * second)]"] show ?thesis
    by (simp add: eager_def DefaultConfig_def cfg_span_def newSlidingWindow_def second_def)
qed

end
