(* ===== verification/Breaker_Registry.thy ===== *)
theory Breaker_Registry
  imports Circuit_Breaker Object_Registry Gateway
begin

text \<open>
  Error classification (\<open>internal/circuitbreaker/classify.go\<close>) and the per-provider registry of
  breakers (\<open>internal/circuitbreaker/registry.go\<close>). The registry interprets
  \<open>object_registry\<close>: an existing breaker always serves.
\<close>

section \<open>Error weights\<close>

definition classifyStatus :: "int \<Rightarrow> float64" where
  "classifyStatus code =
     (if code = 429 then 1 / 2
      else if code \<ge> 500 \<and> code \<le> 504 then 1
      else if code \<ge> 400 \<and> code < 500 then 0
      else 0)"

text \<open>\<open>errors.As\<close> with a \<open>net.OpError\<close> target.\<close>

fun errors_As_OpError :: "goerror \<Rightarrow> bool" where
  "errors_As_OpError (NetOpError m e) = True"
| "errors_As_OpError (Wrapf m es) = (\<exists>e \<in> set es. errors_As_OpError e)"
| "errors_As_OpError e = False"

definition ClassifyError :: "goerror option \<Rightarrow> float64" where
  "ClassifyError e =
     (case e of
        None \<Rightarrow> 0
      | Some err \<Rightarrow>
          if errors_Is err DeadlineExceeded \<or> errors_Is err OsDeadlineExceeded then 3 / 2
          else case errors_As_HTTPStatus err of
            Some code \<Rightarrow> classifyStatus code
          | None \<Rightarrow> if errors_As_OpError err then 1 else 1)"

lemma ClassifyError_bounds: "0 \<le> ClassifyError e \<and> ClassifyError e \<le> 3 / 2"
  by (auto simp: ClassifyError_def classifyStatus_def split: option.splits)

text \<open>Exactly the errors with a status outside 429 and 500 to 504 weigh nothing.\<close>

lemma ClassifyError_zero:
  "ClassifyError (Some err) = 0 \<longleftrightarrow>
     \<not> errors_Is err DeadlineExceeded \<and> \<not> errors_Is err OsDeadlineExceeded \<and>
     (\<exists>code. errors_As_HTTPStatus err = Some code \<and> code \<noteq> 429 \<and> \<not> (500 \<le> code \<and> code \<le> 504))"
  by (auto simp: ClassifyError_def classifyStatus_def split: option.splits)

section \<open>The registry\<close>

record breaker_Registry =
  cbr_breakers :: "Breaker pmap"
  cbr_config :: Config

definition cb_NewRegistry :: "Config \<Rightarrow> breaker_Registry" where
  "cb_NewRegistry cfg = \<lparr>cbr_breakers = pm_empty, cbr_config = cfg\<rparr>"

definition cb_Get :: "breaker_Registry \<Rightarrow> string \<Rightarrow> nat option" where
  "cb_Get r providerID = pm_ptr (cbr_breakers r) providerID"

text \<open>The body of \<open>GetOrCreate\<close> on the map, with the configuration of the registry; the check
  under the read lock and the one under the write lock see the same map unless another caller
  created the breaker in between, in which case the second check returns that breaker.\<close>

definition breaker_goc :: "Config \<Rightarrow> string \<Rightarrow> unit \<Rightarrow> gotime \<Rightarrow> Breaker pmap \<Rightarrow> nat \<times> Breaker pmap" where
  "breaker_goc cfg providerID u now m =
     (case pm_ptr m providerID of
        Some b \<Rightarrow> (b, m)
      | None \<Rightarrow> pm_alloc providerID (NewBreaker cfg now) m)"

definition cb_GetOrCreate :: "breaker_Registry \<Rightarrow> string \<Rightarrow> gotime \<Rightarrow> nat \<times> breaker_Registry" where
  "cb_GetOrCreate r providerID now =
     (case breaker_goc (cbr_config r) providerID () now (cbr_breakers r) of
        (b, m) \<Rightarrow> (b, r\<lparr>cbr_breakers := m\<rparr>))"

definition breaker_stale :: "gotime \<Rightarrow> Breaker \<Rightarrow> bool" where
  "breaker_stale cutoff b = time_Before (Breaker_LastUsed b) cutoff"

text \<open>\<open>r'\<close> is the registry when the write lock is taken.\<close>

definition cb_EvictStale ::
  "gotime \<Rightarrow> string list \<Rightarrow> breaker_Registry \<Rightarrow> breaker_Registry \<Rightarrow> nat \<times> breaker_Registry" where
  "cb_EvictStale cutoff order r r' =
     (let staleKeys = evict_scan (breaker_stale cutoff) order (cbr_breakers r) in
      if staleKeys = [] then (0, r')
      else case evict_delete (breaker_stale cutoff) staleKeys (0, cbr_breakers r') of
        (evicted, m) \<Rightarrow> (evicted, r'\<lparr>cbr_breakers := m\<rparr>))"

interpretation breakers: object_registry "breaker_goc cfg" "\<lambda>b u. True" Breaker_LastUsed for cfg
proof unfold_locales
  fix r :: "Breaker pmap" and k a and now :: gotime
  assume miss: "\<And>p. pm_ptr r k = Some p \<Longrightarrow> \<not> True"
  then show "\<exists>v. True \<and> Breaker_LastUsed v = now \<and> breaker_goc cfg k a now r = pm_alloc k v r"
    by (intro exI [of _ "NewBreaker cfg now"])
      (auto simp: breaker_goc_def Breaker_LastUsed_def NewBreaker_def split: option.split)
qed (simp add: breaker_goc_def)

lemma LastUsed_eq: "Breaker_LastUsed = br_lastUsed"
  by (simp add: fun_eq_iff Breaker_LastUsed_def)

lemma cb_EvictStale_eq:
  "cb_EvictStale cutoff order r r' =
     (let (n, m) = breakers.evict cutoff order (cbr_breakers r) (cbr_breakers r')
      in (n, r'\<lparr>cbr_breakers := m\<rparr>))"
proof -
  have "breaker_stale cutoff = (\<lambda>v. time_Before (Breaker_LastUsed v) cutoff)"
    by (simp add: fun_eq_iff breaker_stale_def)
  then show ?thesis
    by (auto simp: cb_EvictStale_def breakers.evict_def Let_def)
qed

section \<open>Operations through the registry\<close>

text \<open>A caller that holds the pointer \<open>p\<close> runs an operation on the object it points to.\<close>

definition cb_Allow :: "nat \<Rightarrow> gotime \<Rightarrow> breaker_Registry \<Rightarrow> bool \<times> breaker_Registry" where
  "cb_Allow p now r =
     (case Allow (pm_obj (cbr_breakers r) p) now of
        (ok, b) \<Rightarrow> (ok, r\<lparr>cbr_breakers := pm_write p b (cbr_breakers r)\<rparr>))"

definition cb_RecordSuccess :: "nat \<Rightarrow> gotime \<Rightarrow> breaker_Registry \<Rightarrow> breaker_Registry" where
  "cb_RecordSuccess p now r =
     r\<lparr>cbr_breakers := pm_write p (RecordSuccess (pm_obj (cbr_breakers r) p) now) (cbr_breakers r)\<rparr>"

definition cb_RecordError :: "nat \<Rightarrow> float64 \<Rightarrow> gotime \<Rightarrow> breaker_Registry \<Rightarrow> breaker_Registry" where
  "cb_RecordError p w now r =
     r\<lparr>cbr_breakers := pm_write p (RecordError (pm_obj (cbr_breakers r) p) w now) (cbr_breakers r)\<rparr>"

text \<open>The breaker of a provider, as the next \<open>GetOrCreate\<close> will see it.\<close>

definition breaker_of :: "breaker_Registry \<Rightarrow> string \<Rightarrow> Breaker option" where
  "breaker_of r providerID = pm_lookup (cbr_breakers r) providerID"

definition cbr_wf :: "breaker_Registry \<Rightarrow> bool" where
  "cbr_wf r \<longleftrightarrow> pm_wf (cbr_breakers r)"

lemma cbr_wf_new [simp]: "cbr_wf (cb_NewRegistry cfg)"
  by (simp add: cbr_wf_def cb_NewRegistry_def)

section \<open>Properties\<close>

text \<open>
  Evicting idle breakers: whatever happens to the registry between the scan and the
  deletion, a breaker used at or after the cutoff by the time of the deletion survives with its
  state; and when nothing intervenes, exactly the breakers last used before the cutoff are
  removed, and the number returned is how many there were.
\<close>

theorem evict_stale_breakers:
  "(breaker_of r' k = Some b \<and> cutoff \<le> br_lastUsed b \<longrightarrow>
      breaker_of (snd (cb_EvictStale cutoff order r r')) k = Some b) \<and>
   (set order = dom (breaker_of r) \<and> distinct order \<longrightarrow>
      breaker_of (snd (cb_EvictStale cutoff order r r)) =
        (\<lambda>k. case breaker_of r k of
           Some b \<Rightarrow> if br_lastUsed b < cutoff then None else Some b | None \<Rightarrow> None) \<and>
      fst (cb_EvictStale cutoff order r r) = card {k. \<exists>b. breaker_of r k = Some b \<and> br_lastUsed b < cutoff})"
proof (intro conjI impI; (elim conjE)?)
  show "breaker_of (snd (cb_EvictStale cutoff order r r')) k = Some b"
    if "breaker_of r' k = Some b" "cutoff \<le> br_lastUsed b"
    using breakers.evict_keeps_fresh [of "cbr_breakers r'" k b cutoff order "cbr_breakers r"] that
    by (simp add: cb_EvictStale_eq breaker_of_def LastUsed_eq split_def Let_def)
next
  assume o: "set order = dom (breaker_of r)" and d: "distinct order"
  from o have o': "set order = dom (pm_lookup (cbr_breakers r))"
    by (simp add: breaker_of_def dom_def)
  show "breaker_of (snd (cb_EvictStale cutoff order r r)) = (\<lambda>k. case breaker_of r k of
           Some b \<Rightarrow> if br_lastUsed b < cutoff then None else Some b | None \<Rightarrow> None)"
    using breakers.evict_all [OF o', of cutoff, unfolded LastUsed_eq]
    by (simp add: cb_EvictStale_eq breaker_of_def fun_eq_iff LastUsed_eq split_def Let_def)
  show "fst (cb_EvictStale cutoff order r r) = card {k. \<exists>b. breaker_of r k = Some b \<and> br_lastUsed b < cutoff}"
    using breakers.evict_count [OF o' d, of cutoff]
    by (simp add: cb_EvictStale_eq breaker_of_def LastUsed_eq split_def Let_def)
qed

definition two_breakers :: breaker_Registry where
  "two_breakers = snd (cb_GetOrCreate (snd (cb_GetOrCreate (cb_NewRegistry DefaultConfig) ''a'' 10)) ''b'' 50)"

lemma two_breakers_of:
  "breaker_of two_breakers = [''a'' \<mapsto> NewBreaker DefaultConfig 10, ''b'' \<mapsto> NewBreaker DefaultConfig 50]"
  by (auto simp: fun_eq_iff breaker_of_def two_breakers_def cb_GetOrCreate_def breaker_goc_def
      cb_NewRegistry_def pm_empty_def pm_alloc_def pm_lookup_def pm_obj_def)

theorem evict_stale_breakers_witness:
  "breaker_of (snd (cb_EvictStale 20 [''a'', ''b''] two_breakers two_breakers)) ''b'' =
     Some (NewBreaker DefaultConfig 50) \<and>
   breaker_of (snd (cb_EvictStale 20 [''a'', ''b''] two_breakers two_breakers)) ''a'' = None"
proof -
  have "set [''a'', ''b''] = dom (breaker_of two_breakers)"
    by (auto simp: two_breakers_of)
  then show ?thesis
    using evict_stale_breakers [of two_breakers "''a''" "NewBreaker DefaultConfig 10" 20 "[''a'', ''b'']" two_breakers]
    by (simp add: two_breakers_of NewBreaker_def)
qed

end
