(* ===== verification/Proxy_Service.thy ===== *)
theory Proxy_Service
  imports Router Breaker_Registry "HOL-Library.List_Lexorder" "HOL-Library.Char_ord"
begin

text \<open>
  The provider registry (\<open>internal/provider/provider.go\<close>) and the proxy service with its priority
  failover (\<open>internal/app/proxy.go\<close>). A provider is whatever the registry holds; a call of one is
  an argument of the loop, as are the clock readings of the breaker operations around it, both
  by the position of the target. The three entry points differ in the request and response
  types and in the call, so they are instances of one loop.
\<close>

section \<open>The provider registry\<close>

type_synonym 'p provider_Registry = "string \<rightharpoonup> 'p"

definition pr_NewRegistry :: "'p provider_Registry" where
  "pr_NewRegistry = Map.empty"

definition pr_Register :: "string \<Rightarrow> 'p \<Rightarrow> 'p provider_Registry \<Rightarrow> 'p provider_Registry" where
  "pr_Register name p r = r(name \<mapsto> p)"

definition pr_Get :: "'p provider_Registry \<Rightarrow> string \<Rightarrow> goerror + 'p" where
  "pr_Get r name =
     (case r name of
        None \<Rightarrow> Inl (ErrorString (''provider '' @ fmt_q name @ '' not registered''))
      | Some p \<Rightarrow> Inr p)"

text \<open>\<open>order\<close> is the order in which Go ranges over the map.\<close>

definition pr_GetByType :: "('p \<Rightarrow> string) \<Rightarrow> string list \<Rightarrow> 'p provider_Registry \<Rightarrow> string \<Rightarrow> goerror + 'p" where
  "pr_GetByType Type order r typeName =
     (case filter (\<lambda>n. case r n of Some p \<Rightarrow> Type p = typeName | None \<Rightarrow> False) order of
        n # _ \<Rightarrow> Inr (the (r n))
      | [] \<Rightarrow> Inl (ErrorString (''no provider of type '' @ fmt_q typeName @ '' registered'')))"

definition pr_List :: "string list \<Rightarrow> 'p provider_Registry \<Rightarrow> string list" where
  "pr_List order r = sort (filter (\<lambda>n. r n \<noteq> None) order)"

section \<open>Client errors\<close>

definition isClientError :: "goerror \<Rightarrow> bool" where
  "isClientError err =
     (case errors_As_HTTPStatus err of
        Some code \<Rightarrow> code \<ge> 400 \<and> code < 500
      | None \<Rightarrow>
          errors_Is err (Sentinel ErrBadRequest) \<or> errors_Is err (Sentinel ErrUnauthorized) \<or>
          errors_Is err (Sentinel ErrForbidden) \<or> errors_Is err (Sentinel ErrModelNotAllowed) \<or>
          errors_Is err (Sentinel ErrKeyExpired) \<or> errors_Is err (Sentinel ErrKeyBlocked))"

text \<open>Besides the log entry, \<open>failoverErr\<close> decides whether the error ends the loop.\<close>

definition failoverErr :: "goerror \<Rightarrow> goerror option" where
  "failoverErr err = (if isClientError err then Some err else None)"

section \<open>Breaker bookkeeping\<close>

text \<open>A nil registry disables the breakers.\<close>

definition breaker_admits ::
  "breaker_Registry option \<Rightarrow> string \<Rightarrow> gotime \<Rightarrow> bool \<times> breaker_Registry option" where
  "breaker_admits brs providerID now =
     (case brs of
        None \<Rightarrow> (True, None)
      | Some r \<Rightarrow>
          (case cb_Get r providerID of
             None \<Rightarrow> (True, Some r)
           | Some cb \<Rightarrow> (case cb_Allow cb now r of (ok, r) \<Rightarrow> (ok, Some r))))"

text \<open>\<open>t_new\<close> is read if \<open>GetOrCreate\<close> has to create the breaker, \<open>t_rec\<close> by the record operation.\<close>

definition recordBreakerSuccess ::
  "breaker_Registry option \<Rightarrow> string \<Rightarrow> gotime \<Rightarrow> gotime \<Rightarrow> breaker_Registry option" where
  "recordBreakerSuccess brs providerID t_new t_rec =
     (case brs of
        None \<Rightarrow> None
      | Some r \<Rightarrow> (case cb_GetOrCreate r providerID t_new of (cb, r) \<Rightarrow> Some (cb_RecordSuccess cb t_rec r)))"

definition recordBreakerError ::
  "breaker_Registry option \<Rightarrow> string \<Rightarrow> goerror \<Rightarrow> gotime \<Rightarrow> gotime \<Rightarrow> breaker_Registry option" where
  "recordBreakerError brs providerID err t_new t_rec =
     (case brs of
        None \<Rightarrow> None
      | Some r \<Rightarrow>
          let weight = ClassifyError (Some err) in
          if weight > 0
          then (case cb_GetOrCreate r providerID t_new of (cb, r) \<Rightarrow> Some (cb_RecordError cb weight t_rec r))
          else Some r)"

section \<open>The failover loop\<close>

text \<open>
  The environment of a loop: the registered providers, the answer of the provider called for the
  \<open>n\<close>-th target, access to the model field of the request, and the clock readings.
\<close>

record ('p, 'q, 'r) proxy_env =
  pe_providers :: "'p provider_Registry"
  pe_call :: "nat \<Rightarrow> 'p \<Rightarrow> 'q \<Rightarrow> goerror + 'r"
  pe_model :: "'q \<Rightarrow> string"
  pe_set_model :: "string \<Rightarrow> 'q \<Rightarrow> 'q"
  pe_t_allow :: "nat \<Rightarrow> gotime"
  pe_t_new :: "nat \<Rightarrow> gotime"
  pe_t_rec :: "nat \<Rightarrow> gotime"

text \<open>The outcome: the error (nil only when there are no targets) or the response, the request
  as the caller finds it afterwards, the breakers, and the calls made: position
  of the target, provider, request, answer.\<close>

record ('q, 'r) proxy_outcome =
  po_result :: "goerror option + 'r"
  po_req :: 'q
  po_breakers :: "breaker_Registry option"
  po_calls :: "(nat \<times> string \<times> 'q \<times> (goerror + 'r)) list"

fun failover ::
  "('p, 'q, 'r) proxy_env \<Rightarrow> nat \<Rightarrow> ResolvedTarget list \<Rightarrow> goerror option \<Rightarrow> 'q \<Rightarrow> breaker_Registry option
     \<Rightarrow> ('q, 'r) proxy_outcome" where
  "failover env n [] lastErr req brs =
     \<lparr>po_result = Inl lastErr, po_req = req, po_breakers = brs, po_calls = []\<rparr>"
| "failover env n (target # targets) lastErr req brs =
     (case breaker_admits brs (rtg_ProviderID target) (pe_t_allow env n) of
        (False, brs) \<Rightarrow>
          failover env (n + 1) targets
            (Some (Wrapf (''circuit breaker open for '' @ rtg_ProviderID target) [Sentinel ErrProviderError])) req brs
      | (True, brs) \<Rightarrow>
          (case pr_Get (pe_providers env) (rtg_ProviderID target) of
             Inl err \<Rightarrow> failover env (n + 1) targets (Some (Wrapf '''' [Sentinel ErrProviderError, err])) req brs
           | Inr p \<Rightarrow>
               let origModel = pe_model env req;
                   sent = pe_set_model env (rtg_Model target) req;
                   restored = pe_set_model env origModel sent;
                   answer = pe_call env n p sent;
                   made = (n, rtg_ProviderID target, sent, answer)
               in case answer of
                 Inl err \<Rightarrow>
                   let brs = recordBreakerError brs (rtg_ProviderID target) err (pe_t_new env n) (pe_t_rec env n) in
                   (case failoverErr err of
                      Some lastErr \<Rightarrow>
                        \<lparr>po_result = Inl (Some lastErr), po_req = restored, po_breakers = brs, po_calls = [made]\<rparr>
                    | None \<Rightarrow>
                        let out = failover env (n + 1) targets (Some (Wrapf '''' [Sentinel ErrProviderError, err]))
                                    restored brs
                        in out\<lparr>po_calls := made # po_calls out\<rparr>)
               | Inr resp \<Rightarrow>
                   \<lparr>po_result = Inr resp, po_req = restored,
                    po_breakers = recordBreakerSuccess brs (rtg_ProviderID target) (pe_t_new env n) (pe_t_rec env n),
                    po_calls = [made]\<rparr>))"

definition proxied ::
  "('p, 'q, 'r) proxy_env \<Rightarrow> goerror + ResolvedTarget list \<Rightarrow> 'q \<Rightarrow> breaker_Registry option \<Rightarrow> ('q, 'r) proxy_outcome" where
  "proxied env resolved req brs =
     (case resolved of
        Inl err \<Rightarrow> \<lparr>po_result = Inl (Some err), po_req = req, po_breakers = brs, po_calls = []\<rparr>
      | Inr targets \<Rightarrow> failover env 0 targets None req brs)"

section \<open>The entry points\<close>

text \<open>Each resolves the requested model first; \<open>now\<close> is the cache's clock and \<open>cache\<close> the router's.\<close>

definition chat_env ::
  "'p provider_Registry \<Rightarrow> (nat \<Rightarrow> 'p \<Rightarrow> ChatRequest \<Rightarrow> goerror + 'r)
     \<Rightarrow> (nat \<Rightarrow> gotime) \<Rightarrow> (nat \<Rightarrow> gotime) \<Rightarrow> (nat \<Rightarrow> gotime) \<Rightarrow> ('p, ChatRequest, 'r) proxy_env" where
  "chat_env ps call ta tn tr =
     \<lparr>pe_providers = ps, pe_call = call, pe_model = req_Model, pe_set_model = (\<lambda>m r. r\<lparr>req_Model := m\<rparr>),
      pe_t_allow = ta, pe_t_new = tn, pe_t_rec = tr\<rparr>"

definition ChatCompletion where
  "ChatCompletion ops store now cache ps call ta tn tr (req :: ChatRequest) brs =
     (case ResolveModel ops store now (req_Model req) cache of (resolved, cache) \<Rightarrow>
        (proxied (chat_env ps (call :: nat \<Rightarrow> 'p \<Rightarrow> ChatRequest \<Rightarrow> goerror + ChatResponse) ta tn tr) resolved req brs,
         cache))"

text \<open>The response is the channel of chunks that the provider opened.\<close>

definition ChatCompletionStream where
  "ChatCompletionStream ops store now cache ps call ta tn tr (req :: ChatRequest) brs =
     (case ResolveModel ops store now (req_Model req) cache of (resolved, cache) \<Rightarrow>
        (proxied (chat_env ps (call :: nat \<Rightarrow> 'p \<Rightarrow> ChatRequest \<Rightarrow> goerror + StreamChunk list) ta tn tr) resolved req brs,
         cache))"

definition emb_env ::
  "'p provider_Registry \<Rightarrow> (nat \<Rightarrow> 'p \<Rightarrow> EmbeddingRequest \<Rightarrow> goerror + EmbeddingResponse)
     \<Rightarrow> (nat \<Rightarrow> gotime) \<Rightarrow> (nat \<Rightarrow> gotime) \<Rightarrow> (nat \<Rightarrow> gotime)
     \<Rightarrow> ('p, EmbeddingRequest, EmbeddingResponse) proxy_env" where
  "emb_env ps call ta tn tr =
     \<lparr>pe_providers = ps, pe_call = call, pe_model = emb_Model, pe_set_model = (\<lambda>m r. r\<lparr>emb_Model := m\<rparr>),
      pe_t_allow = ta, pe_t_new = tn, pe_t_rec = tr\<rparr>"

definition Embeddings where
  "Embeddings ops store now cache ps call ta tn tr req brs =
     (case ResolveModel ops store now (emb_Model req) cache of (resolved, cache) \<Rightarrow>
        (proxied (emb_env ps call ta tn tr) resolved req brs, cache))"

text \<open>Providers that fail to list their models are skipped.\<close>

definition ListModels :: "string list \<Rightarrow> 'p provider_Registry \<Rightarrow> ('p \<Rightarrow> goerror + string list) \<Rightarrow> string list" where
  "ListModels order ps list_models =
     concat (map (\<lambda>name.
       case pr_Get ps name of
         Inl err \<Rightarrow> []
       | Inr p \<Rightarrow> (case list_models p of Inl err \<Rightarrow> [] | Inr models \<Rightarrow> models)) (pr_List order ps))"

section \<open>Breakers around a call\<close>

text \<open>The breakers of a service: the one of a provider, and well-formedness.\<close>

definition breaker_in :: "breaker_Registry option \<Rightarrow> string \<Rightarrow> Breaker option" where
  "breaker_in brs k = (case brs of None \<Rightarrow> None | Some r \<Rightarrow> breaker_of r k)"

definition brs_wf :: "breaker_Registry option \<Rightarrow> bool" where
  "brs_wf brs \<longleftrightarrow> (case brs of None \<Rightarrow> True | Some r \<Rightarrow> cbr_wf r)"

lemma brs_simps [simp]:
  "breaker_in None k = None" "breaker_in (Some r) k = breaker_of r k" "brs_wf None" "brs_wf (Some r) = cbr_wf r"
  by (simp_all add: breaker_in_def brs_wf_def)

lemma breaker_of_write:
  assumes "pm_wf (cbr_breakers r)" and "pm_ptr (cbr_breakers r) k = Some p"
  shows "breaker_of (r\<lparr>cbr_breakers := pm_write p b (cbr_breakers r)\<rparr>) = (breaker_of r)(k \<mapsto> b)"
  using pm_lookup_write [OF assms, of b] by (simp add: breaker_of_def fun_eq_iff)

lemma breaker_of_goc:
  assumes "cbr_wf r" and "cb_GetOrCreate r k now = (p, r')"
  shows "cbr_wf r'" "pm_ptr (cbr_breakers r') k = Some p" "cbr_config r' = cbr_config r"
    "breaker_of r' = (breaker_of r)(k \<mapsto> (case breaker_of r k of Some b \<Rightarrow> b | None \<Rightarrow> NewBreaker (cbr_config r) now))"
    "pm_obj (cbr_breakers r') p = (case breaker_of r k of Some b \<Rightarrow> b | None \<Rightarrow> NewBreaker (cbr_config r) now)"
proof -
  have r': "r' = r\<lparr>cbr_breakers := snd (breaker_goc (cbr_config r) k () now (cbr_breakers r))\<rparr>"
    and p: "p = fst (breaker_goc (cbr_config r) k () now (cbr_breakers r))"
    using assms(2) by (auto simp: cb_GetOrCreate_def split: prod.splits)
  have wf: "pm_wf (cbr_breakers r)" using assms(1) by (simp add: cbr_wf_def)
  show "cbr_wf r'" using breakers.goc_wf [OF wf] by (simp add: cbr_wf_def r')
  show ptr: "pm_ptr (cbr_breakers r') k = Some p" using breakers.goc_ptr [OF wf, of "cbr_config r" k "()" now] by (simp add: r' p)
  show "cbr_config r' = cbr_config r" by (simp add: r')
  show eq: "breaker_of r' = (breaker_of r)(k \<mapsto> (case breaker_of r k of Some b \<Rightarrow> b | None \<Rightarrow> NewBreaker (cbr_config r) now))"
    using pm_lookup_alloc [OF wf, of k "NewBreaker (cbr_config r) now"]
    by (cases "pm_ptr (cbr_breakers r) k")
      (auto simp: breaker_of_def r' breaker_goc_def fun_eq_iff pm_lookup_def)
  show "pm_obj (cbr_breakers r') p = (case breaker_of r k of Some b \<Rightarrow> b | None \<Rightarrow> NewBreaker (cbr_config r) now)"
    using fun_cong [OF eq, of k] ptr by (simp add: breaker_of_def pm_lookup_def)
qed

text \<open>Each of the three operations touches the breaker of its own provider only.\<close>

lemma breaker_admits_spec:
  assumes "brs_wf brs" and "breaker_admits brs k now = (ok, brs')"
  shows "brs_wf brs'" "\<And>k'. k' \<noteq> k \<Longrightarrow> breaker_in brs' k' = breaker_in brs k'"
    "case breaker_in brs k of None \<Rightarrow> ok \<and> brs' = brs
     | Some b \<Rightarrow> ok = fst (Allow b now) \<and> breaker_in brs' k = Some (snd (Allow b now))"
proof -
  have "brs_wf brs' \<and> (\<forall>k'. k' \<noteq> k \<longrightarrow> breaker_in brs' k' = breaker_in brs k') \<and>
    (case breaker_in brs k of None \<Rightarrow> ok \<and> brs' = brs
     | Some b \<Rightarrow> ok = fst (Allow b now) \<and> breaker_in brs' k = Some (snd (Allow b now)))"
  proof (cases brs)
    case (Some r)
    show ?thesis
    proof (cases "pm_ptr (cbr_breakers r) k")
      case None
      with assms Some show ?thesis by (auto simp: breaker_admits_def cb_Get_def breaker_of_def pm_lookup_def)
    next
      case (Some p)
      let ?b = "pm_obj (cbr_breakers r) p"
      have wf: "pm_wf (cbr_breakers r)" using assms(1) \<open>brs = Some r\<close> by (simp add: cbr_wf_def)
      have "brs' = Some (r\<lparr>cbr_breakers := pm_write p (snd (Allow ?b now)) (cbr_breakers r)\<rparr>)" "ok = fst (Allow ?b now)"
        using assms(2) Some \<open>brs = Some r\<close> by (auto simp: breaker_admits_def cb_Get_def cb_Allow_def split: prod.splits)
      moreover have "breaker_of r k = Some ?b" using Some by (simp add: breaker_of_def pm_lookup_def)
      ultimately show ?thesis
        using wf breaker_of_write [OF wf Some] \<open>brs = Some r\<close> by (simp add: cbr_wf_def)
    qed
  qed (use assms in \<open>simp add: breaker_admits_def\<close>)
  then show "brs_wf brs'" "\<And>k'. k' \<noteq> k \<Longrightarrow> breaker_in brs' k' = breaker_in brs k'"
    "case breaker_in brs k of None \<Rightarrow> ok \<and> brs' = brs
     | Some b \<Rightarrow> ok = fst (Allow b now) \<and> breaker_in brs' k = Some (snd (Allow b now))"
    by blast+
qed

lemma recordBreakerSuccess_spec:
  assumes "brs_wf brs"
  shows "brs_wf (recordBreakerSuccess brs k tn tr)"
    "k' \<noteq> k \<Longrightarrow> breaker_in (recordBreakerSuccess brs k tn tr) k' = breaker_in brs k'"
    "breaker_in brs k = Some b \<Longrightarrow> breaker_in (recordBreakerSuccess brs k tn tr) k = Some (RecordSuccess b tr)"
proof -
  have "brs_wf (recordBreakerSuccess brs k tn tr) \<and>
    (k' \<noteq> k \<longrightarrow> breaker_in (recordBreakerSuccess brs k tn tr) k' = breaker_in brs k') \<and>
    (breaker_in brs k = Some b \<longrightarrow> breaker_in (recordBreakerSuccess brs k tn tr) k = Some (RecordSuccess b tr))"
  proof (cases brs)
    case (Some r)
    obtain p r' where goc: "cb_GetOrCreate r k tn = (p, r')" by (cases "cb_GetOrCreate r k tn")
    note g = breaker_of_goc [OF _ goc]
    have wf: "cbr_wf r" using assms Some by simp
    show ?thesis
      using g(1) [OF wf] breaker_of_write [OF _ g(2) [OF wf]] g(4,5) [OF wf]
      by (auto simp: Some recordBreakerSuccess_def goc cb_RecordSuccess_def cbr_wf_def)
  qed (simp add: recordBreakerSuccess_def)
  then show "brs_wf (recordBreakerSuccess brs k tn tr)"
    "k' \<noteq> k \<Longrightarrow> breaker_in (recordBreakerSuccess brs k tn tr) k' = breaker_in brs k'"
    "breaker_in brs k = Some b \<Longrightarrow> breaker_in (recordBreakerSuccess brs k tn tr) k = Some (RecordSuccess b tr)"
    by blast+
qed

lemma recordBreakerError_spec:
  assumes "brs_wf brs"
  shows "brs_wf (recordBreakerError brs k err tn tr)"
    "k' \<noteq> k \<Longrightarrow> breaker_in (recordBreakerError brs k err tn tr) k' = breaker_in brs k'"
    "breaker_in brs k = Some b \<Longrightarrow> breaker_in (recordBreakerError brs k err tn tr) k =
       Some (if ClassifyError (Some err) > 0 then RecordError b (ClassifyError (Some err)) tr else b)"
proof -
  have "brs_wf (recordBreakerError brs k err tn tr) \<and>
    (k' \<noteq> k \<longrightarrow> breaker_in (recordBreakerError brs k err tn tr) k' = breaker_in brs k') \<and>
    (breaker_in brs k = Some b \<longrightarrow> breaker_in (recordBreakerError brs k err tn tr) k =
       Some (if ClassifyError (Some err) > 0 then RecordError b (ClassifyError (Some err)) tr else b))"
  proof (cases brs)
    case (Some r)
    obtain p r' where goc: "cb_GetOrCreate r k tn = (p, r')" by (cases "cb_GetOrCreate r k tn")
    note g = breaker_of_goc [OF _ goc]
    have wf: "cbr_wf r" using assms Some by simp
    show ?thesis
      using g(1) [OF wf] breaker_of_write [OF _ g(2) [OF wf]] g(4,5) [OF wf] wf
      by (auto simp: Some recordBreakerError_def goc cb_RecordError_def cbr_wf_def Let_def)
  qed (simp add: recordBreakerError_def)
  then show "brs_wf (recordBreakerError brs k err tn tr)"
    "k' \<noteq> k \<Longrightarrow> breaker_in (recordBreakerError brs k err tn tr) k' = breaker_in brs k'"
    "breaker_in brs k = Some b \<Longrightarrow> breaker_in (recordBreakerError brs k err tn tr) k =
       Some (if ClassifyError (Some err) > 0 then RecordError b (ClassifyError (Some err)) tr else b)"
    by blast+
qed

section \<open>The loop\<close>

definition model_lens :: "('p, 'q, 'r) proxy_env \<Rightarrow> bool" where
  "model_lens env \<longleftrightarrow>
     (\<forall>m m' q. pe_set_model env m (pe_set_model env m' q) = pe_set_model env m q) \<and>
     (\<forall>q. pe_set_model env (pe_model env q) q = q)"

lemma model_lens_env [simp]: "model_lens (chat_env ps call ta tn tr)" "model_lens (emb_env ps call2 ta tn tr)"
  by (simp_all add: model_lens_def chat_env_def emb_env_def)

lemma model_restored: "model_lens env \<Longrightarrow> pe_set_model env (pe_model env q) (pe_set_model env m q) = q"
  by (simp add: model_lens_def)

text \<open>The four ways to go through one target, once for all proofs about the loop.\<close>

lemma failover_cases:
  assumes "model_lens env"
  obtains
    (rejected) brs' err where "breaker_admits brs (rtg_ProviderID t) (pe_t_allow env n) = (False, brs')"
      "errors_Is err (Sentinel ErrProviderError)"
      "failover env n (t # ts) e req brs = failover env (n + 1) ts (Some err) req brs'"
  | (missing) brs' err where "breaker_admits brs (rtg_ProviderID t) (pe_t_allow env n) = (True, brs')"
      "pe_providers env (rtg_ProviderID t) = None" "errors_Is err (Sentinel ErrProviderError)"
      "failover env n (t # ts) e req brs = failover env (n + 1) ts (Some err) req brs'"
  | (retried) brs' p err err' where "breaker_admits brs (rtg_ProviderID t) (pe_t_allow env n) = (True, brs')"
      "pe_providers env (rtg_ProviderID t) = Some p"
      "pe_call env n p (pe_set_model env (rtg_Model t) req) = Inl err" "\<not> isClientError err"
      "errors_Is err' (Sentinel ErrProviderError)"
      "failover env n (t # ts) e req brs =
        (failover env (n + 1) ts (Some err') req
          (recordBreakerError brs' (rtg_ProviderID t) err (pe_t_new env n) (pe_t_rec env n)))
        \<lparr>po_calls := (n, rtg_ProviderID t, pe_set_model env (rtg_Model t) req, Inl err)
          # po_calls (failover env (n + 1) ts (Some err') req
              (recordBreakerError brs' (rtg_ProviderID t) err (pe_t_new env n) (pe_t_rec env n)))\<rparr>"
  | (client) brs' p err where "breaker_admits brs (rtg_ProviderID t) (pe_t_allow env n) = (True, brs')"
      "pe_providers env (rtg_ProviderID t) = Some p"
      "pe_call env n p (pe_set_model env (rtg_Model t) req) = Inl err" "isClientError err"
      "failover env n (t # ts) e req brs =
        \<lparr>po_result = Inl (Some err), po_req = req,
         po_breakers = recordBreakerError brs' (rtg_ProviderID t) err (pe_t_new env n) (pe_t_rec env n),
         po_calls = [(n, rtg_ProviderID t, pe_set_model env (rtg_Model t) req, Inl err)]\<rparr>"
  | (success) brs' p resp where "breaker_admits brs (rtg_ProviderID t) (pe_t_allow env n) = (True, brs')"
      "pe_providers env (rtg_ProviderID t) = Some p"
      "pe_call env n p (pe_set_model env (rtg_Model t) req) = Inr resp"
      "failover env n (t # ts) e req brs =
        \<lparr>po_result = Inr resp, po_req = req,
         po_breakers = recordBreakerSuccess brs' (rtg_ProviderID t) (pe_t_new env n) (pe_t_rec env n),
         po_calls = [(n, rtg_ProviderID t, pe_set_model env (rtg_Model t) req, Inr resp)]\<rparr>"
proof -
  obtain ok brs' where adm: "breaker_admits brs (rtg_ProviderID t) (pe_t_allow env n) = (ok, brs')"
    by (cases "breaker_admits brs (rtg_ProviderID t) (pe_t_allow env n)")
  show thesis
  proof (cases ok)
    case False
    then show thesis using adm by (intro rejected) auto
  next
    case ok: True
    show thesis
    proof (cases "pe_providers env (rtg_ProviderID t)")
      case None
      then show thesis using adm ok by (intro missing) (auto simp: pr_Get_def)
    next
      case p: (Some p)
      show thesis
      proof (cases "pe_call env n p (pe_set_model env (rtg_Model t) req)")
        case (Inr resp)
        then show thesis using adm ok p assms by (intro success) (auto simp: pr_Get_def model_restored Let_def)
      next
        case (Inl err)
        then show thesis
          using adm ok p assms client [of brs' p err] retried [of brs' p err "Wrapf '''' [Sentinel ErrProviderError, err]"]
          by (cases "isClientError err") (simp_all add: pr_Get_def model_restored Let_def failoverErr_def)
      qed
    qed
  qed
qed

abbreviation call_answer :: "nat \<times> string \<times> 'q \<times> (goerror + 'r) \<Rightarrow> goerror + 'r" where
  "call_answer \<equiv> \<lambda>(i, pid, q, a). a"

definition retriable :: "nat \<times> string \<times> 'q \<times> (goerror + 'r) \<Rightarrow> bool" where
  "retriable c \<longleftrightarrow> (\<exists>err. call_answer c = Inl err \<and> \<not> isClientError err)"

text \<open>A call is made to the provider of its target, with the request for the target's model.\<close>

definition call_sound :: "('p, 'q, 'r) proxy_env \<Rightarrow> (nat \<Rightarrow> ResolvedTarget) \<Rightarrow> 'q \<Rightarrow> nat \<times> string \<times> 'q \<times> (goerror + 'r) \<Rightarrow> bool" where
  "call_sound env target req = (\<lambda>(i, pid, q, a).
     pid = rtg_ProviderID (target i) \<and> q = pe_set_model env (rtg_Model (target i)) req \<and>
     (\<exists>p. pe_providers env pid = Some p \<and> a = pe_call env i p q))"

lemma failover_req:
  assumes "model_lens env"
  shows "po_req (failover env n ts e req brs) = req"
proof (induction ts arbitrary: n e brs)
  case (Cons t ts)
  show ?case by (rule failover_cases [OF assms, of brs t n ts e req]) (simp_all add: Cons.IH)
qed simp

lemma failover_calls:
  assumes "model_lens env" and "\<forall>i < length ts. target (n + i) = ts ! i"
  shows "(\<forall>c \<in> set (po_calls (failover env n ts e req brs)).
      n \<le> fst c \<and> fst c < n + length ts \<and> call_sound env target req c) \<and>
    sorted_wrt (<) (map fst (po_calls (failover env n ts e req brs)))"
  using assms(2)
proof (induction ts arbitrary: n e brs)
  case (Cons t ts)
  have t: "target n = t" using Cons.prems by (auto dest: spec [of _ 0])
  have "\<forall>i < length ts. target (n + 1 + i) = ts ! i"
    using Cons.prems by (metis (no_types) Suc_less_eq add_Suc_right add_Suc_shift length_Cons nth_Cons_Suc plus_1_eq_Suc add.commute)
  note IH = Cons.IH [OF this]
  show ?case
  proof (rule failover_cases [OF assms(1), of brs t n ts e req])
    fix brs' p err err'
    assume "pe_providers env (rtg_ProviderID t) = Some p"
      "pe_call env n p (pe_set_model env (rtg_Model t) req) = Inl err"
      and f: "failover env n (t # ts) e req brs =
        (failover env (n + 1) ts (Some err') req
          (recordBreakerError brs' (rtg_ProviderID t) err (pe_t_new env n) (pe_t_rec env n)))
        \<lparr>po_calls := (n, rtg_ProviderID t, pe_set_model env (rtg_Model t) req, Inl err)
          # po_calls (failover env (n + 1) ts (Some err') req
              (recordBreakerError brs' (rtg_ProviderID t) err (pe_t_new env n) (pe_t_rec env n)))\<rparr>"
    then show ?thesis
      using IH [of "Some err'" "recordBreakerError brs' (rtg_ProviderID t) err (pe_t_new env n) (pe_t_rec env n)"] t
      by (fastforce simp: call_sound_def)
  qed (use IH t in \<open>fastforce simp: call_sound_def\<close>)+
qed simp

lemma failover_result:
  assumes "model_lens env"
  shows "(\<forall>c \<in> set (butlast (po_calls (failover env n ts e req brs))). retriable c) \<and>
    (case po_result (failover env n ts e req brs) of
       Inr resp \<Rightarrow> po_calls (failover env n ts e req brs) \<noteq> [] \<and>
         call_answer (last (po_calls (failover env n ts e req brs))) = Inr resp
     | Inl r \<Rightarrow>
         (\<exists>err. r = Some err \<and> isClientError err \<and> po_calls (failover env n ts e req brs) \<noteq> [] \<and>
            call_answer (last (po_calls (failover env n ts e req brs))) = Inl err) \<or>
         (\<forall>c \<in> set (po_calls (failover env n ts e req brs)). retriable c) \<and>
           (ts = [] \<and> r = e \<or> (\<exists>err. r = Some err \<and> errors_Is err (Sentinel ErrProviderError))))"
proof (induction ts arbitrary: n e brs)
  case (Cons t ts)
  show ?case
  proof (rule failover_cases [OF assms, of brs t n ts e req])
    fix brs' err
    assume "errors_Is err (Sentinel ErrProviderError)"
      "failover env n (t # ts) e req brs = failover env (n + 1) ts (Some err) req brs'"
    with Cons.IH [of "n + 1" "Some err" brs'] show ?thesis by (auto split: sum.splits)
  next
    fix brs' err
    assume "errors_Is err (Sentinel ErrProviderError)"
      "failover env n (t # ts) e req brs = failover env (n + 1) ts (Some err) req brs'"
    with Cons.IH [of "n + 1" "Some err" brs'] show ?thesis by (auto split: sum.splits)
  next
    fix brs' p err err'
    assume a: "\<not> isClientError err" "errors_Is err' (Sentinel ErrProviderError)"
      and f: "failover env n (t # ts) e req brs =
        (failover env (n + 1) ts (Some err') req
          (recordBreakerError brs' (rtg_ProviderID t) err (pe_t_new env n) (pe_t_rec env n)))
        \<lparr>po_calls := (n, rtg_ProviderID t, pe_set_model env (rtg_Model t) req, Inl err)
          # po_calls (failover env (n + 1) ts (Some err') req
              (recordBreakerError brs' (rtg_ProviderID t) err (pe_t_new env n) (pe_t_rec env n)))\<rparr>"
    have "retriable (n, rtg_ProviderID t, pe_set_model env (rtg_Model t) req, Inl err)"
      using a(1) by (simp add: retriable_def)
    then show ?thesis
      using f a(2) Cons.IH [of "n + 1" "Some err'" "recordBreakerError brs' (rtg_ProviderID t) err (pe_t_new env n) (pe_t_rec env n)"]
      by (auto split: sum.splits)
  qed simp_all
qed simp

lemma failover_wf:
  assumes "model_lens env" and "brs_wf brs"
  shows "brs_wf (po_breakers (failover env n ts e req brs)) \<and>
    (\<forall>k. k \<notin> rtg_ProviderID ` set ts \<longrightarrow> breaker_in (po_breakers (failover env n ts e req brs)) k = breaker_in brs k)"
  using assms(2)
proof (induction ts arbitrary: n e brs)
  case (Cons t ts)
  obtain ok brs' where adm: "breaker_admits brs (rtg_ProviderID t) (pe_t_allow env n) = (ok, brs')"
    by (cases "breaker_admits brs (rtg_ProviderID t) (pe_t_allow env n)")
  note b = breaker_admits_spec(1,2) [OF Cons.prems adm]
  note er = recordBreakerError_spec(1,2) [OF b(1)] and su = recordBreakerSuccess_spec(1,2) [OF b(1)]
  show ?case
    by (rule failover_cases [OF assms(1), of brs t n ts e req]) (use adm b er su Cons.IH in auto)
qed simp

declare failover.simps(2) [simp del]

text \<open>A target that would answer is reached, unless an earlier one answered or refused.\<close>

definition would_admit :: "breaker_Registry option \<Rightarrow> string \<Rightarrow> gotime \<Rightarrow> bool" where
  "would_admit brs k now \<longleftrightarrow> (case breaker_in brs k of None \<Rightarrow> True | Some b \<Rightarrow> fst (Allow b now))"

lemma failover_reaches:
  assumes "model_lens env" and "brs_wf brs" and "distinct (map rtg_ProviderID ts)" and "i < length ts"
    and "would_admit brs (rtg_ProviderID (ts ! i)) (pe_t_allow env (n + i))"
    and "pe_providers env (rtg_ProviderID (ts ! i)) = Some p"
    and "pe_call env (n + i) p (pe_set_model env (rtg_Model (ts ! i)) req) = Inr resp"
  shows "(\<exists>r. po_result (failover env n ts e req brs) = Inr r) \<or>
    (\<exists>err. po_result (failover env n ts e req brs) = Inl (Some err) \<and> isClientError err \<and>
       (\<exists>c \<in> set (po_calls (failover env n ts e req brs)). fst c < n + i \<and> call_answer c = Inl err))"
  using assms(2-7)
proof (induction ts arbitrary: n e brs i)
  case (Cons t ts)
  obtain ok brs' where adm: "breaker_admits brs (rtg_ProviderID t) (pe_t_allow env n) = (ok, brs')"
    by (cases "breaker_admits brs (rtg_ProviderID t) (pe_t_allow env n)")
  note b = breaker_admits_spec [OF Cons.prems(1) adm]
  show ?case
  proof (cases i)
    case 0
    then have "ok" using b(3) Cons.prems(4) by (auto simp: would_admit_def split: option.splits)
    with 0 Cons.prems(5,6) adm show ?thesis
      by - (rule failover_cases [OF assms(1), of brs t n ts e req], auto)
  next
    case (Suc j)
    have "rtg_ProviderID (ts ! j) \<in> rtg_ProviderID ` set ts" using Cons.prems(3) Suc by simp
    then have other: "rtg_ProviderID (ts ! j) \<noteq> rtg_ProviderID t" using Cons.prems(2) by auto
    have step: "(\<exists>r. po_result (failover env (n + 1) ts e' req brs'') = Inr r) \<or>
        (\<exists>err. po_result (failover env (n + 1) ts e' req brs'') = Inl (Some err) \<and> isClientError err \<and>
          (\<exists>c \<in> set (po_calls (failover env (n + 1) ts e' req brs'')). fst c < n + 1 + j \<and> call_answer c = Inl err))"
      if "brs_wf brs''" "breaker_in brs'' (rtg_ProviderID (ts ! j)) = breaker_in brs (rtg_ProviderID (ts ! j))" for e' brs''
      using Cons.IH [of brs'' j "n + 1" e'] that Cons.prems(2-6) Suc by (simp add: would_admit_def)
    note st = step [OF b(1) b(2) [OF other]]
    have f: "breaker_in (recordBreakerError brs' (rtg_ProviderID t) err tn tr) (rtg_ProviderID (ts ! j)) =
        breaker_in brs (rtg_ProviderID (ts ! j))" for err tn tr
      using recordBreakerError_spec(2) [OF b(1) other] b(2) [OF other] by simp
    note er = step [OF recordBreakerError_spec(1) [OF b(1)] f]
    show ?thesis
    proof (rule failover_cases [OF assms(1), of brs t n ts e req])
      fix brs1 p1 err err'
      assume "breaker_admits brs (rtg_ProviderID t) (pe_t_allow env n) = (True, brs1)" "isClientError err"
        "failover env n (t # ts) e req brs =
        \<lparr>po_result = Inl (Some err), po_req = req,
         po_breakers = recordBreakerError brs1 (rtg_ProviderID t) err (pe_t_new env n) (pe_t_rec env n),
         po_calls = [(n, rtg_ProviderID t, pe_set_model env (rtg_Model t) req, Inl err)]\<rparr>"
      then show ?thesis by (simp add: Suc)
    next
      fix brs1 p1 err err'
      assume "breaker_admits brs (rtg_ProviderID t) (pe_t_allow env n) = (True, brs1)"
        and e: "failover env n (t # ts) e req brs =
        (failover env (n + 1) ts (Some err') req
          (recordBreakerError brs1 (rtg_ProviderID t) err (pe_t_new env n) (pe_t_rec env n)))
        \<lparr>po_calls := (n, rtg_ProviderID t, pe_set_model env (rtg_Model t) req, Inl err)
          # po_calls (failover env (n + 1) ts (Some err') req
              (recordBreakerError brs1 (rtg_ProviderID t) err (pe_t_new env n) (pe_t_rec env n)))\<rparr>"
      then have "brs1 = brs'" using adm by simp
      with e er [of "Some err'" err "pe_t_new env n" "pe_t_rec env n"] show ?thesis by (fastforce simp: Suc)
    qed (use adm st in \<open>auto simp: Suc\<close>)
  qed
qed simp

text \<open>An open breaker keeps its provider from being called.\<close>

lemma Allow_open_closed_gate:
  assumes "br_state b = StateOpen" and "now < br_openedAt b + br_openTimeout b"
  shows "\<not> fst (Allow b now)" "br_state (snd (Allow b now)) = StateOpen"
    "br_openedAt (snd (Allow b now)) = br_openedAt b" "br_openTimeout (snd (Allow b now)) = br_openTimeout b"
  using assms by (simp_all add: Allow_def Let_def time_Sub_def)

lemma failover_skips_open:
  assumes "model_lens env" and "brs_wf brs" and "breaker_in brs k = Some b" and "br_state b = StateOpen"
    and "\<forall>i. pe_t_allow env i < br_openedAt b + br_openTimeout b"
  shows "k \<notin> set (map (fst \<circ> snd) (po_calls (failover env n ts e req brs)))"
  using assms(2-5)
proof (induction ts arbitrary: n e brs b)
  case (Cons t ts)
  obtain ok brs' where adm: "breaker_admits brs (rtg_ProviderID t) (pe_t_allow env n) = (ok, brs')"
    by (cases "breaker_admits brs (rtg_ProviderID t) (pe_t_allow env n)")
  note b = breaker_admits_spec [OF Cons.prems(1) adm]
  show ?case
  proof (cases "rtg_ProviderID t = k")
    case True
    have g: "pe_t_allow env n < br_openedAt b + br_openTimeout b" using Cons.prems(4) by simp
    have "\<not> ok" "breaker_in brs' k = Some (snd (Allow b (pe_t_allow env n)))"
      using b(3) True Cons.prems(2) Allow_open_closed_gate(1) [OF Cons.prems(3) g] by simp_all
    then have "k \<notin> set (map (fst \<circ> snd) (po_calls (failover env (n + 1) ts e' req brs')))" for e'
      using Cons.prems(4) Allow_open_closed_gate [OF Cons.prems(3) g]
      by (intro Cons.IH [OF b(1), of "snd (Allow b (pe_t_allow env n))"]) auto
    with \<open>\<not> ok\<close> adm show ?thesis
      by - (rule failover_cases [OF assms(1), of brs t n ts e req], simp_all)
  next
    case False
    have "k \<notin> set (map (fst \<circ> snd) (po_calls (failover env (n + 1) ts e' req brs'')))"
      if "brs_wf brs''" "breaker_in brs'' k = breaker_in brs k" for e' brs''
      using that Cons.prems by (intro Cons.IH) auto
    note step = this
    note st = step [OF b(1) b(2) [OF False [symmetric]]]
    have er: "k \<notin> set (map (fst \<circ> snd) (po_calls (failover env (n + 1) ts e' req
        (recordBreakerError brs' (rtg_ProviderID t) err tn tr))))" for e' err tn tr
      using recordBreakerError_spec(1,2) [OF b(1)] b(2) [OF False [symmetric]] False by (intro step) auto
    show ?thesis
      by (rule failover_cases [OF assms(1), of brs t n ts e req]) (use adm st er False in simp_all)
  qed
qed simp

section \<open>Properties\<close>


text \<open>A service with two providers, the first failing; it is used by several examples.\<close>

definition ex_targets :: "ResolvedTarget list" where
  "ex_targets = [\<lparr>rtg_ProviderID = ''a'', rtg_Model = ''x'', rtg_Priority = 1\<rparr>,
                 \<lparr>rtg_ProviderID = ''b'', rtg_Model = ''y'', rtg_Priority = 2\<rparr>]"

definition ex_req :: ChatRequest where
  "ex_req = \<lparr>req_Model = ''m'', req_Messages = [], req_Temperature = None, req_TopP = None, req_N = 0,
     req_Stream = False, req_StreamOptions = None, req_Stop = [], req_MaxTokens = None,
     req_PresencePenalty = None, req_FrequencyPenalty = None, req_Seed = None, req_User = '''',
     req_Tools = [], req_ToolChoice = [], req_ResponseFormat = []\<rparr>"

definition ex_resp :: ChatResponse where
  "ex_resp = \<lparr>resp_ID = ''1'', resp_Object = '''', resp_Created = 0, resp_Model = ''y'', resp_Choices = [],
     resp_Usage = None, resp_SystemFingerprint = ''''\<rparr>"

definition ex_call :: "nat \<Rightarrow> string \<Rightarrow> ChatRequest \<Rightarrow> goerror + ChatResponse" where
  "ex_call n p q = (if p = ''a'' then Inl (APIError ''a'' 503 '''') else Inr ex_resp)"

definition ex_cache :: "string \<Rightarrow> (ResolvedTarget list \<times> gotime) option" where
  "ex_cache = [''m'' \<mapsto> (ex_targets, 0)]"

lemma ex_resolve:
  "ResolveModel (map_cache routeCacheTTL) store 0 (req_Model ex_req) ex_cache = (Inr ex_targets, ex_cache)"
  by (simp add: ResolveModel_def map_cache_def ex_cache_def ex_req_def routeCacheTTL_def second_def)

definition ex_proxy_chat where
  "ex_proxy_chat brs = ChatCompletion (map_cache routeCacheTTL) example_store 0 ex_cache
     [''a'' \<mapsto> ''a'', ''b'' \<mapsto> ''b''] ex_call (\<lambda>_. 0) (\<lambda>_. 0) (\<lambda>_. 0) ex_req brs"


text \<open>
  C13. Availability. When the targets have distinct providers and one of them is registered, is
  admitted by its breaker and would answer, the request succeeds, unless a provider before it
  refuses the request with a client error.
\<close>

theorem chat_available:
  assumes "ResolveModel ops store now (req_Model req) cache = (Inr targets, cache')"
    and "ChatCompletion ops store now cache ps call ta tn tr req brs = (out, cache'')"
    and "brs_wf brs" and "distinct (map rtg_ProviderID targets)" and "i < length targets"
    and "would_admit brs (rtg_ProviderID (targets ! i)) (ta i)" and "ps (rtg_ProviderID (targets ! i)) = Some p"
    and "call i p (req\<lparr>req_Model := rtg_Model (targets ! i)\<rparr>) = Inr resp"
  shows "(\<exists>r. po_result out = Inr r) \<or>
    (\<exists>err. po_result out = Inl (Some err) \<and> isClientError err \<and>
       (\<exists>c \<in> set (po_calls out). fst c < i \<and> call_answer c = Inl err))"
proof -
  have "out = failover (chat_env ps call ta tn tr) 0 targets None req brs"
    using assms(1,2) by (simp add: ChatCompletion_def proxied_def)
  then show ?thesis
    using failover_reaches [of "chat_env ps call ta tn tr" brs targets i 0 p req resp None] assms(3-8)
    by (simp add: chat_env_def model_lens_def)
qed

theorem chat_available_witness: "\<exists>r. po_result (fst (ex_proxy_chat None)) = Inr r"
proof -
  let ?out = "fst (ex_proxy_chat None)"
  have "ChatCompletion (map_cache routeCacheTTL) example_store 0 ex_cache
     [''a'' \<mapsto> ''a'', ''b'' \<mapsto> ''b''] ex_call (\<lambda>_. 0) (\<lambda>_. 0) (\<lambda>_. 0) ex_req None = (?out, snd (ex_proxy_chat None))"
    by (simp add: ex_proxy_chat_def)
  from chat_available [OF ex_resolve this, of 1 "''b''" ex_resp]
  have "(\<exists>r. po_result ?out = Inr r) \<or> (\<exists>err. po_result ?out = Inl (Some err) \<and> isClientError err \<and>
       (\<exists>c \<in> set (po_calls ?out). fst c < 1 \<and> call_answer c = Inl err))"
    by (simp add: ex_targets_def ex_call_def would_admit_def)
  moreover have "po_result ?out \<noteq> Inl (Some err)" for err
    by (simp add: ex_proxy_chat_def ChatCompletion_def ex_resolve proxied_def ex_targets_def breaker_admits_def chat_env_def
        pr_Get_def ex_call_def Let_def failoverErr_def isClientError_def failover.simps recordBreakerError_def)
  ultimately show ?thesis by blast
qed

text \<open>
  C14. A provider whose breaker is open is not called: as long as the clock readings of a request
  lie before the end of its open timeout, no call of the request goes to it, and the breakers of
  providers that are not targets of the request are left as they are.
\<close>

theorem chat_short_circuits:
  assumes "ResolveModel ops store now (req_Model req) cache = (Inr targets, cache')"
    and "ChatCompletion ops store now cache ps call ta tn tr req brs = (out, cache'')"
    and "brs_wf brs" and "breaker_in brs k = Some b" and "br_state b = StateOpen"
    and "\<forall>i. ta i < br_openedAt b + br_openTimeout b"
  shows "k \<notin> set (map (fst \<circ> snd) (po_calls out)) \<and>
    (\<forall>k'. k' \<notin> rtg_ProviderID ` set targets \<longrightarrow> breaker_in (po_breakers out) k' = breaker_in brs k')"
proof -
  have out: "out = failover (chat_env ps call ta tn tr) 0 targets None req brs"
    using assms(1,2) by (simp add: ChatCompletion_def proxied_def)
  have "\<forall>i. pe_t_allow (chat_env ps call ta tn tr) i < br_openedAt b + br_openTimeout b"
    using assms(6) by (simp add: chat_env_def)
  from failover_skips_open [OF model_lens_env(1) assms(3-5) this] failover_wf [OF model_lens_env(1) assms(3)]
  show ?thesis unfolding out by blast
qed

definition ex_breakers :: "breaker_Registry option" where
  "ex_breakers = Some \<lparr>cbr_breakers = snd (pm_alloc ''b'' tripped pm_empty), cbr_config = DefaultConfig\<rparr>"

lemma ex_breakers_b: "breaker_in ex_breakers ''b'' = Some tripped" "brs_wf ex_breakers"
  by (simp_all add: ex_breakers_def breaker_of_def pm_lookup_alloc cbr_wf_def)

theorem chat_short_circuits_witness:
  "''b'' \<notin> set (map (fst \<circ> snd) (po_calls (fst (ex_proxy_chat ex_breakers))))"
proof -
  obtain out c where oc: "ex_proxy_chat ex_breakers = (out, c)" by (cases "ex_proxy_chat ex_breakers")
  have "br_state tripped = StateOpen" "\<forall>i :: nat. (0 :: gotime) < br_openedAt tripped + br_openTimeout tripped"
    by (simp_all add: tripped_def NewBreaker_def DefaultConfig_def second_def)
  from chat_short_circuits [OF ex_resolve oc [unfolded ex_proxy_chat_def] ex_breakers_b(2,1) this] oc show ?thesis by simp
qed

section \<open>A probe that is never resolved\<close>

text \<open>
  A half-open breaker admits one probe and waits for its outcome. A probe that the provider
  answers with a client error other than 429 records no outcome, so the breaker stays half-open
  with its probe in flight.
\<close>

lemma probe_left_in_flight:
  assumes "model_lens env" and "brs_wf brs" and "breaker_in brs (rtg_ProviderID t) = Some b"
    and "br_state b = StateOpen" and "br_openedAt b + br_openTimeout b \<le> pe_t_allow env n"
    and "pe_providers env (rtg_ProviderID t) = Some p"
    and "pe_call env n p (pe_set_model env (rtg_Model t) req) = Inl err"
    and "isClientError err" and "ClassifyError (Some err) = 0"
  shows "\<exists>b'. breaker_in (po_breakers (failover env n [t] e req brs)) (rtg_ProviderID t) = Some b' \<and>
    br_state b' = StateHalfOpen \<and> br_probing b'"
proof -
  obtain ok brs' where adm: "breaker_admits brs (rtg_ProviderID t) (pe_t_allow env n) = (ok, brs')"
    by (cases "breaker_admits brs (rtg_ProviderID t) (pe_t_allow env n)")
  note b = breaker_admits_spec [OF assms(2) adm]
  let ?b = "snd (Allow b (pe_t_allow env n))"
  have h: "ok" "br_state ?b = StateHalfOpen" "br_probing ?b" "breaker_in brs' (rtg_ProviderID t) = Some ?b"
    using b(3) assms(3-5) by (simp_all add: Allow_def Let_def time_Sub_def)
  show ?thesis
  proof (rule failover_cases [OF assms(1), of brs t n "[]" e req])
    fix brs1 p1 err1
    assume f: "breaker_admits brs (rtg_ProviderID t) (pe_t_allow env n) = (True, brs1)"
      "pe_providers env (rtg_ProviderID t) = Some p1"
      "pe_call env n p1 (pe_set_model env (rtg_Model t) req) = Inl err1"
      "failover env n [t] e req brs =
        \<lparr>po_result = Inl (Some err1), po_req = req,
         po_breakers = recordBreakerError brs1 (rtg_ProviderID t) err1 (pe_t_new env n) (pe_t_rec env n),
         po_calls = [(n, rtg_ProviderID t, pe_set_model env (rtg_Model t) req, Inl err1)]\<rparr>"
    then have "brs1 = brs'" "err1 = err" using adm assms(6,7) by simp_all
    with f(4) recordBreakerError_spec(3) [OF b(1) h(4)] h assms(9) show ?thesis by simp
  qed (use adm h assms(6-8) in simp_all)
qed

text \<open>
  From then on the provider is never called again, whatever the time: its breaker turns down
  every request and stays as it is.
\<close>

lemma stuck_probe_forever:
  assumes "model_lens env" and "brs_wf brs" and "breaker_in brs (rtg_ProviderID t) = Some b"
    and "br_state b = StateHalfOpen" and "br_probing b"
  shows "po_calls (failover env n [t] e req brs) = [] \<and>
    (\<exists>b'. breaker_in (po_breakers (failover env n [t] e req brs)) (rtg_ProviderID t) = Some b' \<and>
       br_state b' = StateHalfOpen \<and> br_probing b')"
proof -
  obtain ok brs' where adm: "breaker_admits brs (rtg_ProviderID t) (pe_t_allow env n) = (ok, brs')"
    by (cases "breaker_admits brs (rtg_ProviderID t) (pe_t_allow env n)")
  note b = breaker_admits_spec [OF assms(2) adm]
  have "\<not> ok" "breaker_in brs' (rtg_ProviderID t) = Some (b\<lparr>br_lastUsed := pe_t_allow env n\<rparr>)"
    using b(3) assms(3-5) by (simp_all add: Allow_def Let_def)
  then show ?thesis
    by - (rule failover_cases [OF assms(1), of brs t n "[]" e req], use adm assms(4,5) in simp_all)
qed


definition ex_probe_env :: "gotime \<Rightarrow> (string, ChatRequest, ChatResponse) proxy_env" where
  "ex_probe_env t = chat_env [''b'' \<mapsto> ''b''] (\<lambda>_ _ _. Inl (APIError ''b'' 400 '''')) (\<lambda>_. t) (\<lambda>_. t) (\<lambda>_. t)"


end
