(* ===== verification/Rfc3339.thy ===== *)
theory Rfc3339
  imports Json_Decode "HOL-Library.List_Lexorder" "HOL-Library.Char_ord"
begin

text \<open>
  What the sources use of Go's package \<open>time\<close> on calendars: \<open>Format\<close> and \<open>Parse\<close> with the
  layout \<open>time.RFC3339\<close>, for times in UTC. The stores keep every time as such a text, compare these
  texts in SQL, and read them back.

  The civil date of a day is computed with the 400-, 100-, 4- and 1-year cycles of the Gregorian
  calendar, on years that start on the first of March. The lemmas show that the text of a time
  parses back to that time, cut to whole seconds (\<open>parse_format\<close>), and that for the years 0 to
  9999 the order of the texts is the order of the times (\<open>format_less_iff\<close>).
\<close>

section \<open>Civil dates\<close>

definition civil_from_days :: "int \<Rightarrow> int \<times> int \<times> int" where
  "civil_from_days z =
     (let n = z + 719468; era = n div 146097; doe = n mod 146097;
          c = min 3 (doe div 36524); doc = doe - 36524 * c;
          q = doc div 1461; doq = doc mod 1461;
          a = min 3 (doq div 365); doy = doq - 365 * a;
          mp = (5 * doy + 2) div 153;
          d = doy - (153 * mp + 2) div 5 + 1;
          m = (if mp < 10 then mp + 3 else mp - 9)
      in (400 * era + 100 * c + 4 * q + a + (if m \<le> 2 then 1 else 0), m, d))"

definition days_from_civil :: "int \<Rightarrow> int \<Rightarrow> int \<Rightarrow> int" where
  "days_from_civil y m d =
     (let y' = (if m \<le> 2 then y - 1 else y);
          mp = (if m \<le> 2 then m + 9 else m - 3)
      in 365 * y' + y' div 4 - y' div 100 + y' div 400 + (153 * mp + 2) div 5 + d - 1 - 719468)"

definition isLeap :: "int \<Rightarrow> bool" where
  "isLeap y \<longleftrightarrow> y mod 4 = 0 \<and> (y mod 100 \<noteq> 0 \<or> y mod 400 = 0)"

definition daysIn :: "int \<Rightarrow> int \<Rightarrow> int" where
  "daysIn m y =
     (if m = 2 then (if isLeap y then 29 else 28) else if m \<in> {4, 6, 9, 11} then 30 else 31)"

section \<open>Format and Parse\<close>

text \<open>\<open>appendInt\<close> of package \<open>time\<close>: decimal, zero-padded to a width, the sign in front.\<close>

definition pad :: "nat \<Rightarrow> int \<Rightarrow> string" where
  "pad w n =
     (let ds = nat_text (nat \<bar>n\<bar>)
      in (if n < 0 then ''-'' else '''') @ replicate (w - length ds) (CHR ''0'') @ ds)"

definition time_Format :: "gotime \<Rightarrow> string" where
  "time_Format t =
     (let s = t div second; sod = s mod 86400
      in case civil_from_days (s div 86400) of (y, m, d) \<Rightarrow>
           pad 4 y @ ''-'' @ pad 2 m @ ''-'' @ pad 2 d @ ''T'' @ pad 2 (sod div 3600) @ '':'' @
           pad 2 (sod div 60 mod 60) @ '':'' @ pad 2 (sod mod 60) @ ''Z'')"

text \<open>A field of exactly \<open>w\<close> digits, an expected character, and the hour, which \<open>Parse\<close> also
  takes with one digit.\<close>

definition p_digits :: "nat \<Rightarrow> string \<Rightarrow> (int \<times> string) option" where
  "p_digits w s =
     (if length s < w \<or> \<not> list_all is_digit (take w s) then None
      else Some (digits_val (take w s), drop w s))"

definition p_hour :: "string \<Rightarrow> (int \<times> string) option" where
  "p_hour s = (case p_digits 2 s of Some r \<Rightarrow> Some r | None \<Rightarrow> p_digits 1 s)"

fun p_char :: "char \<Rightarrow> string \<Rightarrow> string option" where
  "p_char c [] = None"
| "p_char c (x # xs) = (if x = c then Some xs else None)"

text \<open>A fraction after the seconds is accepted although the layout has none; digits after the
  ninth are cut.\<close>

definition p_frac :: "string \<Rightarrow> int \<times> string" where
  "p_frac s =
     (case s of
        c # d # r \<Rightarrow>
          if (c = CHR ''.'' \<or> c = CHR '','') \<and> is_digit d then
            (let ds = takeWhile is_digit (d # r); k = take 9 ds
             in (digits_val (k @ replicate (9 - length k) (CHR ''0'')), drop (length ds) (d # r)))
          else (0, s)
      | _ \<Rightarrow> (0, s))"

text \<open>The zone, as an offset in seconds to the east.\<close>

definition p_zone :: "string \<Rightarrow> (int \<times> string) option" where
  "p_zone s =
     (case s of
        [] \<Rightarrow> None
      | c # r \<Rightarrow>
          if c = CHR ''Z'' then Some (0, r)
          else if c = CHR ''+'' \<or> c = CHR ''-'' then
            (case p_digits 2 r of None \<Rightarrow> None | Some (hh, r1) \<Rightarrow>
             (case p_char (CHR '':'') r1 of None \<Rightarrow> None | Some r2 \<Rightarrow>
             (case p_digits 2 r2 of None \<Rightarrow> None | Some (mm, r3) \<Rightarrow>
                if hh > 24 \<or> mm > 60 then None
                else Some ((if c = CHR ''+'' then 1 else - 1) * (hh * 3600 + mm * 60), r3))))
          else None)"

definition p_date :: "string \<Rightarrow> ((int \<times> int \<times> int) \<times> string) option" where
  "p_date s =
     (case p_digits 4 s of None \<Rightarrow> None | Some (y, r1) \<Rightarrow>
      case p_char (CHR ''-'') r1 of None \<Rightarrow> None | Some r2 \<Rightarrow>
      case p_digits 2 r2 of None \<Rightarrow> None | Some (m, r3) \<Rightarrow>
      case p_char (CHR ''-'') r3 of None \<Rightarrow> None | Some r4 \<Rightarrow>
      case p_digits 2 r4 of None \<Rightarrow> None | Some (d, r5) \<Rightarrow>
        if m < 1 \<or> 12 < m \<or> d < 1 \<or> daysIn m y < d then None else Some ((y, m, d), r5))"

definition p_clock :: "string \<Rightarrow> (int \<times> string) option" where
  "p_clock s =
     (case p_hour s of None \<Rightarrow> None | Some (hh, r1) \<Rightarrow>
      case p_char (CHR '':'') r1 of None \<Rightarrow> None | Some r2 \<Rightarrow>
      case p_digits 2 r2 of None \<Rightarrow> None | Some (mm, r3) \<Rightarrow>
      case p_char (CHR '':'') r3 of None \<Rightarrow> None | Some r4 \<Rightarrow>
      case p_digits 2 r4 of None \<Rightarrow> None | Some (ss, r5) \<Rightarrow>
        if 24 \<le> hh \<or> 60 \<le> mm \<or> 60 \<le> ss then None else Some (hh * 3600 + mm * 60 + ss, r5))"

definition time_Parse :: "string \<Rightarrow> gotime option" where
  "time_Parse s =
     (case p_date s of None \<Rightarrow> None | Some ((y, m, d), r1) \<Rightarrow>
      case p_char (CHR ''T'') r1 of None \<Rightarrow> None | Some r2 \<Rightarrow>
      case p_clock r2 of None \<Rightarrow> None | Some (sod, r3) \<Rightarrow>
      (case p_frac r3 of (ns, r4) \<Rightarrow>
      (case p_zone r4 of None \<Rightarrow> None | Some (off, r5) \<Rightarrow>
         if r5 \<noteq> [] then None
         else Some ((days_from_civil y m d * 86400 + sod - off) * second + ns))))"


section \<open>Dates and days\<close>

text \<open>The cycles: of a day count within a 400-year era, the century, the 4-year cycle within it,
  the year within that, and the day of the year. Day 365 exists only where the year that follows the
  first of January is a leap year.\<close>

lemma div_bounds: "0 < k \<Longrightarrow> k * (x div k) \<le> x \<and> x < k * (x div k) + (k :: int)"
  using pos_mod_bound [of k x] pos_mod_sign [of k x] mult_div_mod_eq [of k x] by linarith

lemma cycles:
  fixes doe :: int
  assumes "0 \<le> doe" "doe < 146097"
    and "c = min 3 (doe div 36524)" "doc = doe - 36524 * c" "q = doc div 1461" "doq = doc mod 1461"
      "a = min 3 (doq div 365)" "doy = doq - 365 * a"
  shows "0 \<le> c" "c \<le> 3" "0 \<le> q" "q \<le> 24" "0 \<le> a" "a \<le> 3" "0 \<le> doy" "doy \<le> 365"
    and "doe = 36524 * c + 1461 * q + 365 * a + doy"
    and "doy = 365 \<Longrightarrow> a = 3 \<and> (q < 24 \<or> c = 3)"
proof -
  have b: "36524 * (doe div 36524) \<le> doe" "doe < 36524 * (doe div 36524) + 36524"
    "1461 * q \<le> doc" "doc < 1461 * q + 1461" "365 * (doq div 365) \<le> doq" "doq < 365 * (doq div 365) + 365"
    using div_bounds [of 36524 doe] div_bounds [of 1461 doc] div_bounds [of 365 doq] assms(5) by simp_all
  show c: "0 \<le> c" "c \<le> 3" using assms(1-3) by (auto simp: pos_imp_zdiv_nonneg_iff)
  have doc: "0 \<le> doc" "doc \<le> 36524" "c < 3 \<Longrightarrow> doc < 36524"
    using assms(2-4) b(1,2) by (auto simp: min_def split: if_splits)
  show q: "0 \<le> q" "q \<le> 24" using b(3,4) doc by linarith+
  have dq: "doc = 1461 * q + doq" "0 \<le> doq" "doq \<le> 1460" using assms(5,6) by auto
  show a: "0 \<le> a" "a \<le> 3" "0 \<le> doy" "doy \<le> 365"
    using assms(7,8) dq(2,3) b(5,6) by (auto simp: min_def pos_imp_zdiv_nonneg_iff split: if_splits)
  show "doe = 36524 * c + 1461 * q + 365 * a + doy" using assms(4,8) dq(1) by simp
  assume "doy = 365"
  then have "a = 3" "doq = 1460" using assms(7,8) dq(2,3) a(2) b(5,6) by (auto simp: min_def split: if_splits)
  with dq(1) doc q show "a = 3 \<and> (q < 24 \<or> c = 3)" using c(2) by auto
qed

lemma month_bounds:
  fixes doy :: int
  assumes "0 \<le> doy" "doy \<le> 365" "mp = (5 * doy + 2) div 153"
  shows "0 \<le> mp" "mp \<le> 11" "0 \<le> doy - (153 * mp + 2) div 5"
    and "doy - (153 * mp + 2) div 5 < (if mp \<in> {1, 3, 6, 8} then 30 else 31)"
    and "mp = 11 \<Longrightarrow> doy - 337 \<le> 28 \<and> (doy - 337 = 28 \<longrightarrow> doy = 365)"
proof -
  have b: "153 * mp \<le> 5 * doy + 2" "5 * doy + 2 < 153 * mp + 153" using div_bounds [of 153 "5 * doy + 2"] assms(3) by auto
  show mp: "0 \<le> mp" "mp \<le> 11" using assms b by linarith+
  then have "mp \<in> {0, 1, 2, 3, 4, 5, 6, 7, 8, 9, 10, 11}" unfolding insert_iff empty_iff by presburger
  then show "0 \<le> doy - (153 * mp + 2) div 5" "doy - (153 * mp + 2) div 5 < (if mp \<in> {1, 3, 6, 8} then 30 else 31)"
    using b by auto
  show "mp = 11 \<Longrightarrow> doy - 337 \<le> 28 \<and> (doy - 337 = 28 \<longrightarrow> doy = 365)" using assms(2) by auto
qed

lemma civil_from_days_props:
  assumes "civil_from_days z = (y, m, d)"
  shows "1 \<le> m" "m \<le> 12" "1 \<le> d" "d \<le> daysIn m y" "days_from_civil y m d = z"
proof -
  define n where "n = z + 719468"
  define era where "era = n div 146097"
  define doe where "doe = n mod 146097"
  define c where "c = min 3 (doe div 36524)"
  define doc where "doc = doe - 36524 * c"
  define q where "q = doc div 1461"
  define doq where "doq = doc mod 1461"
  define a where "a = min 3 (doq div 365)"
  define doy where "doy = doq - 365 * a"
  define mp where "mp = (5 * doy + 2) div 153"
  define y' where "y' = 400 * era + 100 * c + 4 * q + a"
  have eqs: "m = (if mp < 10 then mp + 3 else mp - 9)" "d = doy - (153 * mp + 2) div 5 + 1"
    "y = y' + (if m \<le> 2 then 1 else 0)"
    using assms unfolding civil_from_days_def Let_def n_def [symmetric] era_def [symmetric] doe_def [symmetric]
      c_def [symmetric] doc_def [symmetric] q_def [symmetric] doq_def [symmetric] a_def [symmetric]
      doy_def [symmetric] mp_def [symmetric] by (auto simp: y'_def)
  have cy: "0 \<le> c" "c \<le> 3" "0 \<le> q" "q \<le> 24" "0 \<le> a" "a \<le> 3" "0 \<le> doy" "doy \<le> 365"
    "doe = 36524 * c + 1461 * q + 365 * a + doy" "doy = 365 \<Longrightarrow> a = 3 \<and> (q < 24 \<or> c = 3)"
    using cycles [OF _ _ c_def doc_def q_def doq_def a_def doy_def] by (simp_all add: doe_def)
  note mb = month_bounds [OF cy(7,8) mp_def]
  show "1 \<le> m" "m \<le> 12" "1 \<le> d" using mb(1-3) eqs by auto
  have "daysIn m y \<ge> d"
  proof (cases "mp = 11")
    case True
    show ?thesis
    proof (cases "doy = 365")
      case doy: True
      with cy(10) have "y = 400 * era + 100 * c + 4 * (q + 1)" "q < 24 \<or> c = 3" using True eqs by (auto simp: y'_def)
      then have "y mod 4 = 0" "q < 24 \<Longrightarrow> y mod 100 = 4 * (q + 1)" "q \<ge> 24 \<Longrightarrow> y mod 400 = 0"
        using cy(3,4) int_mod_pos_eq [of y 4 "100 * era + 25 * c + q + 1" 0]
          int_mod_pos_eq [of y 100 "4 * era + c" "4 * (q + 1)"] int_mod_pos_eq [of y 400 "era + 1" 0] by auto
      then have "isLeap y" using cy(3,4) unfolding isLeap_def by (cases "q < 24") auto
      then show ?thesis using True eqs mb(5) by (simp add: daysIn_def)
    next
      case False
      then show ?thesis using True eqs mb(5) by (auto simp: daysIn_def)
    qed
  next
    case False
    then have "m \<noteq> 2" "m \<in> {4, 6, 9, 11} \<longleftrightarrow> mp \<in> {1, 3, 6, 8}" using eqs mb(1,2) by auto
    then show ?thesis using mb(4) eqs by (auto simp: daysIn_def)
  qed
  then show "d \<le> daysIn m y" .
  have divs: "y' div 4 = 100 * era + 25 * c + q" "y' div 100 = 4 * era + c" "y' div 400 = era"
    using cy(1-6) int_div_pos_eq [of y' 4 "100 * era + 25 * c + q" a] int_div_pos_eq [of y' 100 "4 * era + c" "4 * q + a"]
      int_div_pos_eq [of y' 400 era "100 * c + 4 * q + a"] by (auto simp: y'_def)
  have "(if m \<le> 2 then y - 1 else y) = y'" "(if m \<le> 2 then m + 9 else m - 3) = mp" using eqs mb(1,2) by auto
  then have "days_from_civil y m d = 365 * y' + y' div 4 - y' div 100 + y' div 400 + (153 * mp + 2) div 5 + d - 1 - 719468"
    unfolding days_from_civil_def Let_def by simp
  also have "\<dots> = 146097 * era + doe - 719468" unfolding divs cy(9) eqs(2) by (simp add: y'_def)
  also have "\<dots> = z" by (simp add: era_def doe_def n_def)
  finally show "days_from_civil y m d = z" .
qed


section \<open>Fields of digits\<close>

lemma digits_val_Cons: "digits_val (c # cs) = digit_val c * 10 ^ length cs + digits_val cs"
proof -
  have "foldl (\<lambda>n c. 10 * n + digit_val c) k cs = k * 10 ^ length cs + foldl (\<lambda>n c. 10 * n + digit_val c) 0 cs" for k
  proof (induction cs arbitrary: k)
    case (Cons c cs)
    show ?case using Cons.IH [of "10 * k + digit_val c"] Cons.IH [of "digit_val c"] by (simp add: algebra_simps)
  qed simp
  from this [of "digit_val c"] show ?thesis by (simp add: digits_val_def)
qed

lemma digit_val_bounds: "is_digit c \<Longrightarrow> 0 \<le> digit_val c \<and> digit_val c \<le> 9"
  by (auto simp: is_digit_def digit_val_def)

lemma digits_val_bounds: "list_all is_digit s \<Longrightarrow> 0 \<le> digits_val s \<and> digits_val s < 10 ^ length s"
proof (induction s)
  case (Cons c cs)
  then have "digit_val c * 10 ^ length cs \<le> 9 * 10 ^ length cs" using digit_val_bounds [of c] by (simp add: mult_right_mono)
  moreover have "0 \<le> digit_val c * 10 ^ length cs" "0 \<le> digits_val cs" "digits_val cs < 10 ^ length cs"
    using Cons digit_val_bounds [of c] by auto
  moreover have "10 ^ length (c # cs) = 10 * (10 ^ length cs :: int)" by simp
  ultimately show ?case unfolding digits_val_Cons by linarith
qed (simp add: digits_val_def)

lemma digits_val_zeros: "digits_val (replicate k (CHR ''0'') @ s) = digits_val s"
  by (induction k) (simp_all add: digits_val_Cons digit_val_def byte_def)

lemma nat_text_length: "n < 10 ^ w \<Longrightarrow> 0 < w \<Longrightarrow> length (nat_text n) \<le> w"
proof (induction n arbitrary: w rule: nat_text.induct)
  case (1 n)
  show ?case
  proof (cases "n < 10")
    case False
    with "1.prems" obtain v where v: "w = Suc v" "0 < v" by (cases w; cases "w - 1") auto
    with "1.prems" have "n div 10 < 10 ^ v" by (simp add: less_mult_imp_div_less mult.commute)
    with "1.IH" [OF False _ v(2)] False v show ?thesis by (simp add: nat_text.simps [of n])
  qed (use "1.prems" in \<open>simp add: nat_text.simps [of n]\<close>)
qed

lemma pad_props:
  assumes "0 \<le> n" "n < 10 ^ w" "0 < w"
  shows "length (pad w n) = w" "list_all is_digit (pad w n)" "digits_val (pad w n) = n"
proof -
  have "nat n < 10 ^ w" using assms by (simp add: nat_less_iff)
  from nat_text_length [OF this assms(3)] show "length (pad w n) = w" using assms(1) by (simp add: pad_def Let_def)
  have "is_digit (CHR ''0'')" by (simp add: is_digit_def byte_def)
  then show "list_all is_digit (pad w n)" using assms(1) nat_text_val [of "nat n"] by (auto simp: pad_def Let_def list_all_iff)
  show "digits_val (pad w n) = n" using assms(1) nat_text_val [of "nat n"] by (simp add: pad_def Let_def digits_val_zeros)
qed

lemma p_digits_pad: "0 \<le> n \<Longrightarrow> n < 10 ^ w \<Longrightarrow> 0 < w \<Longrightarrow> p_digits w (pad w n @ r) = Some (n, r)"
  by (simp add: p_digits_def pad_props)

lemma leading_digit_less:
  fixes a c u v :: int
  assumes "a < c" "u < k" "0 \<le> v" "0 \<le> k"
  shows "a * k + u < c * k + v"
proof -
  have "(a + 1) * k \<le> c * k" using assms(1,4) by (intro mult_right_mono) auto
  then have "a * k + k \<le> c * k" by (simp only: distrib_right mult_1)
  with assms(2,3) show ?thesis by linarith
qed

lemma digits_less_iff:
  "length s = length t \<Longrightarrow> list_all is_digit s \<Longrightarrow> list_all is_digit t \<Longrightarrow>
   (s < t \<longleftrightarrow> digits_val s < digits_val t) \<and> (s = t \<longleftrightarrow> digits_val s = digits_val t)"
proof (induction s t rule: list_induct2)
  case (Cons x xs y ys)
  have o: "x < y \<longleftrightarrow> digit_val x < digit_val y" "x = y \<longleftrightarrow> digit_val x = digit_val y"
    by (simp_all add: digit_val_def less_char_def byte_def)
  have b: "0 \<le> digits_val xs" "digits_val xs < 10 ^ length xs" "0 \<le> digits_val ys" "digits_val ys < 10 ^ length xs"
    using digits_val_bounds [of xs] digits_val_bounds [of ys] Cons by auto
  have v: "digits_val (x # xs) = digit_val x * 10 ^ length xs + digits_val xs"
    "digits_val (y # ys) = digit_val y * 10 ^ length xs + digits_val ys" using Cons.hyps by (simp_all add: digits_val_Cons)
  show ?case
  proof (cases "digit_val x" "digit_val y" rule: linorder_cases)
    case less
    with leading_digit_less [OF less b(2) b(3)] v have "digits_val (x # xs) < digits_val (y # ys)" by simp
    with less o show ?thesis by auto
  next
    case equal
    with o Cons v show ?thesis by simp
  next
    case greater
    with leading_digit_less [OF greater b(4) b(1)] v have "digits_val (y # ys) < digits_val (x # xs)" by simp
    with greater o show ?thesis by auto
  qed
qed simp

lemma append_less_iff: "length s = length t \<Longrightarrow> s @ a < t @ b \<longleftrightarrow> s < t \<or> s = t \<and> a < b" for s t :: "'a :: linorder list"
  by (induction s t rule: list_induct2) auto

lemma field_less_iff:
  assumes "0 \<le> a" "a < 10 ^ w" "0 \<le> b" "b < 10 ^ w" "0 < w"
  shows "pad w a @ r < pad w b @ s \<longleftrightarrow> a < b \<or> a = b \<and> r < s"
proof -
  have "(pad w a < pad w b \<longleftrightarrow> a < b) \<and> (pad w a = pad w b \<longleftrightarrow> a = b)"
    using digits_less_iff [of "pad w a" "pad w b"] pad_props [OF assms(1,2,5)] pad_props [OF assms(3-5)] by simp
  then show ?thesis using pad_props(1) [OF assms(1,2,5)] pad_props(1) [OF assms(3-5)] by (simp add: append_less_iff)
qed


section \<open>The order of dates\<close>

text \<open>Months are counted from the year 0; a month starts where the one before it ends.\<close>

definition month_start :: "int \<Rightarrow> int" where
  "month_start k = days_from_civil (k div 12) (k mod 12 + 1) 1"

lemma div_pred: "0 < (k::int) \<Longrightarrow> (y - 1) div k = y div k - (if y mod k = 0 then 1 else 0)"
proof -
  assume k: "0 < k"
  have y: "y = k * (y div k) + y mod k" by simp
  have b: "0 \<le> y mod k" "y mod k < k" using k by simp_all
  show ?thesis
  proof (cases "y mod k = 0")
    case True
    then have "y - 1 = k * (y div k - 1) + (k - 1)" using y by (simp add: algebra_simps)
    from int_div_pos_eq [OF this] k True show ?thesis by simp
  next
    case False
    then have "y - 1 = k * (y div k) + (y mod k - 1)" using y by simp
    from int_div_pos_eq [OF this] b False show ?thesis by simp
  qed
qed

lemma days_from_civil_day: "days_from_civil y m d = days_from_civil y m 1 + d - 1"
  by (simp add: days_from_civil_def Let_def)

lemma next_month:
  assumes "1 \<le> m" "m \<le> 12"
  shows "days_from_civil (if m = 12 then y + 1 else y) (if m = 12 then 1 else m + 1) 1 = days_from_civil y m 1 + daysIn m y"
proof -
  have leap: "(y - 1) div 4 = y div 4 - (if y mod 4 = 0 then 1 else 0)"
    "(y - 1) div 100 = y div 100 - (if y mod 100 = 0 then 1 else 0)"
    "(y - 1) div 400 = y div 400 - (if y mod 400 = 0 then 1 else 0)"
    by (simp_all add: div_pred)
  have dvd: "y mod 400 = 0 \<Longrightarrow> y mod 100 = 0" "y mod 100 = 0 \<Longrightarrow> y mod 4 = 0"
    using dvd_trans [of 100 400 y] dvd_trans [of 4 100 y] unfolding mod_eq_0_iff_dvd by simp_all
  have "m \<in> {1, 2, 3, 4, 5, 6, 7, 8, 9, 10, 11, 12}" using assms unfolding insert_iff empty_iff by presburger
  then show ?thesis
    by (elim insertE emptyE; simp only:)
      (use dvd in \<open>simp_all add: days_from_civil_def Let_def daysIn_def isLeap_def leap\<close>)
qed

lemma month_start_Suc: "month_start (k + 1) = month_start k + daysIn (k mod 12 + 1) (k div 12)"
proof -
  have m: "1 \<le> k mod 12 + 1" "k mod 12 + 1 \<le> 12" by simp_all
  have k: "k = 12 * (k div 12) + k mod 12" by simp
  have "(k + 1) div 12 = (if k mod 12 + 1 = 12 then k div 12 + 1 else k div 12) \<and>
    (k + 1) mod 12 + 1 = (if k mod 12 + 1 = 12 then 1 else k mod 12 + 1 + 1)"
  proof (cases "k mod 12 = 11")
    case True
    with k have "k + 1 = 12 * (k div 12 + 1) + 0" by presburger
    from int_div_pos_eq [OF this] int_mod_pos_eq [OF this] True
    show ?thesis by simp
  next
    case False
    with m k have "k + 1 = 12 * (k div 12) + (k mod 12 + 1)" "k mod 12 + 1 < 12" by presburger+
    from int_div_pos_eq [OF this(1)] int_mod_pos_eq [OF this(1)] this(2) m False
    show ?thesis by simp
  qed
  then show ?thesis using next_month [OF m, of "k div 12"] by (simp only: month_start_def)
qed

lemma month_start_mono: "i \<le> j \<Longrightarrow> month_start i \<le> month_start j"
proof (induction j rule: int_ge_induct)
  case (step j)
  have "0 \<le> daysIn (j mod 12 + 1) (j div 12)" by (simp add: daysIn_def)
  with step show ?case by (simp add: month_start_Suc)
qed simp

lemma days_less:
  assumes "12 * y + m < 12 * y' + m'" "1 \<le> m" "m \<le> 12" "d \<le> daysIn m y" "1 \<le> m'" "m' \<le> 12" "1 \<le> d'"
  shows "days_from_civil y m d < days_from_civil y' m' d'"
proof -
  have k: "(12 * y + m - 1) div 12 = y" "(12 * y + m - 1) mod 12 = m - 1"
    "(12 * y' + m' - 1) div 12 = y'" "(12 * y' + m' - 1) mod 12 = m' - 1"
    using int_div_pos_eq [of "12 * y + m - 1" 12 y "m - 1"] int_mod_pos_eq [of "12 * y + m - 1" 12 y "m - 1"]
      int_div_pos_eq [of "12 * y' + m' - 1" 12 y' "m' - 1"] int_mod_pos_eq [of "12 * y' + m' - 1" 12 y' "m' - 1"]
      assms(2,3,5,6) by auto
  have "days_from_civil y m d < month_start (12 * y + m - 1 + 1)"
    unfolding month_start_Suc k using assms(4) k days_from_civil_day [of y m d] by (simp add: month_start_def)
  also have "\<dots> \<le> month_start (12 * y' + m' - 1)" using assms(1) by (intro month_start_mono) simp
  also have "\<dots> \<le> days_from_civil y' m' d'" using k assms(7) days_from_civil_day [of y' m' d'] by (simp add: month_start_def)
  finally show ?thesis .
qed

lemma civil_less_iff:
  assumes "civil_from_days z = (y, m, d)" "civil_from_days z' = (y', m', d')"
  shows "z < z' \<longleftrightarrow> y < y' \<or> y = y' \<and> (m < m' \<or> m = m' \<and> d < d')"
    and "z = z' \<longleftrightarrow> y = y' \<and> m = m' \<and> d = d'"
proof -
  note p = civil_from_days_props [OF assms(1)] and p' = civil_from_days_props [OF assms(2)]
  show "z = z' \<longleftrightarrow> y = y' \<and> m = m' \<and> d = d'"
  proof
    assume "z = z'"
    with assms show "y = y' \<and> m = m' \<and> d = d'" by simp
  next
    assume "y = y' \<and> m = m' \<and> d = d'"
    with p(5) p'(5) show "z = z'" by simp
  qed
  consider "12 * y + m < 12 * y' + m'" | "12 * y + m > 12 * y' + m'" | "12 * y + m = 12 * y' + m'" by linarith
  then show "z < z' \<longleftrightarrow> y < y' \<or> y = y' \<and> (m < m' \<or> m = m' \<and> d < d')"
  proof cases
    case 1
    moreover have "y < y' \<or> y = y' \<and> m < m'" using 1 p(1,2) p'(1,2) by linarith
    moreover have "z < z'" using days_less [OF 1 p(1,2,4) p'(1-3)] p(5) p'(5) by simp
    ultimately show ?thesis by auto
  next
    case 2
    moreover have "y' < y \<or> y = y' \<and> m' < m" using 2 p(1,2) p'(1,2) by linarith
    moreover have "z' < z" using days_less [OF 2 p'(1,2,4) p(1-3)] p(5) p'(5) by simp
    ultimately show ?thesis by auto
  next
    case 3
    then have "y = y'" using p(1,2) p'(1,2) by linarith
    moreover from this 3 have "m = m'" by simp
    moreover have "z = days_from_civil y m 1 + d - 1" "z' = days_from_civil y' m' 1 + d' - 1"
      using p(5) p'(5) days_from_civil_day by metis+
    ultimately show ?thesis by auto
  qed
qed


section \<open>Times as text\<close>

text \<open>The times whose year has four digits, the range for which RFC 3339 texts are defined.\<close>

definition year_0_9999 :: "gotime \<Rightarrow> bool" where
  "year_0_9999 t \<longleftrightarrow> - 62167219200 \<le> t div second \<and> t div second < 253402300800"

lemma year_bounds:
  assumes "year_0_9999 t" "civil_from_days (t div second div 86400) = (y, m, d)"
  shows "0 \<le> y" "y < 10 ^ 4"
proof -
  note p = civil_from_days_props [OF assms(2)]
  have z: "- 719528 \<le> t div second div 86400" "t div second div 86400 < 2932897"
    using assms(1) div_bounds [of 86400 "t div second"] unfolding year_0_9999_def by linarith+
  have d: "days_from_civil 0 1 1 = - 719528" "days_from_civil 9999 12 31 = 2932896"
    by (simp_all add: days_from_civil_def)
  show "0 \<le> y"
  proof (rule ccontr)
    assume "\<not> 0 \<le> y"
    then have "12 * y + m < 12 * 0 + 1" using p(2) by linarith
    from days_less [OF this p(1,2,4), of 1] d p(5) z show False by simp
  qed
  show "y < 10 ^ 4"
  proof (rule ccontr)
    assume "\<not> y < 10 ^ 4"
    then have "12 * 9999 + 12 < 12 * y + m" using p(1) by simp
    from days_less [OF this _ _ _ p(1-3), of 31] d p(5) z show False by (simp add: daysIn_def)
  qed
qed

lemma p_char_Cons [simp]: "p_char c (c # r) = Some r"
  by simp

lemma clock_bounds:
  fixes sod :: int
  assumes "0 \<le> sod" "sod < 86400"
  shows "0 \<le> sod div 3600" "sod div 3600 < 24" "0 \<le> sod div 60 mod 60" "sod div 60 mod 60 < 60"
    "0 \<le> sod mod 60" "sod mod 60 < 60" "sod = sod div 3600 * 3600 + sod div 60 mod 60 * 60 + sod mod 60"
proof -
  show "0 \<le> sod div 3600" "0 \<le> sod div 60 mod 60" "sod div 60 mod 60 < 60" "0 \<le> sod mod 60" "sod mod 60 < 60"
    using assms by (simp_all add: pos_imp_zdiv_nonneg_iff)
  show "sod div 3600 < 24" using assms div_bounds [of 3600 sod] by linarith
  have "sod div 60 div 60 = sod div 3600" by (simp add: zdiv_zmult2_eq [symmetric])
  then show "sod = sod div 3600 * 3600 + sod div 60 mod 60 * 60 + sod mod 60"
    using mult_div_mod_eq [of 60 sod] mult_div_mod_eq [of 60 "sod div 60"] by linarith
qed

lemma radix_less_iff:
  fixes a b u v :: int
  assumes "0 \<le> u" "u < k" "0 \<le> v" "v < k"
  shows "a * k + u < b * k + v \<longleftrightarrow> a < b \<or> a = b \<and> u < v"
  using leading_digit_less [of a b u k v] leading_digit_less [of b a v k u] assms by (cases a b rule: linorder_cases) auto

lemma clock_less_iff:
  fixes p q :: int
  shows "p < q \<longleftrightarrow> p div 3600 < q div 3600 \<or> p div 3600 = q div 3600 \<and>
    (p div 60 mod 60 < q div 60 mod 60 \<or> p div 60 mod 60 = q div 60 mod 60 \<and> p mod 60 < q mod 60)"
proof -
  have h: "n div 60 div 60 = n div 3600" for n :: int by (simp add: zdiv_zmult2_eq [symmetric])
  have m: "n div 60 = n div 3600 * 60 + n div 60 mod 60" for n :: int
    using div_mult_mod_eq [of "n div 60" 60] unfolding h by simp
  have "p < q \<longleftrightarrow> p div 60 < q div 60 \<or> p div 60 = q div 60 \<and> p mod 60 < q mod 60"
    using radix_less_iff [of "p mod 60" 60 "q mod 60" "p div 60" "q div 60"] by simp
  moreover have "p div 60 < q div 60 \<longleftrightarrow> p div 3600 < q div 3600 \<or>
      p div 3600 = q div 3600 \<and> p div 60 mod 60 < q div 60 mod 60"
    using radix_less_iff [of "p div 60 mod 60" 60 "q div 60 mod 60" "p div 3600" "q div 3600"]
    unfolding m [symmetric] by simp
  moreover have "p div 60 = q div 60 \<longleftrightarrow> p div 3600 = q div 3600 \<and> p div 60 mod 60 = q div 60 mod 60"
    using m [of p] m [of q] h [of p] h [of q] by metis
  ultimately show ?thesis by blast
qed

lemma sod_bounds: "0 \<le> s mod 86400" "s mod 86400 < (86400 :: int)"
  by simp_all

lemma p_clock_format:
  assumes "0 \<le> sod" "sod < 86400"
  shows "p_clock (pad 2 (sod div 3600) @ '':'' @ pad 2 (sod div 60 mod 60) @ '':'' @ pad 2 (sod mod 60) @ r) = Some (sod, r)"
proof -
  note b = clock_bounds [OF assms]
  from b(1-6) show ?thesis
    unfolding p_clock_def p_hour_def by (simp add: p_digits_pad) (use b(7) in linarith)
qed

lemma p_date_format:
  assumes "civil_from_days z = (y, m, d)" "0 \<le> y" "y < 10 ^ 4"
  shows "p_date (pad 4 y @ ''-'' @ pad 2 m @ ''-'' @ pad 2 d @ r) = Some ((y, m, d), r)"
proof -
  note p = civil_from_days_props [OF assms(1)]
  have "d < 10 ^ 2" using p(4) by (simp add: daysIn_def split: if_splits)
  with p assms(2,3) show ?thesis unfolding p_date_def by (simp add: p_digits_pad)
qed

lemma parse_format:
  assumes "year_0_9999 t"
  shows "time_Parse (time_Format t) = Some (t div second * second)"
proof -
  let ?s = "t div second"
  obtain y m d where c: "civil_from_days (?s div 86400) = (y, m, d)" using prod_cases3 by blast
  note b = year_bounds [OF assms c]
  note f = p_date_format [OF c b] p_clock_format [OF sod_bounds]
  have "days_from_civil y m d * 86400 + ?s mod 86400 = ?s" using civil_from_days_props(5) [OF c] by simp
  then show ?thesis
    unfolding time_Parse_def time_Format_def Let_def c prod.case by (simp add: f [simplified] p_frac_def p_zone_def)
qed

lemma stamp_less_iff:
  assumes "0 \<le> y" "y < 10 ^ 4" "0 \<le> y'" "y' < 10 ^ 4"
    and "\<forall>n \<in> {m, d, h, i, s, m', d', h', i', s'}. 0 \<le> n \<and> n < 10 ^ 2"
  shows "pad 4 y @ ''-'' @ pad 2 m @ ''-'' @ pad 2 d @ ''T'' @ pad 2 h @ '':'' @ pad 2 i @ '':'' @ pad 2 s @ ''Z'' <
      pad 4 y' @ ''-'' @ pad 2 m' @ ''-'' @ pad 2 d' @ ''T'' @ pad 2 h' @ '':'' @ pad 2 i' @ '':'' @ pad 2 s' @ ''Z'' \<longleftrightarrow>
    y < y' \<or> y = y' \<and> (m < m' \<or> m = m' \<and> (d < d' \<or> d = d' \<and> (h < h' \<or> h = h' \<and>
      (i < i' \<or> i = i' \<and> s < s'))))"
  using assms by (simp add: field_less_iff)

text \<open>Comparing the texts compares the times, to the second.\<close>

lemma format_less_iff:
  assumes "year_0_9999 t" "year_0_9999 u"
  shows "time_Format t < time_Format u \<longleftrightarrow> t div second < u div second"
    and "time_Format t = time_Format u \<longleftrightarrow> t div second = u div second"
proof -
  define s s' where "s = t div second" and "s' = u div second"
  define p p' where "p = s mod 86400" and "p' = s' mod 86400"
  obtain y m d where c: "civil_from_days (s div 86400) = (y, m, d)" using prod_cases3 by blast
  obtain y' m' d' where c': "civil_from_days (s' div 86400) = (y', m', d')" using prod_cases3 by blast
  note b = year_bounds [OF assms(1) c [unfolded s_def]] year_bounds [OF assms(2) c' [unfolded s'_def]]
  note q = civil_from_days_props [OF c] civil_from_days_props [OF c']
  have d31: "daysIn m y < 10 ^ 2" "daysIn m' y' < 10 ^ 2" by (simp_all add: daysIn_def)
  note k = clock_bounds [OF sod_bounds, of s, folded p_def] clock_bounds [OF sod_bounds, of s', folded p'_def]
  have z: "s = s div 86400 * 86400 + p" "s' = s' div 86400 * 86400 + p'"
    "0 \<le> p" "p < 86400" "0 \<le> p'" "p' < 86400"
    by (simp_all add: p_def p'_def)
  have day: "s < s' \<longleftrightarrow> s div 86400 < s' div 86400 \<or> s div 86400 = s' div 86400 \<and> p < p'"
    using radix_less_iff [OF z(3-6)] z(1,2) by metis
  have clock: "p < p' \<longleftrightarrow> p div 3600 < p' div 3600 \<or> p div 3600 = p' div 3600 \<and>
      (p div 60 mod 60 < p' div 60 mod 60 \<or> p div 60 mod 60 = p' div 60 mod 60 \<and> p mod 60 < p' mod 60)"
    by (rule clock_less_iff)
  have mod60: "n mod 60 < 100" for n :: int using pos_mod_bound [of 60 n] by simp
  have two: "\<forall>n \<in> {m, d, p div 3600, p div 60 mod 60, p mod 60, m', d', p' div 3600, p' div 60 mod 60, p' mod 60}.
      0 \<le> n \<and> n < 10 ^ 2"
    using q(1-4,6-9) d31 k(1,2,8,9) mod60 by simp
  have less: "time_Format t < time_Format u \<longleftrightarrow> s < s'"
    unfolding time_Format_def Let_def s_def [symmetric] s'_def [symmetric] c c' prod.case p_def [symmetric] p'_def [symmetric]
    unfolding stamp_less_iff [OF b two] day civil_less_iff [OF c c'] clock by blast
  then show "time_Format t < time_Format u \<longleftrightarrow> t div second < u div second" by (simp add: s_def s'_def)
  show "time_Format t = time_Format u \<longleftrightarrow> t div second = u div second"
  proof
    assume "time_Format t = time_Format u"
    with parse_format [OF assms(1)] parse_format [OF assms(2)] show "t div second = u div second" by (simp add: second_def)
  qed (simp add: time_Format_def Let_def)
qed

end
