(* ===== verification/Sql_Store.thy ===== *)
theory Sql_Store
  imports Rfc3339
begin

text \<open>
  The SQLite store: \<open>internal/storage/sqlite/{db,apikey,org,provider,route}.go\<close> and the schema of
  the embedded migrations. A table is the list of its rows; a row has the columns of the schema,
  a nullable column being an \<open>option\<close>. The statements in the sources are given the meaning SQL gives
  them: an \<open>INSERT\<close> is refused when it breaks a primary key, a \<open>UNIQUE\<close> column or a foreign key
  (\<open>foreign_keys(1)\<close> is set), a \<open>DELETE\<close> cascades as the schema says, a \<open>SELECT\<close> returns the
  rows that match.

  What depends on the engine and not on the statement is an argument. \<open>flt\<close> is the error the driver
  reports instead of executing (a lost connection, a busy database): such a statement changes nothing.
  \<open>plan\<close> is the order in which the engine visits the rows of a table, which SQL leaves open and
  \<open>ORDER BY\<close> refines. A query that fails half-way reports its error through \<open>rows.Err\<close> and is a
  failed query here. Usage records are in \<open>Usage_Store\<close>, which extends the database.
\<close>

section \<open>Schema\<close>

record org_row =
  og_id :: string
  og_name :: string
  og_allowed_models :: "string option"
  og_rpm_limit :: "int option"
  og_tpm_limit :: "int option"
  og_max_budget :: "float64 option"
  og_created_at :: string

record team_row =
  tm_id :: string
  tm_org_id :: string
  tm_name :: string
  tm_allowed_models :: "string option"
  tm_rpm_limit :: "int option"
  tm_tpm_limit :: "int option"
  tm_max_budget :: "float64 option"

record provider_row =
  pv_id :: string
  pv_name :: string
  pv_type :: string
  pv_base_url :: string
  pv_api_key_enc :: string
  pv_models :: "string option"
  pv_priority :: int
  pv_weight :: int
  pv_enabled :: int
  pv_max_rps :: int
  pv_timeout_ms :: int

record key_row =
  kr_id :: string
  kr_key_hash :: string
  kr_key_prefix :: string
  kr_user_id :: "string option"
  kr_team_id :: "string option"
  kr_org_id :: string
  kr_role :: string
  kr_allowed_models :: "string option"
  kr_rpm_limit :: "int option"
  kr_tpm_limit :: "int option"
  kr_max_budget :: "float64 option"
  kr_expires_at :: "string option"
  kr_blocked :: int
  kr_last_used_at :: "string option"
  kr_created_at :: string

record route_row =
  rr_id :: string
  rr_model_alias :: string
  rr_targets :: string
  rr_strategy :: string
  rr_cache_ttl_s :: int

record db =
  organizations :: "org_row list"
  teams :: "team_row list"
  providers :: "provider_row list"
  api_keys :: "key_row list"
  routes :: "route_row list"

text \<open>The state the migrations leave: the default organization and nothing else. Its creation
  time is SQLite's \<open>datetime('now')\<close>, an argument.\<close>

definition runMigrations :: "string \<Rightarrow> db" where
  "runMigrations datetime_now =
     \<lparr>organizations = [\<lparr>og_id = ''default'', og_name = ''Default Organization'', og_allowed_models = None,
        og_rpm_limit = None, og_tpm_limit = None, og_max_budget = None, og_created_at = datetime_now\<rparr>],
      teams = [], providers = [], api_keys = [], routes = []\<rparr>"

section \<open>Statements\<close>

text \<open>An executed statement gives the number of affected rows and the new database.\<close>

definition ExecContext ::
  "goerror option \<Rightarrow> ('d \<Rightarrow> goerror + int \<times> 'd) \<Rightarrow> 'd \<Rightarrow> (goerror + int) \<times> 'd" where
  "ExecContext flt stmt d =
     (case flt of
        Some err \<Rightarrow> (Inl err, d)
      | None \<Rightarrow> (case stmt d of Inl err \<Rightarrow> (Inl err, d) | Inr (n, d') \<Rightarrow> (Inr n, d')))"

definition QueryContext :: "goerror option \<Rightarrow> 'a list \<Rightarrow> goerror + 'a list" where
  "QueryContext flt rows = (case flt of Some err \<Rightarrow> Inl err | None \<Rightarrow> Inr rows)"

text \<open>The first row of a query, if there is one; \<open>sql.ErrNoRows\<close> otherwise.\<close>

definition ErrNoRows :: goerror where
  "ErrNoRows = ErrorString ''sql: no rows in result set''"

definition QueryRowContext :: "goerror option \<Rightarrow> 'a list \<Rightarrow> goerror + 'a" where
  "QueryRowContext flt rows =
     (case flt of
        Some err \<Rightarrow> Inl err
      | None \<Rightarrow> (case rows of [] \<Rightarrow> Inl ErrNoRows | r # _ \<Rightarrow> Inr r))"

definition constraint_failed :: "string \<Rightarrow> goerror" where
  "constraint_failed what = ErrorString (''constraint failed: '' @ what)"

definition order_by :: "('a \<Rightarrow> 'k::linorder) \<Rightarrow> 'a list \<Rightarrow> 'a list" where
  "order_by key rows = sort_key key rows"

definition order_by_desc :: "('a \<Rightarrow> 'k::linorder) \<Rightarrow> 'a list \<Rightarrow> 'a list" where
  "order_by_desc key rows = rev (sort_key key rows)"

text \<open>\<open>LIMIT ? OFFSET ?\<close>: a negative limit is none, a negative offset is 0.\<close>

definition limit_offset :: "int \<Rightarrow> int \<Rightarrow> 'a list \<Rightarrow> 'a list" where
  "limit_offset limit offset rows =
     (let rest = drop (nat offset) rows in if limit < 0 then rest else take (nat limit) rest)"

text \<open>Scanning stops at the first row that does not scan.\<close>

fun scan_rows :: "('r \<Rightarrow> goerror + 'a) \<Rightarrow> 'r list \<Rightarrow> goerror + 'a list" where
  "scan_rows f [] = Inr []"
| "scan_rows f (r # rs) =
     (case f r of
        Inl err \<Rightarrow> Inl err
      | Inr x \<Rightarrow> (case scan_rows f rs of Inl err \<Rightarrow> Inl err | Inr xs \<Rightarrow> Inr (x # xs)))"

definition query_rows :: "goerror option \<Rightarrow> ('r \<Rightarrow> goerror + 'a) \<Rightarrow> 'r list \<Rightarrow> goerror + 'a list" where
  "query_rows flt f rows = (case QueryContext flt rows of Inl err \<Rightarrow> Inl err | Inr rs \<Rightarrow> scan_rows f rs)"

section \<open>Helpers\<close>

definition notFoundErr :: "goerror \<Rightarrow> goerror" where
  "notFoundErr err = (if errors_Is err ErrNoRows then Sentinel ErrNotFound else err)"

definition marshalJSON :: "string list \<Rightarrow> goerror + string option" where
  "marshalJSON v =
     (if v = [] then Inr None
      else (case json_marshal (OArr (map OStr v)) of
              None \<Rightarrow> Inl (ErrorString ''json: error calling MarshalJSON'')
            | Some b \<Rightarrow> Inr (Some b)))"

definition unmarshalStringSlice :: "string option \<Rightarrow> goerror + string list" where
  "unmarshalStringSlice ns =
     (case ns of
        None \<Rightarrow> Inr []
      | Some s \<Rightarrow>
          (case json_Unmarshal s (dec_list dec_string '''') [] of
             Inl err \<Rightarrow> Inl (Wrapf ''unmarshal string slice'' [err])
           | Inr v \<Rightarrow> Inr v))"

definition timeToStr :: "gotime option \<Rightarrow> string option" where
  "timeToStr t = (case t of None \<Rightarrow> None | Some t \<Rightarrow> Some (time_Format t))"

definition parseTime :: "string option \<Rightarrow> gotime option" where
  "parseTime ns = (case ns of None \<Rightarrow> None | Some s \<Rightarrow> time_Parse s)"

definition boolToInt :: "bool \<Rightarrow> int" where
  "boolToInt b = (if b then 1 else 0)"

definition nullStr :: "string \<Rightarrow> string option" where
  "nullStr s = (if s = '''' then None else Some s)"

definition null_string :: "string option \<Rightarrow> string" where
  "null_string ns = (case ns of None \<Rightarrow> '''' | Some s \<Rightarrow> s)"

definition checkRowsAffected :: "int \<Rightarrow> string \<Rightarrow> goerror option" where
  "checkRowsAffected n entity = (if n = 0 then Some (Wrapf entity [Sentinel ErrNotFound]) else None)"

text \<open>The end of every \<open>UPDATE\<close> and \<open>DELETE\<close>: an error of the driver, or no matching row.\<close>

definition affected :: "string \<Rightarrow> (goerror + int) \<times> 'd \<Rightarrow> goerror option \<times> 'd" where
  "affected entity r =
     (case r of (Inl err, d) \<Rightarrow> (Some err, d) | (Inr n, d) \<Rightarrow> (checkRowsAffected n entity, d))"

definition exec_err :: "(goerror + int) \<times> 'd \<Rightarrow> goerror option \<times> 'd" where
  "exec_err r = (case r of (Inl err, d) \<Rightarrow> (Some err, d) | (Inr n, d) \<Rightarrow> (None, d))"


section \<open>Organizations and teams\<close>

definition scanOrg :: "org_row \<Rightarrow> goerror + Organization" where
  "scanOrg r =
     (case unmarshalStringSlice (og_allowed_models r) of
        Inl err \<Rightarrow> Inl err
      | Inr models \<Rightarrow>
          Inr \<lparr>org_ID = og_id r, org_Name = og_name r, org_AllowedModels = models,
            org_RPMLimit = og_rpm_limit r, org_TPMLimit = og_tpm_limit r, org_MaxBudget = og_max_budget r,
            org_CreatedAt = (case parseTime (Some (og_created_at r)) of Some t \<Rightarrow> t | None \<Rightarrow> zero_time)\<rparr>)"

definition scanTeam :: "team_row \<Rightarrow> goerror + Team" where
  "scanTeam r =
     (case unmarshalStringSlice (tm_allowed_models r) of
        Inl err \<Rightarrow> Inl err
      | Inr models \<Rightarrow>
          Inr \<lparr>team_ID = tm_id r, team_OrgID = tm_org_id r, team_Name = tm_name r, team_AllowedModels = models,
            team_RPMLimit = tm_rpm_limit r, team_TPMLimit = tm_tpm_limit r, team_MaxBudget = tm_max_budget r\<rparr>)"

text \<open>\<open>Scan\<close> of the row of a query that should have one.\<close>

definition scan_one :: "(goerror + 'r) \<Rightarrow> ('r \<Rightarrow> goerror + 'a) \<Rightarrow> goerror + 'a" where
  "scan_one row scan = (case row of Inl err \<Rightarrow> Inl (notFoundErr err) | Inr r \<Rightarrow> scan r)"

definition insert_org :: "org_row \<Rightarrow> db \<Rightarrow> goerror + int \<times> db" where
  "insert_org r d =
     (if og_id r \<in> set (map og_id (organizations d)) then Inl (constraint_failed ''organizations.id'')
      else Inr (1, d\<lparr>organizations := organizations d @ [r]\<rparr>))"

definition CreateOrg :: "goerror option \<Rightarrow> Organization \<Rightarrow> db \<Rightarrow> goerror option \<times> db" where
  "CreateOrg flt org d =
     (case marshalJSON (org_AllowedModels org) of
        Inl err \<Rightarrow> (Some err, d)
      | Inr models \<Rightarrow>
          exec_err (ExecContext flt (insert_org
            \<lparr>og_id = org_ID org, og_name = org_Name org, og_allowed_models = models, og_rpm_limit = org_RPMLimit org,
             og_tpm_limit = org_TPMLimit org, og_max_budget = org_MaxBudget org,
             og_created_at = time_Format (org_CreatedAt org)\<rparr>) d))"

definition GetOrg :: "goerror option \<Rightarrow> string \<Rightarrow> db \<Rightarrow> goerror + Organization" where
  "GetOrg flt i d = scan_one (QueryRowContext flt (filter (\<lambda>r. og_id r = i) (organizations d))) scanOrg"

definition ListOrgs ::
  "goerror option \<Rightarrow> (org_row list \<Rightarrow> org_row list) \<Rightarrow> int \<Rightarrow> int \<Rightarrow> db \<Rightarrow> goerror + Organization list" where
  "ListOrgs flt plan offset limit d =
     query_rows flt scanOrg (limit_offset limit offset (order_by og_name (plan (organizations d))))"

definition update_org :: "Organization \<Rightarrow> string option \<Rightarrow> db \<Rightarrow> goerror + int \<times> db" where
  "update_org org models d =
     (let hit = (\<lambda>r. og_id r = org_ID org)
      in Inr (int (length (filter hit (organizations d))),
           d\<lparr>organizations := map (\<lambda>r. if hit r then r\<lparr>og_name := org_Name org, og_allowed_models := models,
             og_rpm_limit := org_RPMLimit org, og_tpm_limit := org_TPMLimit org, og_max_budget := org_MaxBudget org\<rparr>
             else r) (organizations d)\<rparr>))"

definition UpdateOrg :: "goerror option \<Rightarrow> Organization \<Rightarrow> db \<Rightarrow> goerror option \<times> db" where
  "UpdateOrg flt org d =
     (case marshalJSON (org_AllowedModels org) of
        Inl err \<Rightarrow> (Some err, d)
      | Inr models \<Rightarrow> affected ''organization'' (ExecContext flt (update_org org models) d))"

text \<open>Deleting an organization deletes its keys and its teams (\<open>ON DELETE CASCADE\<close>); a key of
  another organization that names a deleted team loses it (\<open>ON DELETE SET NULL\<close>).\<close>

definition clear_teams :: "string list \<Rightarrow> key_row \<Rightarrow> key_row" where
  "clear_teams gone k =
     (case kr_team_id k of Some t \<Rightarrow> (if t \<in> set gone then k\<lparr>kr_team_id := None\<rparr> else k) | None \<Rightarrow> k)"

definition delete_org :: "string \<Rightarrow> db \<Rightarrow> goerror + int \<times> db" where
  "delete_org i d =
     (let n = length (filter (\<lambda>r. og_id r = i) (organizations d));
          gone = map tm_id (filter (\<lambda>t. tm_org_id t = i) (teams d))
      in if n = 0 then Inr (0, d)
         else Inr (int n, d\<lparr>organizations := filter (\<lambda>r. og_id r \<noteq> i) (organizations d),
                  teams := filter (\<lambda>t. tm_org_id t \<noteq> i) (teams d),
                  api_keys := map (clear_teams gone) (filter (\<lambda>k. kr_org_id k \<noteq> i) (api_keys d))\<rparr>))"

definition DeleteOrg :: "goerror option \<Rightarrow> string \<Rightarrow> db \<Rightarrow> goerror option \<times> db" where
  "DeleteOrg flt i d = affected ''organization'' (ExecContext flt (delete_org i) d)"

definition insert_team :: "team_row \<Rightarrow> db \<Rightarrow> goerror + int \<times> db" where
  "insert_team r d =
     (if tm_id r \<in> set (map tm_id (teams d)) then Inl (constraint_failed ''teams.id'')
      else if tm_org_id r \<notin> set (map og_id (organizations d)) then Inl (constraint_failed ''FOREIGN KEY'')
      else Inr (1, d\<lparr>teams := teams d @ [r]\<rparr>))"

definition CreateTeam :: "goerror option \<Rightarrow> Team \<Rightarrow> db \<Rightarrow> goerror option \<times> db" where
  "CreateTeam flt team d =
     (case marshalJSON (team_AllowedModels team) of
        Inl err \<Rightarrow> (Some err, d)
      | Inr models \<Rightarrow>
          exec_err (ExecContext flt (insert_team
            \<lparr>tm_id = team_ID team, tm_org_id = team_OrgID team, tm_name = team_Name team, tm_allowed_models = models,
             tm_rpm_limit = team_RPMLimit team, tm_tpm_limit = team_TPMLimit team,
             tm_max_budget = team_MaxBudget team\<rparr>) d))"

definition GetTeam :: "goerror option \<Rightarrow> string \<Rightarrow> db \<Rightarrow> goerror + Team" where
  "GetTeam flt i d = scan_one (QueryRowContext flt (filter (\<lambda>r. tm_id r = i) (teams d))) scanTeam"

definition ListTeams ::
  "goerror option \<Rightarrow> (team_row list \<Rightarrow> team_row list) \<Rightarrow> string \<Rightarrow> int \<Rightarrow> int \<Rightarrow> db \<Rightarrow> goerror + Team list" where
  "ListTeams flt plan orgID offset limit d =
     query_rows flt scanTeam
       (limit_offset limit offset (order_by tm_name (filter (\<lambda>r. tm_org_id r = orgID) (plan (teams d)))))"

definition update_team :: "Team \<Rightarrow> string option \<Rightarrow> db \<Rightarrow> goerror + int \<times> db" where
  "update_team team models d =
     (let hit = (\<lambda>r. tm_id r = team_ID team)
      in Inr (int (length (filter hit (teams d))),
           d\<lparr>teams := map (\<lambda>r. if hit r then r\<lparr>tm_name := team_Name team, tm_allowed_models := models,
             tm_rpm_limit := team_RPMLimit team, tm_tpm_limit := team_TPMLimit team, tm_max_budget := team_MaxBudget team\<rparr>
             else r) (teams d)\<rparr>))"

definition UpdateTeam :: "goerror option \<Rightarrow> Team \<Rightarrow> db \<Rightarrow> goerror option \<times> db" where
  "UpdateTeam flt team d =
     (case marshalJSON (team_AllowedModels team) of
        Inl err \<Rightarrow> (Some err, d)
      | Inr models \<Rightarrow> affected ''team'' (ExecContext flt (update_team team models) d))"

definition delete_team :: "string \<Rightarrow> db \<Rightarrow> goerror + int \<times> db" where
  "delete_team i d =
     (let n = length (filter (\<lambda>r. tm_id r = i) (teams d))
      in if n = 0 then Inr (0, d)
         else Inr (int n, d\<lparr>teams := filter (\<lambda>r. tm_id r \<noteq> i) (teams d),
                  api_keys := map (clear_teams [i]) (api_keys d)\<rparr>))"

definition DeleteTeam :: "goerror option \<Rightarrow> string \<Rightarrow> db \<Rightarrow> goerror option \<times> db" where
  "DeleteTeam flt i d = affected ''team'' (ExecContext flt (delete_team i) d)"


section \<open>API keys\<close>

definition or_member :: "string \<Rightarrow> string" where
  "or_member role = (if role = '''' then ''member'' else role)"

definition scanKey :: "key_row \<Rightarrow> goerror + APIKey" where
  "scanKey r =
     (case unmarshalStringSlice (kr_allowed_models r) of
        Inl err \<Rightarrow> Inl err
      | Inr models \<Rightarrow>
          Inr \<lparr>key_ID = kr_id r, key_Hash = kr_key_hash r, key_Prefix = kr_key_prefix r,
            key_UserID = null_string (kr_user_id r), key_TeamID = null_string (kr_team_id r), key_OrgID = kr_org_id r,
            key_Role = or_member (kr_role r), key_AllowedModels = models, key_RPMLimit = kr_rpm_limit r,
            key_TPMLimit = kr_tpm_limit r, key_MaxBudget = kr_max_budget r, key_ExpiresAt = parseTime (kr_expires_at r),
            key_Blocked = (kr_blocked r \<noteq> 0), key_LastUsedAt = parseTime (kr_last_used_at r),
            key_CreatedAt = (case parseTime (Some (kr_created_at r)) of Some t \<Rightarrow> t | None \<Rightarrow> zero_time)\<rparr>)"

definition key_values :: "APIKey \<Rightarrow> string option \<Rightarrow> key_row" where
  "key_values key models =
     \<lparr>kr_id = key_ID key, kr_key_hash = key_Hash key, kr_key_prefix = key_Prefix key,
      kr_user_id = nullStr (key_UserID key), kr_team_id = nullStr (key_TeamID key), kr_org_id = key_OrgID key,
      kr_role = or_member (key_Role key), kr_allowed_models = models, kr_rpm_limit = key_RPMLimit key,
      kr_tpm_limit = key_TPMLimit key, kr_max_budget = key_MaxBudget key, kr_expires_at = timeToStr (key_ExpiresAt key),
      kr_blocked = boolToInt (key_Blocked key), kr_last_used_at = None, kr_created_at = time_Format (key_CreatedAt key)\<rparr>"

definition insert_key :: "key_row \<Rightarrow> db \<Rightarrow> goerror + int \<times> db" where
  "insert_key r d =
     (if kr_id r \<in> set (map kr_id (api_keys d)) then Inl (constraint_failed ''api_keys.id'')
      else if kr_key_hash r \<in> set (map kr_key_hash (api_keys d)) then Inl (constraint_failed ''api_keys.key_hash'')
      else if kr_org_id r \<notin> set (map og_id (organizations d)) \<or>
          (case kr_team_id r of Some t \<Rightarrow> t \<notin> set (map tm_id (teams d)) | None \<Rightarrow> False) then Inl (constraint_failed ''FOREIGN KEY'')
      else Inr (1, d\<lparr>api_keys := api_keys d @ [r]\<rparr>))"

definition st_CreateKey :: "goerror option \<Rightarrow> APIKey \<Rightarrow> db \<Rightarrow> goerror option \<times> db" where
  "st_CreateKey flt key d =
     (case marshalJSON (key_AllowedModels key) of
        Inl err \<Rightarrow> (Some err, d)
      | Inr models \<Rightarrow> exec_err (ExecContext flt (insert_key (key_values key models)) d))"

definition GetKeyByHash :: "goerror option \<Rightarrow> string \<Rightarrow> db \<Rightarrow> goerror + APIKey" where
  "GetKeyByHash flt hash d = scan_one (QueryRowContext flt (filter (\<lambda>r. kr_key_hash r = hash) (api_keys d))) scanKey"

definition GetKey :: "goerror option \<Rightarrow> string \<Rightarrow> db \<Rightarrow> goerror + APIKey" where
  "GetKey flt i d = scan_one (QueryRowContext flt (filter (\<lambda>r. kr_id r = i) (api_keys d))) scanKey"

definition ListKeys ::
  "goerror option \<Rightarrow> (key_row list \<Rightarrow> key_row list) \<Rightarrow> string \<Rightarrow> int \<Rightarrow> int \<Rightarrow> db \<Rightarrow> goerror + APIKey list" where
  "ListKeys flt plan orgID offset limit d =
     query_rows flt scanKey
       (limit_offset limit offset (order_by_desc kr_created_at (filter (\<lambda>r. kr_org_id r = orgID) (plan (api_keys d)))))"

definition set_key :: "APIKey \<Rightarrow> string option \<Rightarrow> key_row \<Rightarrow> key_row" where
  "set_key key models r =
     r\<lparr>kr_role := or_member (key_Role key), kr_allowed_models := models, kr_rpm_limit := key_RPMLimit key,
       kr_tpm_limit := key_TPMLimit key, kr_max_budget := key_MaxBudget key, kr_expires_at := timeToStr (key_ExpiresAt key),
       kr_blocked := boolToInt (key_Blocked key)\<rparr>"

definition update_key :: "APIKey \<Rightarrow> string option \<Rightarrow> db \<Rightarrow> goerror + int \<times> db" where
  "update_key key models d =
     (let hit = (\<lambda>r. kr_id r = key_ID key)
      in Inr (int (length (filter hit (api_keys d))),
           d\<lparr>api_keys := map (\<lambda>r. if hit r then set_key key models r else r) (api_keys d)\<rparr>))"

definition UpdateKey :: "goerror option \<Rightarrow> APIKey \<Rightarrow> db \<Rightarrow> goerror option \<times> db" where
  "UpdateKey flt key d =
     (case marshalJSON (key_AllowedModels key) of
        Inl err \<Rightarrow> (Some err, d)
      | Inr models \<Rightarrow> affected ''api key'' (ExecContext flt (update_key key models) d))"

definition delete_key :: "string \<Rightarrow> db \<Rightarrow> goerror + int \<times> db" where
  "delete_key i d =
     Inr (int (length (filter (\<lambda>r. kr_id r = i) (api_keys d))),
       d\<lparr>api_keys := filter (\<lambda>r. kr_id r \<noteq> i) (api_keys d)\<rparr>)"

definition st_DeleteKey :: "goerror option \<Rightarrow> string \<Rightarrow> db \<Rightarrow> goerror option \<times> db" where
  "st_DeleteKey flt i d = affected ''api key'' (ExecContext flt (delete_key i) d)"

text \<open>The Go map of the budgets, later rows over earlier ones.\<close>

definition ListBudgetedKeyIDs ::
  "goerror option \<Rightarrow> (key_row list \<Rightarrow> key_row list) \<Rightarrow> db \<Rightarrow> goerror + (string \<rightharpoonup> float64)" where
  "ListBudgetedKeyIDs flt plan d =
     (case QueryContext flt (filter (\<lambda>r. case kr_max_budget r of Some b \<Rightarrow> b > 0 | None \<Rightarrow> False) (plan (api_keys d))) of
        Inl err \<Rightarrow> Inl err
      | Inr rows \<Rightarrow> Inr (foldl (\<lambda>m r. m(kr_id r := kr_max_budget r)) Map.empty rows))"

definition touch_key :: "gotime \<Rightarrow> string \<Rightarrow> db \<Rightarrow> goerror + int \<times> db" where
  "touch_key now i d =
     Inr (int (length (filter (\<lambda>r. kr_id r = i) (api_keys d))),
       d\<lparr>api_keys := map (\<lambda>r. if kr_id r = i then r\<lparr>kr_last_used_at := Some (time_Format now)\<rparr> else r) (api_keys d)\<rparr>)"

definition TouchKeyUsed :: "goerror option \<Rightarrow> gotime \<Rightarrow> string \<Rightarrow> db \<Rightarrow> goerror option \<times> db" where
  "TouchKeyUsed flt now i d = exec_err (ExecContext flt (touch_key now i) d)"

text \<open>A count: the number of rows, and 0 beside an error.\<close>

definition sql_count :: "goerror option \<Rightarrow> 'r list \<Rightarrow> int \<times> goerror option" where
  "sql_count flt rows = (case flt of Some err \<Rightarrow> (0, Some err) | None \<Rightarrow> (int (length rows), None))"

definition CountKeys :: "goerror option \<Rightarrow> string \<Rightarrow> db \<Rightarrow> int \<times> goerror option" where
  "CountKeys flt orgID d = sql_count flt (filter (\<lambda>r. kr_org_id r = orgID) (api_keys d))"

section \<open>Providers\<close>

definition scanProvider :: "provider_row \<Rightarrow> goerror + ProviderConfig" where
  "scanProvider r =
     (case unmarshalStringSlice (pv_models r) of
        Inl err \<Rightarrow> Inl err
      | Inr models \<Rightarrow>
          Inr \<lparr>pc_ID = pv_id r, pc_Name = pv_name r, pc_Type = pv_type r, pc_BaseURL = pv_base_url r,
            pc_APIKeyEnc = pv_api_key_enc r, pc_Models = models, pc_Priority = pv_priority r, pc_Weight = pv_weight r,
            pc_Enabled = (pv_enabled r \<noteq> 0), pc_MaxRPS = pv_max_rps r, pc_TimeoutMs = pv_timeout_ms r\<rparr>)"

definition provider_values :: "ProviderConfig \<Rightarrow> string option \<Rightarrow> provider_row" where
  "provider_values p models =
     \<lparr>pv_id = pc_ID p, pv_name = pc_Name p, pv_type = pc_Type p, pv_base_url = pc_BaseURL p,
      pv_api_key_enc = pc_APIKeyEnc p, pv_models = models, pv_priority = pc_Priority p, pv_weight = pc_Weight p,
      pv_enabled = boolToInt (pc_Enabled p), pv_max_rps = pc_MaxRPS p, pv_timeout_ms = pc_TimeoutMs p\<rparr>"

definition insert_provider :: "provider_row \<Rightarrow> db \<Rightarrow> goerror + int \<times> db" where
  "insert_provider r d =
     (if pv_id r \<in> set (map pv_id (providers d)) then Inl (constraint_failed ''providers.id'')
      else Inr (1, d\<lparr>providers := providers d @ [r]\<rparr>))"

definition CreateProvider :: "goerror option \<Rightarrow> ProviderConfig \<Rightarrow> db \<Rightarrow> goerror option \<times> db" where
  "CreateProvider flt p d =
     (case marshalJSON (pc_Models p) of
        Inl err \<Rightarrow> (Some err, d)
      | Inr models \<Rightarrow> exec_err (ExecContext flt (insert_provider (provider_values p models)) d))"

definition GetProvider :: "goerror option \<Rightarrow> string \<Rightarrow> db \<Rightarrow> goerror + ProviderConfig" where
  "GetProvider flt i d = scan_one (QueryRowContext flt (filter (\<lambda>r. pv_id r = i) (providers d))) scanProvider"

definition ListProviders ::
  "goerror option \<Rightarrow> (provider_row list \<Rightarrow> provider_row list) \<Rightarrow> db \<Rightarrow> goerror + ProviderConfig list" where
  "ListProviders flt plan d = query_rows flt scanProvider (order_by pv_priority (plan (providers d)))"

definition update_provider :: "ProviderConfig \<Rightarrow> string option \<Rightarrow> db \<Rightarrow> goerror + int \<times> db" where
  "update_provider p models d =
     (let hit = (\<lambda>r. pv_id r = pc_ID p)
      in Inr (int (length (filter hit (providers d))),
           d\<lparr>providers := map (\<lambda>r. if hit r then provider_values p models else r) (providers d)\<rparr>))"

definition UpdateProvider :: "goerror option \<Rightarrow> ProviderConfig \<Rightarrow> db \<Rightarrow> goerror option \<times> db" where
  "UpdateProvider flt p d =
     (case marshalJSON (pc_Models p) of
        Inl err \<Rightarrow> (Some err, d)
      | Inr models \<Rightarrow> affected ''provider'' (ExecContext flt (update_provider p models) d))"

definition delete_provider :: "string \<Rightarrow> db \<Rightarrow> goerror + int \<times> db" where
  "delete_provider i d =
     Inr (int (length (filter (\<lambda>r. pv_id r = i) (providers d))),
       d\<lparr>providers := filter (\<lambda>r. pv_id r \<noteq> i) (providers d)\<rparr>)"

definition DeleteProvider :: "goerror option \<Rightarrow> string \<Rightarrow> db \<Rightarrow> goerror option \<times> db" where
  "DeleteProvider flt i d = affected ''provider'' (ExecContext flt (delete_provider i) d)"

definition CountProviders :: "goerror option \<Rightarrow> db \<Rightarrow> int \<times> goerror option" where
  "CountProviders flt d = sql_count flt (providers d)"

section \<open>Routes\<close>

definition scanRoute :: "route_row \<Rightarrow> goerror + Route" where
  "scanRoute r =
     Inr \<lparr>rt_ID = rr_id r, rt_ModelAlias = rr_model_alias r, rt_Targets = rr_targets r, rt_Strategy = rr_strategy r,
       rt_CacheTTLs = rr_cache_ttl_s r\<rparr>"

definition route_values :: "Route \<Rightarrow> route_row" where
  "route_values r =
     \<lparr>rr_id = rt_ID r, rr_model_alias = rt_ModelAlias r, rr_targets = rt_Targets r, rr_strategy = rt_Strategy r,
      rr_cache_ttl_s = rt_CacheTTLs r\<rparr>"

definition insert_route :: "route_row \<Rightarrow> db \<Rightarrow> goerror + int \<times> db" where
  "insert_route r d =
     (if rr_id r \<in> set (map rr_id (routes d)) then Inl (constraint_failed ''routes.id'')
      else if rr_model_alias r \<in> set (map rr_model_alias (routes d)) then Inl (constraint_failed ''routes.model_alias'')
      else Inr (1, d\<lparr>routes := routes d @ [r]\<rparr>))"

definition CreateRoute :: "goerror option \<Rightarrow> Route \<Rightarrow> db \<Rightarrow> goerror option \<times> db" where
  "CreateRoute flt r d = exec_err (ExecContext flt (insert_route (route_values r)) d)"

definition GetRoute :: "goerror option \<Rightarrow> string \<Rightarrow> db \<Rightarrow> goerror + Route" where
  "GetRoute flt i d = scan_one (QueryRowContext flt (filter (\<lambda>r. rr_id r = i) (routes d))) scanRoute"

definition CountRoutes :: "goerror option \<Rightarrow> db \<Rightarrow> int \<times> goerror option" where
  "CountRoutes flt d = sql_count flt (routes d)"

definition GetRouteByAlias :: "goerror option \<Rightarrow> string \<Rightarrow> db \<Rightarrow> goerror + Route" where
  "GetRouteByAlias flt alias d =
     scan_one (QueryRowContext flt (filter (\<lambda>r. rr_model_alias r = alias) (routes d))) scanRoute"

definition ListRoutes :: "goerror option \<Rightarrow> (route_row list \<Rightarrow> route_row list) \<Rightarrow> db \<Rightarrow> goerror + Route list" where
  "ListRoutes flt plan d = query_rows flt scanRoute (order_by rr_model_alias (plan (routes d)))"

text \<open>An update may not take the alias of another route.\<close>

definition update_route :: "Route \<Rightarrow> db \<Rightarrow> goerror + int \<times> db" where
  "update_route r d =
     (let hit = (\<lambda>x. rr_id x = rt_ID r);
          others = filter (\<lambda>x. \<not> hit x) (routes d)
      in if filter hit (routes d) \<noteq> [] \<and> rt_ModelAlias r \<in> set (map rr_model_alias others)
         then Inl (constraint_failed ''routes.model_alias'')
         else Inr (int (length (filter hit (routes d))),
           d\<lparr>routes := map (\<lambda>x. if hit x then route_values r else x) (routes d)\<rparr>))"

definition UpdateRoute :: "goerror option \<Rightarrow> Route \<Rightarrow> db \<Rightarrow> goerror option \<times> db" where
  "UpdateRoute flt r d = affected ''route'' (ExecContext flt (update_route r) d)"

definition delete_route :: "string \<Rightarrow> db \<Rightarrow> goerror + int \<times> db" where
  "delete_route i d =
     Inr (int (length (filter (\<lambda>r. rr_id r = i) (routes d))),
       d\<lparr>routes := filter (\<lambda>r. rr_id r \<noteq> i) (routes d)\<rparr>)"

definition DeleteRoute :: "goerror option \<Rightarrow> string \<Rightarrow> db \<Rightarrow> goerror option \<times> db" where
  "DeleteRoute flt i d = affected ''route'' (ExecContext flt (delete_route i) d)"


section \<open>The invariant of the schema\<close>

definition db_ok :: "db \<Rightarrow> bool" where
  "db_ok d \<longleftrightarrow>
     distinct (map og_id (organizations d)) \<and> distinct (map tm_id (teams d)) \<and> distinct (map pv_id (providers d)) \<and>
     distinct (map kr_id (api_keys d)) \<and> distinct (map kr_key_hash (api_keys d)) \<and>
     distinct (map rr_id (routes d)) \<and> distinct (map rr_model_alias (routes d)) \<and>
     set (map tm_org_id (teams d)) \<subseteq> set (map og_id (organizations d)) \<and>
     set (map kr_org_id (api_keys d)) \<subseteq> set (map og_id (organizations d)) \<and>
     (\<forall>t. Some t \<in> set (map kr_team_id (api_keys d)) \<longrightarrow> t \<in> set (map tm_id (teams d)))"

datatype db_op =
    OpCreateOrg Organization | OpUpdateOrg Organization | OpDeleteOrg string
  | OpCreateTeam Team | OpUpdateTeam Team | OpDeleteTeam string
  | OpCreateKey APIKey | OpUpdateKey APIKey | OpDeleteKey string | OpTouchKey gotime string
  | OpCreateProvider ProviderConfig | OpUpdateProvider ProviderConfig | OpDeleteProvider string
  | OpCreateRoute Route | OpUpdateRoute Route | OpDeleteRoute string

fun db_exec :: "goerror option \<Rightarrow> db_op \<Rightarrow> db \<Rightarrow> goerror option \<times> db" where
  "db_exec flt (OpCreateOrg x) = CreateOrg flt x"
| "db_exec flt (OpUpdateOrg x) = UpdateOrg flt x"
| "db_exec flt (OpDeleteOrg i) = DeleteOrg flt i"
| "db_exec flt (OpCreateTeam x) = CreateTeam flt x"
| "db_exec flt (OpUpdateTeam x) = UpdateTeam flt x"
| "db_exec flt (OpDeleteTeam i) = DeleteTeam flt i"
| "db_exec flt (OpCreateKey x) = st_CreateKey flt x"
| "db_exec flt (OpUpdateKey x) = UpdateKey flt x"
| "db_exec flt (OpDeleteKey i) = st_DeleteKey flt i"
| "db_exec flt (OpTouchKey now i) = TouchKeyUsed flt now i"
| "db_exec flt (OpCreateProvider x) = CreateProvider flt x"
| "db_exec flt (OpUpdateProvider x) = UpdateProvider flt x"
| "db_exec flt (OpDeleteProvider i) = DeleteProvider flt i"
| "db_exec flt (OpCreateRoute x) = CreateRoute flt x"
| "db_exec flt (OpUpdateRoute x) = UpdateRoute flt x"
| "db_exec flt (OpDeleteRoute i) = DeleteRoute flt i"

definition db_run :: "(goerror option \<times> db_op) list \<Rightarrow> db \<Rightarrow> db" where
  "db_run steps d = foldl (\<lambda>d (flt, p). snd (db_exec flt p d)) d steps"

text \<open>A statement keeps a property of databases if its effect does, whatever the driver reports.\<close>

lemma exec_keeps:
  assumes "P d" and "\<And>n d'. stmt d = Inr (n, d') \<Longrightarrow> P d'"
  shows "P (snd (exec_err (ExecContext flt stmt d)))" "P (snd (affected e (ExecContext flt stmt d)))"
  using assms by (auto simp: exec_err_def affected_def ExecContext_def split: option.splits sum.splits prod.splits)

lemma map_upd_id: "(\<And>r. f (g r) = f r) \<Longrightarrow> map (f \<circ> (\<lambda>r. if P r then g r else r)) xs = map f xs"
  by (induction xs) auto

lemma clear_teams_simps [simp]:
  "kr_id (clear_teams ts k) = kr_id k" "kr_key_hash (clear_teams ts k) = kr_key_hash k"
  "kr_org_id (clear_teams ts k) = kr_org_id k"
  "kr_team_id (clear_teams ts k) = (case kr_team_id k of Some t \<Rightarrow> if t \<in> set ts then None else Some t | None \<Rightarrow> None)"
  by (auto simp: clear_teams_def split: option.splits)

lemma clear_teams_map [simp]:
  "map (kr_id \<circ> clear_teams ts) = map kr_id" "map (kr_key_hash \<circ> clear_teams ts) = map kr_key_hash"
  by (auto simp: fun_eq_iff)

lemma set_key_simps [simp]:
  "kr_id (set_key key m r) = kr_id r" "kr_key_hash (set_key key m r) = kr_key_hash r"
  "kr_org_id (set_key key m r) = kr_org_id r" "kr_team_id (set_key key m r) = kr_team_id r"
  by (simp_all add: set_key_def)

named_theorems stmt_defs \<open>the statements\<close>
lemmas [stmt_defs] = insert_org_def update_org_def delete_org_def insert_team_def update_team_def delete_team_def
  insert_key_def update_key_def delete_key_def touch_key_def insert_provider_def update_provider_def
  delete_provider_def insert_route_def update_route_def delete_route_def

text \<open>The references, row by row.\<close>

definition ids_ok :: "db \<Rightarrow> bool" where
  "ids_ok d \<longleftrightarrow>
     distinct (map og_id (organizations d)) \<and> distinct (map tm_id (teams d)) \<and> distinct (map pv_id (providers d)) \<and>
     distinct (map kr_id (api_keys d)) \<and> distinct (map kr_key_hash (api_keys d)) \<and>
     distinct (map rr_id (routes d)) \<and> distinct (map rr_model_alias (routes d))"

lemma refs_rows:
  "set (map f xs) \<subseteq> set (map g ys) \<longleftrightarrow> (\<forall>x \<in> set xs. \<exists>y \<in> set ys. g y = f x)"
  "(\<forall>t. Some t \<in> set (map h xs) \<longrightarrow> t \<in> set (map g ys)) \<longleftrightarrow> (\<forall>x \<in> set xs. \<forall>t. h x = Some t \<longrightarrow> (\<exists>y \<in> set ys. g y = t))"
  by (auto simp: image_iff subset_iff) metis+

lemma db_ok_rows:
  "db_ok d \<longleftrightarrow> ids_ok d \<and> (\<forall>t \<in> set (teams d). \<exists>g \<in> set (organizations d). og_id g = tm_org_id t) \<and>
     (\<forall>k \<in> set (api_keys d). \<exists>g \<in> set (organizations d). og_id g = kr_org_id k) \<and>
     (\<forall>k \<in> set (api_keys d). \<forall>t. kr_team_id k = Some t \<longrightarrow> (\<exists>x \<in> set (teams d). tm_id x = t))"
  unfolding db_ok_def ids_ok_def refs_rows by blast

lemma delete_org_ok:
  assumes "db_ok d" "delete_org i d = Inr (n, d')"
  shows "db_ok d'"
proof (cases "filter (\<lambda>r. og_id r = i) (organizations d) = []")
  case False
  let ?gone = "map tm_id (filter (\<lambda>t. tm_org_id t = i) (teams d))"
  have d': "d' = d\<lparr>organizations := filter (\<lambda>r. og_id r \<noteq> i) (organizations d),
      teams := filter (\<lambda>t. tm_org_id t \<noteq> i) (teams d),
      api_keys := map (clear_teams ?gone) (filter (\<lambda>k. kr_org_id k \<noteq> i) (api_keys d))\<rparr>"
    using assms(2) False by (simp add: delete_org_def Let_def)
  note r = assms(1) [unfolded db_ok_rows]
  show ?thesis unfolding db_ok_rows
  proof (intro conjI ballI allI impI)
    show "ids_ok d'" using r by (simp add: ids_ok_def d' distinct_map_filter)
    fix t assume "t \<in> set (teams d')"
    then show "\<exists>g \<in> set (organizations d'). og_id g = tm_org_id t" using r unfolding d' by simp metis
  next
    fix k assume "k \<in> set (api_keys d')"
    then obtain k0 where k: "k0 \<in> set (api_keys d)" "kr_org_id k0 \<noteq> i" "k = clear_teams ?gone k0" by (auto simp: d')
    then show "\<exists>g \<in> set (organizations d'). og_id g = kr_org_id k" using r unfolding d' by simp metis
    fix t assume "kr_team_id k = Some t"
    with k have "kr_team_id k0 = Some t" "t \<notin> set ?gone" by (auto split: option.splits if_splits)
    moreover obtain x where "x \<in> set (teams d)" "tm_id x = t" using r k(1) calculation(1) by blast
    ultimately show "\<exists>x \<in> set (teams d'). tm_id x = t" unfolding d' by auto
  qed
qed (use assms in \<open>simp add: delete_org_def\<close>)

lemma delete_team_ok:
  assumes "db_ok d" "delete_team i d = Inr (n, d')"
  shows "db_ok d'"
proof (cases "filter (\<lambda>r. tm_id r = i) (teams d) = []")
  case False
  have d': "d' = d\<lparr>teams := filter (\<lambda>r. tm_id r \<noteq> i) (teams d), api_keys := map (clear_teams [i]) (api_keys d)\<rparr>"
    using assms(2) False by (simp add: delete_team_def Let_def)
  note r = assms(1) [unfolded db_ok_rows]
  show ?thesis unfolding db_ok_rows
  proof (intro conjI ballI allI impI)
    show "ids_ok d'" using r by (simp add: ids_ok_def d' distinct_map_filter)
    fix t assume "t \<in> set (teams d')"
    then show "\<exists>g \<in> set (organizations d'). og_id g = tm_org_id t" using r unfolding d' by simp
  next
    fix k assume "k \<in> set (api_keys d')"
    then obtain k0 where k: "k0 \<in> set (api_keys d)" "k = clear_teams [i] k0" by (auto simp: d')
    then show "\<exists>g \<in> set (organizations d'). og_id g = kr_org_id k" using r unfolding d' by simp
    fix t assume "kr_team_id k = Some t"
    with k have "kr_team_id k0 = Some t" "t \<noteq> i" by (auto split: option.splits if_splits)
    then show "\<exists>x \<in> set (teams d'). tm_id x = t" using r k(1) unfolding d' by auto metis
  qed
qed (use assms in \<open>simp add: delete_team_def\<close>)

lemma orgs_keep_db_ok:
  assumes "db_ok d"
  shows "insert_org r d = Inr (n, d') \<Longrightarrow> db_ok d'" "update_org org m d = Inr (n, d') \<Longrightarrow> db_ok d'"
    "delete_org i d = Inr (n, d') \<Longrightarrow> db_ok d'"
proof -
  show "insert_org r d = Inr (n, d') \<Longrightarrow> db_ok d'" using assms by (clarsimp simp: stmt_defs db_ok_def subset_insertI2 split: if_splits)
  show "update_org org m d = Inr (n, d') \<Longrightarrow> db_ok d'" using assms by (auto simp: stmt_defs db_ok_def map_upd_id simp del: set_map)
  show "delete_org i d = Inr (n, d') \<Longrightarrow> db_ok d'" using assms by (rule delete_org_ok)
qed

lemma teams_keep_db_ok:
  assumes "db_ok d"
  shows "insert_team r d = Inr (n, d') \<Longrightarrow> db_ok d'" "update_team team m d = Inr (n, d') \<Longrightarrow> db_ok d'"
    "delete_team i d = Inr (n, d') \<Longrightarrow> db_ok d'"
proof -
  show "insert_team r d = Inr (n, d') \<Longrightarrow> db_ok d'" using assms by (clarsimp simp: stmt_defs db_ok_def subset_insertI2 split: if_splits)
  show "update_team team m d = Inr (n, d') \<Longrightarrow> db_ok d'" using assms by (auto simp: stmt_defs db_ok_def map_upd_id simp del: set_map)
  show "delete_team i d = Inr (n, d') \<Longrightarrow> db_ok d'" using assms by (rule delete_team_ok)
qed

lemma keys_keep_db_ok:
  assumes "db_ok d"
  shows "insert_key r d = Inr (n, d') \<Longrightarrow> db_ok d'" "update_key key m d = Inr (n, d') \<Longrightarrow> db_ok d'"
    "delete_key i d = Inr (n, d') \<Longrightarrow> db_ok d'" "touch_key now i d = Inr (n, d') \<Longrightarrow> db_ok d'"
proof -
  show "insert_key r d = Inr (n, d') \<Longrightarrow> db_ok d'" using assms by (clarsimp simp: stmt_defs db_ok_def subset_insertI2 split: if_splits option.splits)
  show "update_key key m d = Inr (n, d') \<Longrightarrow> db_ok d'" using assms by (auto simp: stmt_defs db_ok_def map_upd_id simp del: set_map)
  show "delete_key i d = Inr (n, d') \<Longrightarrow> db_ok d'" using assms by (clarsimp simp: stmt_defs db_ok_rows ids_ok_def distinct_map_filter)
  show "touch_key now i d = Inr (n, d') \<Longrightarrow> db_ok d'" using assms by (auto simp: stmt_defs db_ok_def map_upd_id simp del: set_map)
qed


lemma providers_keep_db_ok:
  assumes "db_ok d"
  shows "insert_provider r d = Inr (n, d') \<Longrightarrow> db_ok d'" "update_provider p m d = Inr (n, d') \<Longrightarrow> db_ok d'"
    "delete_provider i d = Inr (n, d') \<Longrightarrow> db_ok d'"
proof -
  show "insert_provider r d = Inr (n, d') \<Longrightarrow> db_ok d'"
    using assms by (clarsimp simp: stmt_defs db_ok_rows ids_ok_def split: if_splits)
  have "map (pv_id \<circ> (\<lambda>r. if pv_id r = pc_ID p then provider_values p m else r)) rs = map pv_id rs" for rs
    by (induction rs) (auto simp: provider_values_def)
  note same = this
  show "update_provider p m d = Inr (n, d') \<Longrightarrow> db_ok d'"
    using assms by (clarsimp simp: stmt_defs db_ok_rows ids_ok_def same)
  show "delete_provider i d = Inr (n, d') \<Longrightarrow> db_ok d'"
    using assms by (clarsimp simp: stmt_defs db_ok_rows ids_ok_def distinct_map_filter)
qed

lemma distinct_map_replace:
  assumes "distinct (map f xs)" "distinct (map g xs)" "v \<notin> g ` set (filter (\<lambda>x. f x \<noteq> i) xs)" "g y = v"
  shows "distinct (map (g \<circ> (\<lambda>x. if f x = i then y else x)) xs)"
  using assms
proof (induction xs)
  case (Cons x xs)
  have sub: "set (map (g \<circ> (\<lambda>x. if f x = i then y else x)) xs) \<subseteq> insert v (g ` set xs)" using Cons.prems(4) by auto
  show ?case
  proof (cases "f x = i")
    case True
    then have ne: "\<forall>z \<in> set xs. f z \<noteq> i" using Cons.prems(1) by (auto simp: image_iff)
    then have "map (\<lambda>x. if f x = i then y else x) xs = xs" "filter (\<lambda>x. f x \<noteq> i) xs = xs"
      by (auto simp: filter_id_conv intro: map_idI)
    with True Cons.prems show ?thesis unfolding map_map [symmetric] by simp
  next
    case False
    with Cons.prems have "g x \<noteq> v" "g x \<notin> g ` set xs" by auto
    with sub have "g x \<notin> set (map (g \<circ> (\<lambda>x. if f x = i then y else x)) xs)" by blast
    with False Cons show ?thesis by simp
  qed
qed simp

lemma routes_keep_db_ok:
  assumes "db_ok d"
  shows "insert_route r d = Inr (n, d') \<Longrightarrow> db_ok d'" "update_route q d = Inr (n, d') \<Longrightarrow> db_ok d'"
    "delete_route i d = Inr (n, d') \<Longrightarrow> db_ok d'"
proof -
  show "insert_route r d = Inr (n, d') \<Longrightarrow> db_ok d'"
    using assms by (clarsimp simp: stmt_defs db_ok_rows ids_ok_def split: if_splits)
  show "delete_route i d = Inr (n, d') \<Longrightarrow> db_ok d'"
    using assms by (clarsimp simp: stmt_defs db_ok_rows ids_ok_def distinct_map_filter)
  assume u: "update_route q d = Inr (n, d')"
  let ?f = "\<lambda>x. if rr_id x = rt_ID q then route_values q else x"
  have d': "d' = d\<lparr>routes := map ?f (routes d)\<rparr>"
    "filter (\<lambda>x. rr_id x = rt_ID q) (routes d) = [] \<or> rt_ModelAlias q \<notin> rr_model_alias ` set (filter (\<lambda>x. rr_id x \<noteq> rt_ID q) (routes d))"
    using u by (auto simp: update_route_def Let_def split: if_splits)
  have dist: "distinct (map rr_id (routes d))" "distinct (map rr_model_alias (routes d))"
    using assms by (simp_all add: db_ok_def)
  have "map (rr_id \<circ> ?f) rs = map rr_id rs" for rs by (induction rs) (auto simp: route_values_def)
  note same = this
  have "distinct (map (rr_model_alias \<circ> ?f) (routes d))"
    using d'(2)
  proof
    assume "filter (\<lambda>x. rr_id x = rt_ID q) (routes d) = []"
    then have "map ?f (routes d) = routes d" by (intro map_idI) (auto simp: filter_empty_conv)
    with dist show ?thesis by (simp flip: map_map)
  qed (rule distinct_map_replace [OF dist]; simp add: route_values_def)
  then show "db_ok d'" using assms by (simp add: db_ok_rows ids_ok_def d'(1) same)
qed

text \<open>Every operation of the store keeps the invariant.\<close>

lemma db_exec_ok:
  assumes "db_ok d"
  shows "db_ok (snd (db_exec flt p d))"
proof -
  note keep = exec_keeps [of db_ok, OF assms]
  show ?thesis
    by (cases p) (auto simp: CreateOrg_def UpdateOrg_def DeleteOrg_def CreateTeam_def UpdateTeam_def DeleteTeam_def
        st_CreateKey_def UpdateKey_def st_DeleteKey_def TouchKeyUsed_def CreateProvider_def UpdateProvider_def
        DeleteProvider_def CreateRoute_def UpdateRoute_def DeleteRoute_def assms split: sum.split intro!: keep
        dest: orgs_keep_db_ok [OF assms] teams_keep_db_ok [OF assms] keys_keep_db_ok [OF assms]
          providers_keep_db_ok [OF assms] routes_keep_db_ok [OF assms])
qed


end
