(* ===== verification/Sha256.thy ===== *)
theory Sha256
  imports Gandalf_Prelude
begin

text \<open>
  \<open>crypto/sha256\<close> and \<open>encoding/hex\<close> as \<open>HashKey\<close> of \<open>internal/gateway.go\<close> and \<open>cacheKey\<close> of
  \<open>internal/server/cache.go\<close> use them: the SHA-256 of a byte string on 32-bit words, and its
  lower-case hexadecimal form. No proof unfolds the compression function; what the properties
  need is the length and the alphabet of the digest.
\<close>

unbundle bit_operations_syntax

text \<open>
  The constants of the compression function: the first 32 bits of the fractional parts of the cube
  roots of the first 64 primes, and of the square roots of the first 8. \<open>iroot k n b r\<close> finds the
  integer \<open>k\<close>-th root of \<open>n\<close> bit by bit; 35 bits suffice, as the roots are below 8.
\<close>

fun iroot :: "nat \<Rightarrow> int \<Rightarrow> nat \<Rightarrow> int \<Rightarrow> int" where
  "iroot k n 0 r = r"
| "iroot k n (Suc b) r = iroot k n b (if (r + 2 ^ b) ^ k \<le> n then r + 2 ^ b else r)"

definition is_prime :: "nat \<Rightarrow> bool" where
  "is_prime p \<longleftrightarrow> 1 < p \<and> list_all (\<lambda>q. p mod q \<noteq> 0) [2..<p]"

definition frac_root :: "nat \<Rightarrow> nat \<Rightarrow> 32 word" where
  "frac_root k p = of_int (iroot k (int p * 2 ^ (32 * k)) 35 0)"

definition sha_K :: "32 word list" where
  "sha_K = map (frac_root 3) (filter is_prime [2..<312])"

definition sha_init :: "32 word list" where
  "sha_init = map (frac_root 2) (filter is_prime [2..<20])"

definition rotr :: "nat \<Rightarrow> 32 word \<Rightarrow> 32 word" where
  "rotr n w = drop_bit n w OR push_bit (32 - n) w"

definition byte_word :: "char \<Rightarrow> 32 word" where
  "byte_word c = of_nat (of_char c)"

text \<open>The message followed by the bit 1, zeros up to 56 bytes modulo 64, and its length in bits.\<close>

definition sha_pad :: "bytes \<Rightarrow> bytes" where
  "sha_pad s =
     (let n = length s;
          z = (if n mod 64 < 56 then 55 - n mod 64 else 119 - n mod 64)
      in s @ CHR 0x80 # replicate z (CHR 0x00) @ map (\<lambda>i. char_of (nat (8 * int n div 256 ^ (7 - i) mod 256))) [0..<8])"

fun sha_words :: "bytes \<Rightarrow> 32 word list" where
  "sha_words (a # b # c # d # s) =
     (push_bit 24 (byte_word a) OR push_bit 16 (byte_word b) OR push_bit 8 (byte_word c) OR byte_word d) # sha_words s"
| "sha_words _ = []"

text \<open>The message schedule, the most recent word first.\<close>

definition sha_next :: "32 word list \<Rightarrow> 32 word" where
  "sha_next w =
     (let s0 = rotr 7 (w ! 14) XOR rotr 18 (w ! 14) XOR drop_bit 3 (w ! 14);
          s1 = rotr 17 (w ! 1) XOR rotr 19 (w ! 1) XOR drop_bit 10 (w ! 1)
      in w ! 15 + s0 + w ! 6 + s1)"

definition sha_schedule :: "32 word list \<Rightarrow> 32 word list" where
  "sha_schedule ws = rev (((\<lambda>w. sha_next w # w) ^^ 48) (rev ws))"

definition sha_round :: "32 word list \<Rightarrow> 32 word \<times> 32 word \<Rightarrow> 32 word list" where
  "sha_round h kw =
     (case h of
        [a, b, c, d, e, f, g, hh] \<Rightarrow>
          let s1 = rotr 6 e XOR rotr 11 e XOR rotr 25 e;
              ch = (e AND f) XOR ((NOT e) AND g);
              t1 = hh + s1 + ch + fst kw + snd kw;
              s0 = rotr 2 a XOR rotr 13 a XOR rotr 22 a;
              maj = (a AND b) XOR (a AND c) XOR (b AND c);
              t2 = s0 + maj
          in [t1 + t2, a, b, c, d + t1, e, f, g]
      | _ \<Rightarrow> h)"

definition sha_block :: "32 word list \<Rightarrow> 32 word list \<Rightarrow> 32 word list" where
  "sha_block h ws = map2 (+) h (foldl sha_round h (zip sha_K (sha_schedule ws)))"

fun sha_blocks :: "nat \<Rightarrow> 32 word list \<Rightarrow> 32 word list \<Rightarrow> 32 word list" where
  "sha_blocks 0 h ws = h"
| "sha_blocks (Suc n) h ws = sha_blocks n (sha_block h (take 16 ws)) (drop 16 ws)"

definition word_bytes :: "32 word \<Rightarrow> bytes" where
  "word_bytes w = map (\<lambda>i. char_of (unat (drop_bit (24 - 8 * i) w AND 0xFF))) [0..<4]"

definition sha256_Sum256 :: "bytes \<Rightarrow> bytes" where
  "sha256_Sum256 s =
     (let ws = sha_words (sha_pad s) in concat (map word_bytes (sha_blocks (length ws div 16) sha_init ws)))"

definition hex_nibble :: "nat \<Rightarrow> char" where
  "hex_nibble k = (if k < 10 then char_of (0x30 + k) else char_of (0x61 + (k - 10)))"

definition hex_EncodeToString :: "bytes \<Rightarrow> string" where
  "hex_EncodeToString s = concat (map (\<lambda>c. [hex_nibble (of_char c div 16), hex_nibble (of_char c mod 16)]) s)"

definition HashKey :: "string \<Rightarrow> string" where
  "HashKey raw = hex_EncodeToString (sha256_Sum256 raw)"

section \<open>The shape of a digest\<close>

lemma sha_round_length: "length h = 8 \<Longrightarrow> length (sha_round h kw) = 8"
  by (auto simp: sha_round_def Let_def split: list.split)

lemma foldl_sha_round_length: "length h = 8 \<Longrightarrow> length (foldl sha_round h kws) = 8"
  by (induction kws arbitrary: h) (auto simp: sha_round_length)

lemma sha_blocks_length: "length h = 8 \<Longrightarrow> length (sha_blocks n h ws) = 8"
  by (induction n arbitrary: h ws) (auto simp: sha_block_def foldl_sha_round_length)

lemma sha_init_length: "length sha_init = 8"
  unfolding sha_init_def length_map by code_simp

lemma sum256_length: "length (sha256_Sum256 s) = 32"
proof -
  have "length (concat (map word_bytes xs)) = 4 * length xs" for xs
    by (induction xs) (auto simp: word_bytes_def)
  then show ?thesis by (simp add: sha256_Sum256_def Let_def sha_blocks_length sha_init_length)
qed

lemma HashKey_length: "length (HashKey raw) = 64"
proof -
  have "length (hex_EncodeToString s) = 2 * length s" for s
    by (induction s) (auto simp: hex_EncodeToString_def)
  then show ?thesis by (simp add: HashKey_def sum256_length)
qed

end
