(* ===== verification/Auth.thy ===== *)
theory Auth
  imports Sha256 Otter_Cache Gateway
begin

text \<open>
  API-key authentication, \<open>internal/auth/apikey.go\<close>: the check of the \<open>Authorization\<close> header, the
  cache of resolved keys and its invalidation by key id, and the identity built from a key.

  The store is seen through the interface \<open>storage.APIKeyStore\<close>: one call of \<open>GetKeyByHash\<close> is the
  answer \<open>lookup hash\<close> at the time of the call. The cache is the library \<open>otter\<close> (\<open>Otter_Cache\<close>).
  The goroutine that touches the last-used time is the last component of the result: the key id it
  will pass to \<open>TouchKeyUsed\<close>, if it is started.

  The locale \<open>key_store\<close> states what the authenticator relies on; \<open>Key_Store\<close> interprets it on the
  SQLite store.
\<close>

section \<open>Authentication\<close>

definition cacheTTL :: duration where
  "cacheTTL = 30 * second"

record 'c APIKeyAuth =
  au_cache :: 'c
  au_keyIDToHash :: "string \<rightharpoonup> string"

definition NewAPIKeyAuth :: "'c \<Rightarrow> 'c APIKeyAuth" where
  "NewAPIKeyAuth new = \<lparr>au_cache = new, au_keyIDToHash = Map.empty\<rparr>"

definition or_default_role :: "string \<Rightarrow> string" where
  "or_default_role role = (if role = '''' then ''member'' else role)"

definition buildIdentity :: "APIKey \<Rightarrow> Identity" where
  "buildIdentity key =
     (let role = or_default_role (key_Role key)
      in \<lparr>id_Subject = key_Prefix key, id_KeyID = key_ID key, id_UserID = key_UserID key, id_TeamID = key_TeamID key,
          id_OrgID = key_OrgID key, id_Role = role, id_Perms = role_perms role, id_AuthMethod = ''apikey'',
          id_RPMLimit = (case key_RPMLimit key of Some n \<Rightarrow> n | None \<Rightarrow> 0),
          id_TPMLimit = (case key_TPMLimit key of Some n \<Rightarrow> n | None \<Rightarrow> 0),
          id_MaxBudget = (case key_MaxBudget key of Some b \<Rightarrow> b | None \<Rightarrow> 0),
          id_AllowedModels = (if length (key_AllowedModels key) > 0 then key_AllowedModels key else [])\<rparr>)"

definition key_expired :: "APIKey \<Rightarrow> gotime \<Rightarrow> bool" where
  "key_expired key now \<longleftrightarrow> (case key_ExpiresAt key of Some t \<Rightarrow> time_Before t now | None \<Rightarrow> False)"

text \<open>The token of the header \<open>Authorization\<close>: what follows \<open>Bearer\<close>, if it is there and looks like
  a key of this gateway.\<close>

definition bearer_key :: "string \<Rightarrow> string option" where
  "bearer_key header =
     (let raw = strings_TrimPrefix header ''Bearer ''
      in if raw = '''' \<or> raw = header then None
         else if \<not> strings_HasPrefix raw APIKeyPrefix then None
         else Some raw)"

definition use_cached ::
  "('c, APIKey) otter \<Rightarrow> string \<Rightarrow> APIKey \<Rightarrow> gotime \<Rightarrow> 'c APIKeyAuth \<Rightarrow> (goerror + Identity) \<times> 'c APIKeyAuth" where
  "use_cached ops hash key now a =
     (if key_Blocked key then (Inl (Sentinel ErrKeyBlocked), a)
      else if key_expired key now then (Inl (Sentinel ErrKeyExpired), a\<lparr>au_cache := CacheInvalidate ops (au_cache a) hash\<rparr>)
      else (Inr (buildIdentity key), a))"

definition use_stored ::
  "('c, APIKey) otter \<Rightarrow> string \<Rightarrow> (goerror + APIKey) \<Rightarrow> gotime \<Rightarrow> gotime \<Rightarrow> 'c APIKeyAuth
     \<Rightarrow> (goerror + Identity) \<times> 'c APIKeyAuth \<times> string option" where
  "use_stored ops hash answer now t_set a =
     (case answer of
        Inl err \<Rightarrow> (Inl (if errors_Is err (Sentinel ErrNotFound) then Sentinel ErrUnauthorized else err), a, None)
      | Inr key \<Rightarrow>
          if key_Hash key \<noteq> hash then (Inl (Sentinel ErrUnauthorized), a, None)
          else if key_Blocked key then (Inl (Sentinel ErrKeyBlocked), a, None)
          else if key_expired key now then (Inl (Sentinel ErrKeyExpired), a, None)
          else (Inr (buildIdentity key),
                a\<lparr>au_cache := CacheSet ops (au_cache a) hash key t_set,
                  au_keyIDToHash := (au_keyIDToHash a)(key_ID key \<mapsto> hash)\<rparr>,
                Some (key_ID key)))"

text \<open>\<open>t_get\<close>, \<open>now\<close> and \<open>t_set\<close> are the clock readings of the cache lookup, of the expiry check and of
  the cache write.\<close>

definition Authenticate ::
  "('c, APIKey) otter \<Rightarrow> (string \<Rightarrow> goerror + APIKey) \<Rightarrow> gotime \<Rightarrow> gotime \<Rightarrow> gotime \<Rightarrow> string \<Rightarrow> 'c APIKeyAuth
     \<Rightarrow> (goerror + Identity) \<times> 'c APIKeyAuth \<times> string option" where
  "Authenticate ops lookup t_get now t_set header a =
     (case bearer_key header of
        None \<Rightarrow> (Inl (Sentinel ErrUnauthorized), a, None)
      | Some raw \<Rightarrow>
          let hash = HashKey raw
          in (case GetIfPresent ops (au_cache a) hash t_get of
                Some key \<Rightarrow> (case use_cached ops hash key now a of (r, a') \<Rightarrow> (r, a', None))
              | None \<Rightarrow> use_stored ops hash (lookup hash) now t_set a))"

definition InvalidateByKeyID :: "('c, APIKey) otter \<Rightarrow> string \<Rightarrow> 'c APIKeyAuth \<Rightarrow> 'c APIKeyAuth" where
  "InvalidateByKeyID ops keyID a =
     (case au_keyIDToHash a keyID of
        Some hash \<Rightarrow> a\<lparr>au_keyIDToHash := (au_keyIDToHash a)(keyID := None),
                     au_cache := CacheInvalidate ops (au_cache a) hash\<rparr>
      | None \<Rightarrow> a)"

section \<open>Runs\<close>

text \<open>
  A run of the authenticator: requests, each with the store's answer at that moment, and
  invalidations. \<open>log\<close> keeps, for the statements, which key was cached when.
\<close>

datatype auth_event =
    Request "string \<Rightarrow> goerror + APIKey" gotime gotime gotime string
  | Invalidate string

fun auth_step :: "('c, APIKey) otter \<Rightarrow> auth_event \<Rightarrow> 'c APIKeyAuth \<Rightarrow> 'c APIKeyAuth" where
  "auth_step ops (Request lookup t_get now t_set header) a = fst (snd (Authenticate ops lookup t_get now t_set header a))"
| "auth_step ops (Invalidate keyID) a = InvalidateByKeyID ops keyID a"

definition auth_run :: "('c, APIKey) otter \<Rightarrow> auth_event list \<Rightarrow> 'c APIKeyAuth \<Rightarrow> 'c APIKeyAuth" where
  "auth_run ops es a = foldl (\<lambda>a e. auth_step ops e a) a es"

text \<open>A key id belongs to one hash in all answers of the store.\<close>

definition answers :: "auth_event \<Rightarrow> (string \<times> APIKey) set" where
  "answers e = (case e of Request lookup _ _ _ _ \<Rightarrow> {(h, k). lookup h = Inr k} | Invalidate _ \<Rightarrow> {})"

definition ids_have_one_hash :: "auth_event list \<Rightarrow> bool" where
  "ids_have_one_hash es \<longleftrightarrow>
     (\<forall>x \<in> (\<Union>e \<in> set es. answers e). \<forall>y \<in> (\<Union>e \<in> set es. answers e). key_ID (snd x) = key_ID (snd y) \<longrightarrow> fst x = fst y)"

text \<open>The key that a request put into the cache under a hash, and when; since then nothing invalidated
  it. The most recent event comes last.\<close>

definition filled :: "auth_event \<Rightarrow> string \<Rightarrow> APIKey \<Rightarrow> gotime \<Rightarrow> bool" where
  "filled e hash key t \<longleftrightarrow>
     (case e of
        Request lookup t_get now t_set header \<Rightarrow>
          t = t_set \<and> lookup hash = Inr key \<and> map_option HashKey (bearer_key header) = Some hash \<and>
          key_Hash key = hash \<and> \<not> key_Blocked key \<and> \<not> key_expired key now
      | Invalidate _ \<Rightarrow> False)"

fun cached_by :: "auth_event list \<Rightarrow> string \<Rightarrow> APIKey \<Rightarrow> gotime \<Rightarrow> bool" where
  "cached_by [] hash key t \<longleftrightarrow> False"
| "cached_by (e # es) hash key t \<longleftrightarrow>
     (filled e hash key t \<and> Invalidate (key_ID key) \<notin> set es) \<or> cached_by es hash key t"


section \<open>What is cached\<close>

lemma bearer_key_iff:
  "bearer_key header = Some raw \<longleftrightarrow> header = ''Bearer '' @ raw \<and> strings_HasPrefix raw APIKeyPrefix"
proof
  assume "bearer_key header = Some raw"
  then have "strings_TrimPrefix header ''Bearer '' = raw" "raw \<noteq> header" "strings_HasPrefix raw APIKeyPrefix"
    by (auto simp: bearer_key_def Let_def split: if_splits)
  then show "header = ''Bearer '' @ raw \<and> strings_HasPrefix raw APIKeyPrefix"
    unfolding strings_TrimPrefix_def strings_HasPrefix_def by (metis append_take_drop_id)
next
  assume "header = ''Bearer '' @ raw \<and> strings_HasPrefix raw APIKeyPrefix"
  then have h: "header = ''Bearer '' @ raw" "strings_HasPrefix raw APIKeyPrefix" by auto
  moreover have "raw \<noteq> ''Bearer '' @ raw" by (metis append_self_conv2 list.distinct(1))
  moreover have "raw \<noteq> ''''" using h(2) by (auto simp: strings_HasPrefix_def APIKeyPrefix_def)
  ultimately show "bearer_key header = Some raw"
    unfolding bearer_key_def h(1) strings_TrimPrefix_append Let_def by simp
qed

lemma cached_by_snoc:
  "cached_by (es @ [e]) h k t \<longleftrightarrow> cached_by es h k t \<and> e \<noteq> Invalidate (key_ID k) \<or> filled e h k t"
  by (induction es) auto

lemma filled_answers: "filled e h k t \<Longrightarrow> (h, k) \<in> answers e"
  by (cases e) (simp_all add: filled_def answers_def)

lemma cached_by_answers: "cached_by es h k t \<Longrightarrow> (h, k) \<in> (\<Union>e \<in> set es. answers e)"
  by (induction es) (auto dest: filled_answers)

lemma filled_props: "filled e h k t \<Longrightarrow> key_Hash k = h \<and> \<not> key_Blocked k"
  by (auto simp: filled_def split: auth_event.splits)

lemma cached_by_props: "cached_by es h k t \<Longrightarrow> key_Hash k = h \<and> \<not> key_Blocked k"
  by (induction es) (auto dest: filled_props)

lemma ids_have_one_hash_prefix: "ids_have_one_hash (es @ fs) \<Longrightarrow> ids_have_one_hash es"
  by (auto simp: ids_have_one_hash_def)

text \<open>What one request does to the cache: nothing, an invalidation, or the entry it read from the store.\<close>

lemma request_cases:
  assumes "Authenticate ops lookup t_get now t_set header a = (r, a', touch)"
  obtains "a' = a"
  | h where "a' = a\<lparr>au_cache := CacheInvalidate ops (au_cache a) h\<rparr>"
  | h k where "a' = a\<lparr>au_cache := CacheSet ops (au_cache a) h k t_set, au_keyIDToHash := (au_keyIDToHash a)(key_ID k \<mapsto> h)\<rparr>"
      "filled (Request lookup t_get now t_set header) h k t_set"
  using assms
  by (auto simp: Authenticate_def use_cached_def use_stored_def filled_def Let_def
      split: option.splits sum.splits prod.splits if_splits)

definition cache_inv :: "('c, APIKey) otter \<Rightarrow> auth_event list \<Rightarrow> 'c APIKeyAuth \<Rightarrow> bool" where
  "cache_inv ops es a \<longleftrightarrow>
     (\<forall>h t k. GetIfPresent ops (au_cache a) h t = Some k \<longrightarrow>
        au_keyIDToHash a (key_ID k) = Some h \<and> (\<exists>t0. cached_by es h k t0 \<and> t - t0 \<le> cacheTTL))"

lemma cache_inv_request:
  assumes ok: "otter_ok ops cacheTTL new" and inv: "cache_inv ops es a"
    and one: "ids_have_one_hash (es @ [e])" and e: "e = Request lookup t_get now t_set header"
  shows "cache_inv ops (es @ [e]) (auth_step ops e a)"
proof -
  obtain r a' touch where A: "Authenticate ops lookup t_get now t_set header a = (r, a', touch)" using prod_cases3 by blast
  have step: "auth_step ops e a = a'" by (simp add: e A)
  have old: "au_keyIDToHash a (key_ID k) = Some h \<and> (\<exists>t0. cached_by (es @ [e]) h k t0 \<and> t - t0 \<le> cacheTTL)"
    if "GetIfPresent ops (au_cache a) h t = Some k" for h t k
    using inv that unfolding cache_inv_def cached_by_snoc e by blast
  from A show ?thesis
  proof (cases rule: request_cases)
    case 1
    with old show ?thesis unfolding cache_inv_def step by simp
  next
    case (2 g)
    have "au_keyIDToHash a' (key_ID k) = Some h \<and> (\<exists>t0. cached_by (es @ [e]) h k t0 \<and> t - t0 \<le> cacheTTL)"
      if "GetIfPresent ops (au_cache a') h t = Some k" for h t k
      using otter_ok_invalidate [OF ok, of "au_cache a" g h t k] that 2 old [of h t k] by simp
    then show ?thesis unfolding cache_inv_def step by blast
  next
    case (3 g q)
    have "au_keyIDToHash a' (key_ID k) = Some h \<and> (\<exists>t0. cached_by (es @ [e]) h k t0 \<and> t - t0 \<le> cacheTTL)"
      if p: "GetIfPresent ops (au_cache a') h t = Some k" for h t k
    proof (cases "h = g")
      case True
      with otter_okD [OF ok, of "au_cache a" g q t_set h t k] p 3(1) have "k = q" "t - t_set \<le> cacheTTL" by simp_all
      moreover from this True 3(2) have "cached_by (es @ [e]) h k t_set" by (simp add: cached_by_snoc e)
      ultimately show ?thesis using True 3(1) by auto
    next
      case False
      with otter_okD [OF ok, of "au_cache a" g q t_set h t k] p 3(1) have "GetIfPresent ops (au_cache a) h t = Some k" by simp
      note k = old [OF this]
      have "(h, k) \<in> (\<Union>e \<in> set (es @ [e]). answers e)" using k cached_by_answers by blast
      moreover have "(g, q) \<in> (\<Union>e \<in> set (es @ [e]). answers e)" using filled_answers [OF 3(2)] by (simp add: e)
      ultimately have "key_ID k \<noteq> key_ID q" using one False unfolding ids_have_one_hash_def by (metis fst_conv snd_conv)
      with k 3(1) show ?thesis by simp
    qed
    then show ?thesis unfolding cache_inv_def step by blast
  qed
qed

lemma cache_inv_invalidate:
  assumes ok: "otter_ok ops cacheTTL new" and inv: "cache_inv ops es a"
  shows "cache_inv ops (es @ [Invalidate i]) (InvalidateByKeyID ops i a)"
  unfolding cache_inv_def
proof (intro allI impI)
  fix h t k assume p: "GetIfPresent ops (au_cache (InvalidateByKeyID ops i a)) h t = Some k"
  have q: "GetIfPresent ops (au_cache a) h t = Some k \<and> (\<forall>g. au_keyIDToHash a i = Some g \<longrightarrow> h \<noteq> g)"
    using p otter_ok_invalidate [OF ok, of "au_cache a" _ h t k] by (auto simp: InvalidateByKeyID_def split: option.splits)
  then have "au_keyIDToHash a (key_ID k) = Some h" "\<exists>t0. cached_by es h k t0 \<and> t - t0 \<le> cacheTTL"
    using inv unfolding cache_inv_def by blast+
  moreover from this q have "key_ID k \<noteq> i" by auto
  ultimately show "au_keyIDToHash (InvalidateByKeyID ops i a) (key_ID k) = Some h \<and>
      (\<exists>t0. cached_by (es @ [Invalidate i]) h k t0 \<and> t - t0 \<le> cacheTTL)"
    by (auto simp: InvalidateByKeyID_def cached_by_snoc split: option.splits)
qed

lemma cache_inv_run:
  assumes "otter_ok ops cacheTTL new" and "ids_have_one_hash es"
  shows "cache_inv ops es (auth_run ops es (NewAPIKeyAuth new))"
  using assms(2)
proof (induction es rule: rev_induct)
  case Nil
  show ?case using otter_ok_new [OF assms(1)] by (simp add: cache_inv_def auth_run_def NewAPIKeyAuth_def)
next
  case (snoc e es)
  then have "cache_inv ops es (auth_run ops es (NewAPIKeyAuth new))" using ids_have_one_hash_prefix by blast
  then have "cache_inv ops (es @ [e]) (auth_step ops e (auth_run ops es (NewAPIKeyAuth new)))"
    using cache_inv_request [OF assms(1) _ snoc.prems] cache_inv_invalidate [OF assms(1)] by (cases e) auto
  then show ?case by (simp add: auth_run_def)
qed


section \<open>Properties\<close>

text \<open>
  C18. Who gets in. After any run of requests and invalidations, a request that succeeds presented
  a bearer token with the gateway's prefix, and its identity is that of a key with the hash of this token,
  not blocked and not expired at the time of the check. Either the store holds this key now, or it
  was read from the store by an earlier request, at most 30 seconds before, and the key has not been
  invalidated since: a revoked key is out at once when it is invalidated, and after 30 seconds in
  any case.
\<close>

theorem auth_current_keys_only:
  assumes "otter_ok ops cacheTTL new" and "ids_have_one_hash es"
    and "Authenticate ops lookup t_get now t_set header (auth_run ops es (NewAPIKeyAuth new)) = (Inr ident, a', touch)"
  shows "\<exists>raw key. header = ''Bearer '' @ raw \<and> strings_HasPrefix raw ''gnd_'' \<and>
    ident = buildIdentity key \<and> key_Hash key = HashKey raw \<and> \<not> key_Blocked key \<and> \<not> key_expired key now \<and>
    (lookup (HashKey raw) = Inr key \<or>
     (\<exists>t0. cached_by es (HashKey raw) key t0 \<and> t_get - t0 \<le> 30 * second))"
proof -
  let ?a = "auth_run ops es (NewAPIKeyAuth new)"
  obtain raw where raw: "bearer_key header = Some raw" using assms(3) by (cases "bearer_key header") (auto simp: Authenticate_def)
  let ?h = "HashKey raw"
  have "\<exists>key. ident = buildIdentity key \<and> key_Hash key = ?h \<and> \<not> key_Blocked key \<and> \<not> key_expired key now \<and>
    (lookup ?h = Inr key \<or> (\<exists>t0. cached_by es ?h key t0 \<and> t_get - t0 \<le> cacheTTL))"
  proof (cases "GetIfPresent ops (au_cache ?a) ?h t_get")
    case None
    with assms(3) raw show ?thesis
      by (auto simp: Authenticate_def use_stored_def Let_def split: sum.splits if_splits)
  next
    case (Some key)
    then obtain t0 where t0: "cached_by es ?h key t0" "t_get - t0 \<le> cacheTTL"
      using cache_inv_run [OF assms(1,2)] unfolding cache_inv_def by blast
    from Some assms(3) raw have "ident = buildIdentity key \<and> \<not> key_Blocked key \<and> \<not> key_expired key now"
      by (auto simp: Authenticate_def use_cached_def Let_def split: if_splits)
    with t0 cached_by_props [OF t0(1)] show ?thesis by blast
  qed
  with raw show ?thesis by (auto simp: bearer_key_iff APIKeyPrefix_def cacheTTL_def)
qed


definition ex_key :: APIKey where
  "ex_key =
     \<lparr>key_ID = ''k1'', key_Hash = HashKey ''gnd_x'', key_Prefix = ''gnd_x'', key_UserID = '''', key_TeamID = '''',
      key_OrgID = ''default'', key_Role = ''viewer'', key_AllowedModels = [], key_RPMLimit = None, key_TPMLimit = None,
      key_MaxBudget = None, key_ExpiresAt = Some (100 * second), key_Blocked = False, key_LastUsedAt = None, key_CreatedAt = 0\<rparr>"

definition ex_lookup :: "string \<Rightarrow> goerror + APIKey" where
  "ex_lookup h = (if h = HashKey ''gnd_x'' then Inr ex_key else Inl (Sentinel ErrNotFound))"

lemma ex_bearer: "bearer_key ''Bearer gnd_x'' = Some ''gnd_x''"
  by (simp add: bearer_key_def strings_TrimPrefix_def strings_HasPrefix_def APIKeyPrefix_def)

lemma ex_auth_run:
  "auth_run (map_cache cacheTTL) [Request ex_lookup 0 0 0 ''Bearer gnd_x''] (NewAPIKeyAuth Map.empty) =
     \<lparr>au_cache = [HashKey ''gnd_x'' \<mapsto> (ex_key, 0)], au_keyIDToHash = [''k1'' \<mapsto> HashKey ''gnd_x'']\<rparr>"
  by (simp add: auth_run_def NewAPIKeyAuth_def Authenticate_def Let_def ex_bearer use_stored_def ex_lookup_def map_cache_def
      ex_key_def key_expired_def time_Before_def second_def)

text \<open>The key was read at time 0, deleted in the store after that, and is still let in 10 seconds later.\<close>

theorem auth_current_keys_only_witness:
  "\<exists>raw key. ''Bearer gnd_x'' = ''Bearer '' @ raw \<and> buildIdentity ex_key = buildIdentity key \<and>
     cached_by [Request ex_lookup 0 0 0 ''Bearer gnd_x''] (HashKey raw) key 0"
proof -
  let ?es = "[Request ex_lookup 0 0 0 ''Bearer gnd_x'']"
  have one: "ids_have_one_hash ?es"
    by (auto simp: ids_have_one_hash_def answers_def ex_lookup_def split: if_splits)
  have res: "Authenticate (map_cache cacheTTL) (\<lambda>h. Inl (Sentinel ErrNotFound)) (10 * second) (10 * second) 0 ''Bearer gnd_x''
      (auth_run (map_cache cacheTTL) ?es (NewAPIKeyAuth Map.empty)) =
      (Inr (buildIdentity ex_key), auth_run (map_cache cacheTTL) ?es (NewAPIKeyAuth Map.empty), None)"
    unfolding ex_auth_run
    by (simp add: Authenticate_def Let_def ex_bearer use_cached_def map_cache_def cacheTTL_def ex_key_def key_expired_def
        time_Before_def second_def)
  from auth_current_keys_only [OF map_cache_ok one res] obtain raw key t0 where
    "''Bearer gnd_x'' = ''Bearer '' @ raw" "buildIdentity ex_key = buildIdentity key" "cached_by ?es (HashKey raw) key t0"
    by auto
  moreover from this(3) have "t0 = 0" by (simp add: filled_def)
  ultimately show ?thesis by blast
qed

section \<open>What authentication needs of the key store\<close>

text \<open>
  \<open>view\<close> is the abstract content of the store, a map from key ids to keys; \<open>norm\<close> is what the store
  keeps of a new key and \<open>merge\<close> what an update makes of an old one; \<open>ok\<close> are the keys the store can
  represent.
\<close>

locale key_store =
  fixes inv :: "'d \<Rightarrow> bool" and view :: "'d \<Rightarrow> string \<rightharpoonup> APIKey"
    and ok :: "APIKey \<Rightarrow> bool" and norm :: "APIKey \<Rightarrow> APIKey" and merge :: "APIKey \<Rightarrow> APIKey \<Rightarrow> APIKey"
    and create :: "APIKey \<Rightarrow> 'd \<Rightarrow> goerror option \<times> 'd" and update :: "APIKey \<Rightarrow> 'd \<Rightarrow> goerror option \<times> 'd"
    and remove :: "string \<Rightarrow> 'd \<Rightarrow> goerror option \<times> 'd" and by_hash :: "string \<Rightarrow> 'd \<Rightarrow> goerror + APIKey"
  assumes view_id: "inv d \<Longrightarrow> view d i = Some k \<Longrightarrow> key_ID k = i"
    and view_hash: "inv d \<Longrightarrow> view d i = Some k \<Longrightarrow> view d j = Some k' \<Longrightarrow> key_Hash k = key_Hash k' \<Longrightarrow> i = j"
    and by_hash_found: "inv d \<Longrightarrow> view d i = Some k \<Longrightarrow> by_hash (key_Hash k) d = Inr k"
    and by_hash_missing: "inv d \<Longrightarrow> (\<And>i k. view d i = Some k \<Longrightarrow> key_Hash k \<noteq> h) \<Longrightarrow> by_hash h d = Inl (Sentinel ErrNotFound)"
    and created: "inv d \<Longrightarrow> ok k \<Longrightarrow> create k d = (None, d') \<Longrightarrow> inv d' \<and> view d' = (view d)(key_ID k \<mapsto> norm k)"
    and updated: "inv d \<Longrightarrow> ok k \<Longrightarrow> view d (key_ID k) = Some k0 \<Longrightarrow>
      fst (update k d) = None \<and> inv (snd (update k d)) \<and> view (snd (update k d)) = (view d)(key_ID k \<mapsto> merge k0 k)"
    and removed: "inv d \<Longrightarrow> view d i = Some k \<Longrightarrow>
      fst (remove i d) = None \<and> inv (snd (remove i d)) \<and> view (snd (remove i d)) = (view d)(i := None)"
    and norm_hash: "key_Hash (norm k) = key_Hash k" "key_Blocked (norm k) = key_Blocked k"
    and merge_hash: "key_Hash (merge k0 k) = key_Hash k0" "key_Blocked (merge k0 k) = key_Blocked k"
begin

text \<open>With no entry in the cache, a request with the token of a stored key gets exactly this key.\<close>

lemma token_of_stored_key:
  assumes "inv d" "view d i = Some k" "key_Hash k = HashKey raw" "strings_HasPrefix raw APIKeyPrefix"
    and "GetIfPresent ops (au_cache a) (HashKey raw) t_get = None"
  shows "fst (Authenticate ops (\<lambda>h. by_hash h d) t_get now t_set (''Bearer '' @ raw) a) =
    (if key_Blocked k then Inl (Sentinel ErrKeyBlocked) else if key_expired k now then Inl (Sentinel ErrKeyExpired)
     else Inr (buildIdentity k))"
proof -
  have "bearer_key (''Bearer '' @ raw) = Some raw" using assms(4) by (simp only: bearer_key_iff)
  moreover have "by_hash (HashKey raw) d = Inr k" using by_hash_found [OF assms(1,2)] assms(3) by simp
  ultimately show ?thesis using assms(3,5) by (simp add: Authenticate_def use_stored_def Let_def del: append.simps)
qed

text \<open>A new key opens the gateway at once.\<close>

lemma created_key_accepted:
  assumes "inv d" "ok k" "create k d = (None, d')" "\<not> key_Blocked k" "\<not> key_expired (norm k) now"
    and "key_Hash k = HashKey raw" "strings_HasPrefix raw APIKeyPrefix"
    and "GetIfPresent ops (au_cache a) (HashKey raw) t_get = None"
  shows "fst (Authenticate ops (\<lambda>h. by_hash h d') t_get now t_set (''Bearer '' @ raw) a) = Inr (buildIdentity (norm k))"
proof -
  have "inv d'" "view d' (key_ID k) = Some (norm k)" using created [OF assms(1-3)] by simp_all
  from token_of_stored_key [OF this _ assms(7,8)] show ?thesis using assms(4-6) norm_hash [of k] by simp
qed

text \<open>The invalidation that follows a change removes the key from the cache, whatever the earlier requests
  put there.\<close>

lemma invalidated:
  assumes "otter_ok ops cacheTTL new" "cache_inv ops es a" "\<And>t0 k'. cached_by es h k' t0 \<Longrightarrow> key_ID k' = i"
  shows "GetIfPresent ops (au_cache (InvalidateByKeyID ops i a)) h t = None"
proof (rule ccontr)
  assume "GetIfPresent ops (au_cache (InvalidateByKeyID ops i a)) h t \<noteq> None"
  then obtain k' t0 where "cached_by (es @ [Invalidate i]) h k' t0"
    using cache_inv_invalidate [OF assms(1,2), of i] unfolding cache_inv_def by blast
  with assms(3) [of k' t0] show False by (auto simp: cached_by_snoc filled_def)
qed

text \<open>A deleted key is refused from the moment the administrator's request is answered.\<close>

lemma deleted_key_refused:
  assumes "inv d" "view d i = Some k" "key_Hash k = HashKey raw" "strings_HasPrefix raw APIKeyPrefix"
    and "otter_ok ops cacheTTL new" "cache_inv ops es a" "\<And>t0 k'. cached_by es (HashKey raw) k' t0 \<Longrightarrow> key_ID k' = i"
  shows "fst (Authenticate ops (\<lambda>h. by_hash h (snd (remove i d))) t_get now t_set (''Bearer '' @ raw) (InvalidateByKeyID ops i a)) =
    Inl (Sentinel ErrUnauthorized)"
proof -
  note r = removed [OF assms(1,2)]
  have "key_Hash k' \<noteq> HashKey raw" if "view (snd (remove i d)) j = Some k'" for j k'
    using that r view_hash [OF assms(1,2), of j k'] assms(3) by (auto split: if_splits)
  then have "by_hash (HashKey raw) (snd (remove i d)) = Inl (Sentinel ErrNotFound)" using r by_hash_missing by blast
  moreover have "bearer_key (''Bearer '' @ raw) = Some raw" using assms(4) by (simp only: bearer_key_iff)
  ultimately show ?thesis
    using invalidated [OF assms(5-7)] by (simp add: Authenticate_def use_stored_def Let_def del: append.simps)
qed

text \<open>A key that an update blocks is refused at once; one that it changes is seen with the change.\<close>

lemma updated_key_seen:
  assumes "inv d" "ok k" "view d (key_ID k) = Some k0" "key_Hash k0 = HashKey raw" "strings_HasPrefix raw APIKeyPrefix"
    and "otter_ok ops cacheTTL new" "cache_inv ops es a" "\<And>t0 k'. cached_by es (HashKey raw) k' t0 \<Longrightarrow> key_ID k' = key_ID k"
  shows "fst (Authenticate ops (\<lambda>h. by_hash h (snd (update k d))) t_get now t_set (''Bearer '' @ raw) (InvalidateByKeyID ops (key_ID k) a)) =
    (if key_Blocked k then Inl (Sentinel ErrKeyBlocked) else if key_expired (merge k0 k) now then Inl (Sentinel ErrKeyExpired)
     else Inr (buildIdentity (merge k0 k)))"
proof -
  note u = updated [OF assms(1-3)]
  have "view (snd (update k d)) (key_ID k) = Some (merge k0 k)" using u by simp
  from token_of_stored_key [OF _ this _ assms(5) invalidated [OF assms(6-8)]] show ?thesis
    using u assms(4) merge_hash [of k0 k] by simp
qed

end

end
