(* ===== verification/Key_Store.thy ===== *)
theory Key_Store
  imports Sql_Store Auth
begin

text \<open>
  The life of an API key: \<open>internal/app/keymanager.go\<close>, and the SQLite key store as an instance of
  the interface that authentication relies on (\<open>key_store\<close> of theory \<open>Auth\<close>). The abstract content of
  the store is a map from key ids to keys. What the store keeps of a key: the role with its default, the
  expiry and creation times cut to whole seconds, and no last-used time.
\<close>

section \<open>Key manager\<close>

record CreateKeyOpts =
  ck_OrgID :: string
  ck_UserID :: string
  ck_TeamID :: string
  ck_Name :: string
  ck_Role :: string
  ck_AllowedModels :: "string list"
  ck_RPMLimit :: "int option"
  ck_TPMLimit :: "int option"
  ck_MaxBudget :: "float64 option"
  ck_ExpiresAt :: "gotime option"

text \<open>\<open>base64.RawURLEncoding\<close>: three bytes make four characters; there is no padding.\<close>

definition base64_char :: "nat \<Rightarrow> char" where
  "base64_char n =
     (if n < 26 then char_of (0x41 + n) else if n < 52 then char_of (0x61 + (n - 26))
      else if n < 62 then char_of (0x30 + (n - 52)) else if n = 62 then CHR ''-'' else CHR ''_'')"

fun base64_EncodeToString :: "bytes \<Rightarrow> string" where
  "base64_EncodeToString [] = []"
| "base64_EncodeToString [a] = [base64_char (byte a div 4), base64_char (byte a mod 4 * 16)]"
| "base64_EncodeToString [a, b] =
     [base64_char (byte a div 4), base64_char (byte a mod 4 * 16 + byte b div 16), base64_char (byte b mod 16 * 4)]"
| "base64_EncodeToString (a # b # c # s) =
     base64_char (byte a div 4) # base64_char (byte a mod 4 * 16 + byte b div 16) #
     base64_char (byte b mod 16 * 4 + byte c div 64) # base64_char (byte c mod 64) # base64_EncodeToString s"

definition key_prefix :: "string \<Rightarrow> string" where
  "key_prefix key = (if length key > 12 then take 12 key else key)"

definition new_key :: "string \<Rightarrow> string \<Rightarrow> gotime \<Rightarrow> CreateKeyOpts \<Rightarrow> APIKey" where
  "new_key plaintext uuid now opts =
     \<lparr>key_ID = uuid, key_Hash = HashKey plaintext, key_Prefix = key_prefix plaintext, key_UserID = ck_UserID opts,
      key_TeamID = ck_TeamID opts, key_OrgID = ck_OrgID opts, key_Role = or_member (ck_Role opts),
      key_AllowedModels = ck_AllowedModels opts, key_RPMLimit = ck_RPMLimit opts, key_TPMLimit = ck_TPMLimit opts,
      key_MaxBudget = ck_MaxBudget opts, key_ExpiresAt = ck_ExpiresAt opts, key_Blocked = False, key_LastUsedAt = None,
      key_CreatedAt = now\<rparr>"

text \<open>\<open>random\<close> is what \<open>rand.Read\<close> delivers (32 bytes, or an error), \<open>uuid\<close> the new identifier.\<close>

definition km_CreateKey ::
  "(APIKey \<Rightarrow> 'd \<Rightarrow> goerror option \<times> 'd) \<Rightarrow> goerror + bytes \<Rightarrow> string \<Rightarrow> gotime \<Rightarrow> CreateKeyOpts \<Rightarrow> 'd
     \<Rightarrow> (goerror + string \<times> APIKey) \<times> 'd" where
  "km_CreateKey create random uuid now opts d =
     (case random of
        Inl err \<Rightarrow> (Inl err, d)
      | Inr raw \<Rightarrow>
          let plaintext = APIKeyPrefix @ base64_EncodeToString raw;
              key = new_key plaintext uuid now opts
          in (case create key d of
                (Some err, d') \<Rightarrow> (Inl err, d')
              | (None, d') \<Rightarrow> (Inr (plaintext, key), d')))"

definition km_DeleteKey :: "(string \<Rightarrow> 'd \<Rightarrow> goerror option \<times> 'd) \<Rightarrow> string \<Rightarrow> 'd \<Rightarrow> goerror option \<times> 'd" where
  "km_DeleteKey remove i d = remove i d"

section \<open>The store as a map\<close>

definition whole_seconds :: "gotime \<Rightarrow> gotime" where
  "whole_seconds t = t div second * second"

definition key_ok :: "APIKey \<Rightarrow> bool" where
  "key_ok k \<longleftrightarrow> list_all utf8_valid (key_AllowedModels k) \<and> year_0_9999 (key_CreatedAt k) \<and>
     (case key_ExpiresAt k of Some t \<Rightarrow> year_0_9999 t | None \<Rightarrow> True)"

definition stored_key :: "APIKey \<Rightarrow> APIKey" where
  "stored_key k = k\<lparr>key_Role := or_member (key_Role k), key_ExpiresAt := map_option whole_seconds (key_ExpiresAt k),
     key_LastUsedAt := None, key_CreatedAt := whole_seconds (key_CreatedAt k)\<rparr>"

definition merged_key :: "APIKey \<Rightarrow> APIKey \<Rightarrow> APIKey" where
  "merged_key k0 k = k0\<lparr>key_Role := or_member (key_Role k), key_AllowedModels := key_AllowedModels k,
     key_RPMLimit := key_RPMLimit k, key_TPMLimit := key_TPMLimit k, key_MaxBudget := key_MaxBudget k,
     key_ExpiresAt := map_option whole_seconds (key_ExpiresAt k), key_Blocked := key_Blocked k\<rparr>"

definition key_view :: "db \<Rightarrow> string \<rightharpoonup> APIKey" where
  "key_view d i =
     (case filter (\<lambda>r. kr_id r = i) (api_keys d) of
        r # _ \<Rightarrow> (case scanKey r of Inr k \<Rightarrow> Some k | Inl _ \<Rightarrow> None)
      | [] \<Rightarrow> None)"

definition keys_inv :: "db \<Rightarrow> bool" where
  "keys_inv d \<longleftrightarrow> db_ok d \<and> (\<forall>r \<in> set (api_keys d). \<exists>k. scanKey r = Inr k)"

lemma models_roundtrip:
  assumes "list_all utf8_valid xs"
  obtains m where "marshalJSON xs = Inr m" "unmarshalStringSlice m = Inr xs"
proof (cases "xs = []")
  case True
  then show thesis using that [of None] by (simp add: marshalJSON_def unmarshalStringSlice_def)
next
  case False
  have "json_Unmarshal (marshal_text (OArr (map OStr xs))) (dec_list dec_string '''') [] = Inr xs"
  proof (rule json_Unmarshal_out [where enc = "\<lambda>xs. OArr (map OStr xs)"])
    show "decodes (\<lambda>xs. OArr (map OStr xs)) (dec_list dec_string '''') xs"
      by (intro dec_list_out ballI) (simp add: decodes_def dec_string_def)
    show "clean (OArr (map OStr xs))" using assms by (auto simp: list_all_iff)
  qed
  then have "unmarshalStringSlice (Some (marshal_text (OArr (map OStr xs)))) = Inr xs" by (simp add: unmarshalStringSlice_def)
  moreover have "marshalJSON xs = Inr (Some (marshal_text (OArr (map OStr xs))))"
    using False by (simp add: marshalJSON_def json_marshal_def)
  ultimately show thesis using that by blast
qed

lemma parse_stored_time:
  "year_0_9999 t \<Longrightarrow> parseTime (Some (time_Format t)) = Some (whole_seconds t)"
  "(case t' of Some t \<Rightarrow> year_0_9999 t | None \<Rightarrow> True) \<Longrightarrow> parseTime (timeToStr t') = map_option whole_seconds t'"
  by (auto simp: parseTime_def timeToStr_def parse_format whole_seconds_def split: option.splits)

lemma null_roundtrip [simp]: "null_string (nullStr s) = s"
  by (simp add: null_string_def nullStr_def)

lemma boolToInt_nonzero [simp]: "boolToInt b = 0 \<longleftrightarrow> \<not> b"
  by (simp add: boolToInt_def)

lemma or_member_idem [simp]: "or_member (or_member r) = or_member r"
  by (simp add: or_member_def)

lemma scan_new_key:
  assumes "key_ok k" "unmarshalStringSlice m = Inr (key_AllowedModels k)"
  shows "scanKey (key_values k m) = Inr (stored_key k)"
  using assms parse_stored_time
  by (simp add: scanKey_def key_values_def key_ok_def stored_key_def parseTime_def [of None])

lemma scan_updated_key:
  assumes "key_ok k" "unmarshalStringSlice m = Inr (key_AllowedModels k)" "scanKey r = Inr k0"
  shows "scanKey (set_key k m r) = Inr (merged_key k0 k)"
  using assms parse_stored_time
  by (auto simp: scanKey_def set_key_def key_ok_def merged_key_def split: sum.splits)

lemma filter_unique: "distinct (map f xs) \<Longrightarrow> x \<in> set xs \<Longrightarrow> filter (\<lambda>y. f y = f x) xs = [x]"
  by (induction xs) (auto simp: filter_empty_conv image_iff)

lemma scanKey_ids: "scanKey r = Inr k \<Longrightarrow> key_ID k = kr_id r \<and> key_Hash k = kr_key_hash r"
  by (auto simp: scanKey_def split: sum.splits)

lemma key_view_iff:
  assumes "keys_inv d"
  shows "key_view d i = Some k \<longleftrightarrow> (\<exists>r \<in> set (api_keys d). kr_id r = i \<and> scanKey r = Inr k)"
proof
  assume "key_view d i = Some k"
  then show "\<exists>r \<in> set (api_keys d). kr_id r = i \<and> scanKey r = Inr k"
    by (auto simp: key_view_def dest!: filter_eq_ConsD split: list.splits sum.splits)
next
  assume "\<exists>r \<in> set (api_keys d). kr_id r = i \<and> scanKey r = Inr k"
  then obtain r where "r \<in> set (api_keys d)" "kr_id r = i" "scanKey r = Inr k" by blast
  with filter_unique [of kr_id "api_keys d" r] assms show "key_view d i = Some k"
    by (simp add: key_view_def keys_inv_def db_ok_def)
qed

lemma by_hash_iff:
  assumes "keys_inv d"
  shows "GetKeyByHash None h d = Inr k \<longleftrightarrow> (\<exists>r \<in> set (api_keys d). kr_key_hash r = h \<and> scanKey r = Inr k)"
    and "GetKeyByHash None h d = Inl (Sentinel ErrNotFound) \<longleftrightarrow> (\<forall>r \<in> set (api_keys d). kr_key_hash r \<noteq> h)"
proof -
  have uni: "filter (\<lambda>r. kr_key_hash r = h) (api_keys d) = [r]" if "r \<in> set (api_keys d)" "kr_key_hash r = h" for r
    using filter_unique [of kr_key_hash "api_keys d" r] that assms by (simp add: keys_inv_def db_ok_def)
  have scan: "\<exists>k. scanKey r = Inr k" if "r \<in> set (api_keys d)" for r using assms that by (simp add: keys_inv_def)
  have none: "GetKeyByHash None h d = Inl (Sentinel ErrNotFound)" if "\<forall>r \<in> set (api_keys d). kr_key_hash r \<noteq> h"
    using that by (simp add: GetKeyByHash_def QueryRowContext_def scan_one_def notFoundErr_def ErrNoRows_def filter_empty_conv)
  have some: "GetKeyByHash None h d = scanKey r" if "r \<in> set (api_keys d)" "kr_key_hash r = h" for r
    using uni [OF that] by (simp add: GetKeyByHash_def QueryRowContext_def scan_one_def)
  show "GetKeyByHash None h d = Inr k \<longleftrightarrow> (\<exists>r \<in> set (api_keys d). kr_key_hash r = h \<and> scanKey r = Inr k)"
    using none some by fastforce
  show "GetKeyByHash None h d = Inl (Sentinel ErrNotFound) \<longleftrightarrow> (\<forall>r \<in> set (api_keys d). kr_key_hash r \<noteq> h)"
    using none some scan by fastforce
qed


section \<open>The operations on the map\<close>

lemma map_eqI: "(\<And>i x. f i = Some x \<longleftrightarrow> g i = Some x) \<Longrightarrow> f = g"
  by (metis ext option.exhaust)

lemma bex_map: "(\<exists>x \<in> set (map f xs). P x) \<longleftrightarrow> (\<exists>x \<in> set xs. P (f x))"
  by auto

lemma create_key_view:
  assumes "keys_inv d" "key_ok k" "st_CreateKey None k d = (None, d')"
  shows "keys_inv d' \<and> key_view d' = (key_view d)(key_ID k \<mapsto> stored_key k)"
proof -
  obtain m where m: "marshalJSON (key_AllowedModels k) = Inr m" "unmarshalStringSlice m = Inr (key_AllowedModels k)"
    using assms(2) models_roundtrip unfolding key_ok_def by blast
  let ?r = "key_values k m"
  have ins: "insert_key ?r d = Inr (1, d')" and d': "d' = d\<lparr>api_keys := api_keys d @ [?r]\<rparr>"
    and "kr_id ?r \<notin> set (map kr_id (api_keys d))"
    using assms(3) m(1) by (auto simp: st_CreateKey_def exec_err_def ExecContext_def insert_key_def split: if_splits option.splits)
  from this(3) have new: "\<forall>r \<in> set (api_keys d). kr_id r \<noteq> key_ID k" by (force simp: key_values_def)
  note scan = scan_new_key [OF assms(2) m(2)]
  have inv': "keys_inv d'"
    using assms(1) keys_keep_db_ok(1) [OF _ ins] scan unfolding keys_inv_def by (auto simp: d')
  have "key_view d' i = Some q \<longleftrightarrow> ((key_view d)(key_ID k \<mapsto> stored_key k)) i = Some q" for i q
    using new scan unfolding key_view_iff [OF inv'] fun_upd_apply
    by (cases "i = key_ID k") (auto simp: d' key_view_iff [OF assms(1)] key_values_def)
  with inv' show ?thesis by (blast intro: map_eqI)
qed


lemma update_key_view:
  assumes "keys_inv d" "key_ok k" "key_view d (key_ID k) = Some k0"
  shows "fst (UpdateKey None k d) = None \<and> keys_inv (snd (UpdateKey None k d)) \<and>
    key_view (snd (UpdateKey None k d)) = (key_view d)(key_ID k \<mapsto> merged_key k0 k)"
proof -
  obtain m where m: "marshalJSON (key_AllowedModels k) = Inr m" "unmarshalStringSlice m = Inr (key_AllowedModels k)"
    using assms(2) models_roundtrip unfolding key_ok_def by blast
  let ?f = "\<lambda>r. if kr_id r = key_ID k then set_key k m r else r"
  define d' where "d' = d\<lparr>api_keys := map ?f (api_keys d)\<rparr>"
  have keys': "api_keys d' = map ?f (api_keys d)" by (simp add: d'_def)
  obtain r0 where r0: "r0 \<in> set (api_keys d)" "kr_id r0 = key_ID k" "scanKey r0 = Inr k0"
    using assms(3) unfolding key_view_iff [OF assms(1)] by blast
  then have upd: "update_key k m d = Inr (1, d')"
    using filter_unique [of kr_id "api_keys d" r0] assms(1) by (simp add: update_key_def d'_def keys_inv_def db_ok_def)
  then have U: "UpdateKey None k d = (None, d')"
    using m(1) by (simp add: UpdateKey_def affected_def ExecContext_def checkRowsAffected_def)
  note scan = scan_updated_key [OF assms(2) m(2)]
  have "\<exists>q. scanKey r = Inr q" if "r \<in> set (api_keys d')" for r
    using that assms(1) scan by (auto simp: d'_def keys_inv_def)
  then have inv': "keys_inv d'" using assms(1) keys_keep_db_ok(2) [OF _ upd] by (auto simp: keys_inv_def)
  have uni: "r = r0" if "r \<in> set (api_keys d)" "kr_id r = key_ID k" for r
    using that r0(1,2) assms(1) inj_onD [of kr_id "set (api_keys d)" r r0] by (simp add: keys_inv_def db_ok_def distinct_map)
  have "key_view d' i = Some q \<longleftrightarrow> ((key_view d)(key_ID k \<mapsto> merged_key k0 k)) i = Some q" for i q
  proof -
    have "key_view d' i = Some q \<longleftrightarrow> (\<exists>r \<in> set (api_keys d). kr_id r = i \<and> scanKey (?f r) = Inr q)"
      unfolding key_view_iff [OF inv'] keys' bex_map by (simp add: if_distrib [of kr_id])
    also have "\<dots> \<longleftrightarrow> ((key_view d)(key_ID k \<mapsto> merged_key k0 k)) i = Some q"
    proof (cases "i = key_ID k")
      case True
      then have "(\<exists>r \<in> set (api_keys d). kr_id r = i \<and> scanKey (?f r) = Inr q) \<longleftrightarrow> scanKey (?f r0) = Inr q"
        using r0(1,2) uni by metis
      with True r0(2) scan [OF r0(3)] show ?thesis by simp
    next
      case False
      then have "kr_id r = i \<and> scanKey (?f r) = Inr q \<longleftrightarrow> kr_id r = i \<and> scanKey r = Inr q" for r by auto
      with False show ?thesis by (simp add: key_view_iff [OF assms(1)])
    qed
    finally show ?thesis .
  qed
  with U inv' show ?thesis by (auto intro: map_eqI)
qed

lemma delete_key_view:
  assumes "keys_inv d" "key_view d i = Some k"
  shows "fst (st_DeleteKey None i d) = None \<and> keys_inv (snd (st_DeleteKey None i d)) \<and>
    key_view (snd (st_DeleteKey None i d)) = (key_view d)(i := None)"
proof -
  define d' where "d' = d\<lparr>api_keys := filter (\<lambda>r. kr_id r \<noteq> i) (api_keys d)\<rparr>"
  obtain r0 where r0: "r0 \<in> set (api_keys d)" "kr_id r0 = i" using assms(2) unfolding key_view_iff [OF assms(1)] by blast
  have del: "delete_key i d = Inr (1, d')"
    using filter_unique [of kr_id "api_keys d" r0] r0 assms(1) by (simp add: delete_key_def d'_def keys_inv_def db_ok_def)
  then have D: "st_DeleteKey None i d = (None, d')"
    by (simp add: st_DeleteKey_def affected_def ExecContext_def checkRowsAffected_def)
  have inv': "keys_inv d'" using assms(1) keys_keep_db_ok(3) [OF _ del] by (auto simp: keys_inv_def d'_def)
  have "key_view d' j = Some q \<longleftrightarrow> ((key_view d)(i := None)) j = Some q" for j q
    by (cases "j = i") (auto simp: key_view_iff [OF inv'] key_view_iff [OF assms(1)], auto simp: d'_def)
  with D inv' show ?thesis by (auto intro: map_eqI)
qed

interpretation sqlite: key_store keys_inv key_view key_ok stored_key merged_key
  "st_CreateKey None" "UpdateKey None" "st_DeleteKey None" "GetKeyByHash None"
proof
  fix d i k assume inv: "keys_inv d" and v: "key_view d i = Some k"
  then obtain r where r: "r \<in> set (api_keys d)" "kr_id r = i" "scanKey r = Inr k" by (auto simp: key_view_iff)
  then show "key_ID k = i" "GetKeyByHash None (key_Hash k) d = Inr k"
    using scanKey_ids [OF r(3)] by (auto simp: by_hash_iff [OF inv])
  fix j k' assume "key_view d j = Some k'" "key_Hash k = key_Hash k'"
  moreover from this obtain r' where r': "r' \<in> set (api_keys d)" "kr_id r' = j" "scanKey r' = Inr k'"
    using inv by (auto simp: key_view_iff)
  ultimately have "kr_key_hash r = kr_key_hash r'" using scanKey_ids [OF r(3)] scanKey_ids [OF r'(3)] by simp
  then have "r = r'" using inv r(1) r'(1) by (auto simp: keys_inv_def db_ok_def distinct_map dest: inj_onD)
  with r(2) r'(2) show "i = j" by simp
next
  fix d h assume inv: "keys_inv d" and none: "\<And>i k. key_view d i = Some k \<Longrightarrow> key_Hash k \<noteq> h"
  have "kr_key_hash r \<noteq> h" if r: "r \<in> set (api_keys d)" for r
  proof -
    obtain k where k: "scanKey r = Inr k" using inv r unfolding keys_inv_def by blast
    then have "key_view d (kr_id r) = Some k" using r inv by (auto simp: key_view_iff)
    with none [OF this] scanKey_ids [OF k] show ?thesis by simp
  qed
  then show "GetKeyByHash None h d = Inl (Sentinel ErrNotFound)" by (simp add: by_hash_iff [OF inv])
qed (simp_all add: create_key_view update_key_view delete_key_view stored_key_def merged_key_def)


section \<open>Properties\<close>

lemma get_key_view:
  assumes "keys_inv d"
  shows "GetKey None i d = (case key_view d i of Some k \<Rightarrow> Inr k | None \<Rightarrow> Inl (Sentinel ErrNotFound))"
proof (cases "filter (\<lambda>r. kr_id r = i) (api_keys d)")
  case Nil
  then show ?thesis
    by (simp add: GetKey_def QueryRowContext_def scan_one_def notFoundErr_def ErrNoRows_def key_view_def)
next
  case (Cons r rs)
  then have "r \<in> set (filter (\<lambda>r. kr_id r = i) (api_keys d))" by simp
  then have "r \<in> set (api_keys d)" by simp
  then obtain k where "scanKey r = Inr k" using assms unfolding keys_inv_def by blast
  with Cons show ?thesis by (simp add: GetKey_def QueryRowContext_def scan_one_def key_view_def)
qed


definition ex_db :: db where
  "ex_db = runMigrations ''2026-01-01 00:00:00''"

lemma ex_db_inv: "keys_inv ex_db"
  by (simp add: keys_inv_def db_ok_def ex_db_def runMigrations_def)

lemma ex_key_ok: "key_ok ex_key"
  by (simp add: key_ok_def ex_key_def year_0_9999_def second_def)



section \<open>From creation to deletion\<close>

definition opts_ok :: "CreateKeyOpts \<Rightarrow> gotime \<Rightarrow> bool" where
  "opts_ok opts now \<longleftrightarrow> list_all utf8_valid (ck_AllowedModels opts) \<and> year_0_9999 now \<and>
     (case ck_ExpiresAt opts of Some t \<Rightarrow> year_0_9999 t | None \<Rightarrow> True)"

lemma new_key_ok: "opts_ok opts now \<Longrightarrow> key_ok (new_key p u now opts)"
  by (simp add: opts_ok_def key_ok_def new_key_def)

lemma created_key:
  assumes "km_CreateKey create (Inr raw) uuid now opts d = (Inr (plaintext, key), d')"
  shows "plaintext = APIKeyPrefix @ base64_EncodeToString raw" "key = new_key plaintext uuid now opts"
    "create key d = (None, d')"
  using assms by (auto simp: km_CreateKey_def Let_def split: prod.splits option.splits)

lemma store_answers_one_hash:
  assumes "keys_inv d"
  shows "ids_have_one_hash [Request (\<lambda>h. GetKeyByHash None h d) t1 t2 t3 hdr]"
proof -
  have "h = key_Hash k \<and> key_view d (key_ID k) = Some k" if "GetKeyByHash None h d = Inr k" for h k
    using that scanKey_ids by (auto simp: by_hash_iff [OF assms] key_view_iff [OF assms])
  then show ?thesis by (auto simp: ids_have_one_hash_def answers_def) (metis option.inject)
qed

lemma cached_from_store:
  assumes "keys_inv d" "key_view d i = Some k"
    and "cached_by [Request (\<lambda>h. GetKeyByHash None h d) t1 t2 t3 hdr] (key_Hash k) k' t0"
  shows "key_ID k' = i"
proof -
  have "GetKeyByHash None (key_Hash k) d = Inr k'" using assms(3) by (simp add: filled_def)
  with sqlite.by_hash_found [OF assms(1,2)] sqlite.view_id [OF assms(1,2)] show ?thesis by simp
qed



definition ex_opts :: CreateKeyOpts where
  "ex_opts =
     \<lparr>ck_OrgID = ''default'', ck_UserID = '''', ck_TeamID = '''', ck_Name = '''', ck_Role = '''', ck_AllowedModels = [''gpt-4o''],
      ck_RPMLimit = None, ck_TPMLimit = None, ck_MaxBudget = None, ck_ExpiresAt = Some (100 * second)\<rparr>"


end
