(* ===== verification/Usage_Store.thy ===== *)
theory Usage_Store
  imports Sql_Store
begin

text \<open>
  The usage tables of the SQLite store, \<open>internal/storage/sqlite/usage.go\<close>: raw usage records and their
  hourly rollups. They have no foreign keys, so they form a database of their own; faults of the
  driver and the visiting order \<open>plan\<close> are arguments as in \<open>Sql_Store\<close>. The \<open>WHERE\<close> clause that the
  code assembles as text, one conjunct per non-empty field of the filter, is the list of these conjuncts.
\<close>

section \<open>Tables\<close>

record usage_row =
  us_id :: string
  us_key_id :: string
  us_user_id :: string
  us_team_id :: string
  us_org_id :: string
  us_caller_jwt_sub :: string
  us_caller_service :: string
  us_model :: string
  us_provider_id :: string
  us_prompt_tokens :: int
  us_completion_tokens :: int
  us_total_tokens :: int
  us_cost_usd :: float64
  us_cached :: int
  us_latency_ms :: int
  us_status_code :: int
  us_request_id :: string
  us_created_at :: string

record usage_db =
  usage_records :: "usage_row list"
  usage_rollups :: "UsageRollup list"

definition usage_values :: "UsageRecord \<Rightarrow> usage_row" where
  "usage_values r =
     \<lparr>us_id = ur_ID r, us_key_id = ur_KeyID r, us_user_id = ur_UserID r, us_team_id = ur_TeamID r, us_org_id = ur_OrgID r,
      us_caller_jwt_sub = ur_CallerJWTSub r, us_caller_service = ur_CallerService r, us_model = ur_Model r,
      us_provider_id = ur_ProviderID r, us_prompt_tokens = ur_PromptTokens r, us_completion_tokens = ur_CompletionTokens r,
      us_total_tokens = ur_TotalTokens r, us_cost_usd = ur_CostUSD r, us_cached = boolToInt (ur_Cached r),
      us_latency_ms = ur_LatencyMs r, us_status_code = ur_StatusCode r, us_request_id = ur_RequestID r,
      us_created_at = time_Format (ur_CreatedAt r)\<rparr>"

definition scan_usage :: "usage_row \<Rightarrow> goerror + UsageRecord" where
  "scan_usage r =
     Inr \<lparr>ur_ID = us_id r, ur_KeyID = us_key_id r, ur_UserID = us_user_id r, ur_TeamID = us_team_id r, ur_OrgID = us_org_id r,
       ur_CallerJWTSub = us_caller_jwt_sub r, ur_CallerService = us_caller_service r, ur_Model = us_model r,
       ur_ProviderID = us_provider_id r, ur_PromptTokens = us_prompt_tokens r, ur_CompletionTokens = us_completion_tokens r,
       ur_TotalTokens = us_total_tokens r, ur_CostUSD = us_cost_usd r, ur_Cached = (us_cached r \<noteq> 0),
       ur_LatencyMs = us_latency_ms r, ur_StatusCode = us_status_code r, ur_RequestID = us_request_id r,
       ur_CreatedAt = (case time_Parse (us_created_at r) of Some t \<Rightarrow> t | None \<Rightarrow> zero_time)\<rparr>"

section \<open>Records\<close>

text \<open>One \<open>INSERT\<close> for the whole batch: it is refused as a whole if an id is taken or comes twice.\<close>

definition insert_usage :: "usage_row list \<Rightarrow> usage_db \<Rightarrow> goerror + int \<times> usage_db" where
  "insert_usage rows d =
     (if distinct (map us_id rows) \<and> (\<forall>r \<in> set rows. us_id r \<notin> set (map us_id (usage_records d)))
      then Inr (int (length rows), d\<lparr>usage_records := usage_records d @ rows\<rparr>)
      else Inl (constraint_failed ''usage_records.id''))"

definition InsertUsage :: "goerror option \<Rightarrow> UsageRecord list \<Rightarrow> usage_db \<Rightarrow> goerror option \<times> usage_db" where
  "InsertUsage flt records d =
     (if length records = 0 then (None, d)
      else exec_err (ExecContext flt (insert_usage (map usage_values records)) d))"

text \<open>\<open>COALESCE(SUM(cost_usd), 0)\<close>.\<close>

definition SumUsageCost :: "goerror option \<Rightarrow> string \<Rightarrow> usage_db \<Rightarrow> goerror + float64" where
  "SumUsageCost flt keyID d =
     (case flt of
        Some err \<Rightarrow> Inl err
      | None \<Rightarrow> Inr (sum_list (map us_cost_usd (filter (\<lambda>r. us_key_id r = keyID) (usage_records d)))))"

definition usageWhere :: "UsageFilter \<Rightarrow> (usage_row \<Rightarrow> bool) list" where
  "usageWhere f =
     (if uf_OrgID f \<noteq> '''' then [\<lambda>r. us_org_id r = uf_OrgID f] else []) @
     (if uf_KeyID f \<noteq> '''' then [\<lambda>r. us_key_id r = uf_KeyID f] else []) @
     (if uf_Model f \<noteq> '''' then [\<lambda>r. us_model r = uf_Model f] else []) @
     (if uf_Since f \<noteq> '''' then [\<lambda>r. uf_Since f \<le> us_created_at r] else []) @
     (if uf_Until f \<noteq> '''' then [\<lambda>r. us_created_at r < uf_Until f] else [])"

definition where_clause :: "('r \<Rightarrow> bool) list \<Rightarrow> 'r \<Rightarrow> bool" where
  "where_clause clauses r \<longleftrightarrow> list_all (\<lambda>c. c r) clauses"

definition QueryUsage ::
  "goerror option \<Rightarrow> (usage_row list \<Rightarrow> usage_row list) \<Rightarrow> UsageFilter \<Rightarrow> usage_db \<Rightarrow> goerror + UsageRecord list" where
  "QueryUsage flt plan f d =
     (let limit = (if uf_Limit f \<le> 0 then 50 else uf_Limit f)
      in query_rows flt scan_usage (limit_offset limit (uf_Offset f)
           (order_by_desc us_created_at (filter (where_clause (usageWhere f)) (plan (usage_records d))))))"

definition CountUsage :: "goerror option \<Rightarrow> UsageFilter \<Rightarrow> usage_db \<Rightarrow> int \<times> goerror option" where
  "CountUsage flt f d = sql_count flt (filter (where_clause (usageWhere f)) (usage_records d))"

section \<open>Rollups\<close>

definition rollup_pk :: "UsageRollup \<Rightarrow> string \<times> string \<times> string \<times> string \<times> string" where
  "rollup_pk r = (ro_OrgID r, ro_KeyID r, ro_Model r, ro_Period r, ro_Bucket r)"

text \<open>\<open>INSERT ... ON CONFLICT ... DO UPDATE\<close>: the counters of an existing row are replaced.\<close>

definition upsert_one :: "UsageRollup list \<Rightarrow> UsageRollup \<Rightarrow> UsageRollup list" where
  "upsert_one rows r =
     (if rollup_pk r \<in> set (map rollup_pk rows)
      then map (\<lambda>x. if rollup_pk x = rollup_pk r
                then x\<lparr>ro_RequestCount := ro_RequestCount r, ro_PromptTokens := ro_PromptTokens r,
                       ro_CompletionTokens := ro_CompletionTokens r, ro_TotalTokens := ro_TotalTokens r,
                       ro_CostUSD := ro_CostUSD r, ro_CachedCount := ro_CachedCount r\<rparr>
                else x) rows
      else rows @ [r])"

text \<open>All rollups in one transaction: an error at any statement rolls everything back.\<close>

definition UpsertRollup :: "goerror option \<Rightarrow> UsageRollup list \<Rightarrow> usage_db \<Rightarrow> goerror option \<times> usage_db" where
  "UpsertRollup flt rollups d =
     (if length rollups = 0 then (None, d)
      else exec_err (ExecContext flt
        (\<lambda>d. Inr (int (length rollups), d\<lparr>usage_rollups := foldl upsert_one (usage_rollups d) rollups\<rparr>)) d))"

definition rollupWhere :: "RollupFilter \<Rightarrow> (UsageRollup \<Rightarrow> bool) list" where
  "rollupWhere f =
     (if rf_OrgID f \<noteq> '''' then [\<lambda>r. ro_OrgID r = rf_OrgID f] else []) @
     (if rf_KeyID f \<noteq> '''' then [\<lambda>r. ro_KeyID r = rf_KeyID f] else []) @
     (if rf_Model f \<noteq> '''' then [\<lambda>r. ro_Model r = rf_Model f] else []) @
     (if rf_Period f \<noteq> '''' then [\<lambda>r. ro_Period r = rf_Period f] else []) @
     (if rf_Since f \<noteq> '''' then [\<lambda>r. rf_Since f \<le> ro_Bucket r] else []) @
     (if rf_Until f \<noteq> '''' then [\<lambda>r. ro_Bucket r < rf_Until f] else [])"

definition QueryRollups ::
  "goerror option \<Rightarrow> (UsageRollup list \<Rightarrow> UsageRollup list) \<Rightarrow> RollupFilter \<Rightarrow> usage_db \<Rightarrow> goerror + UsageRollup list" where
  "QueryRollups flt plan f d =
     query_rows flt Inr (order_by_desc ro_Bucket (filter (where_clause (rollupWhere f)) (plan (usage_rollups d))))"

section \<open>What a query returns\<close>

text \<open>The abstract table is the log of the inserted records.\<close>

definition usage_holds :: "UsageRecord list \<Rightarrow> usage_db \<Rightarrow> bool" where
  "usage_holds us d \<longleftrightarrow> usage_records d = map usage_values us \<and> distinct (map ur_ID us) \<and>
     (\<forall>u \<in> set us. year_0_9999 (ur_CreatedAt u))"

definition usage_of :: "usage_row \<Rightarrow> UsageRecord" where
  "usage_of r = projr (scan_usage r)"

definition cut_seconds :: "UsageRecord \<Rightarrow> UsageRecord" where
  "cut_seconds u = u\<lparr>ur_CreatedAt := ur_CreatedAt u div second * second\<rparr>"

text \<open>A filter in terms of times: what the clauses on the texts mean when the bounds are texts of times.\<close>

definition selects :: "UsageFilter \<Rightarrow> gotime option \<Rightarrow> gotime option \<Rightarrow> UsageRecord \<Rightarrow> bool" where
  "selects f since until u \<longleftrightarrow>
     (uf_OrgID f = '''' \<or> ur_OrgID u = uf_OrgID f) \<and> (uf_KeyID f = '''' \<or> ur_KeyID u = uf_KeyID f) \<and>
     (uf_Model f = '''' \<or> ur_Model u = uf_Model f) \<and>
     (case since of Some s \<Rightarrow> s div second \<le> ur_CreatedAt u div second | None \<Rightarrow> True) \<and>
     (case until of Some t \<Rightarrow> ur_CreatedAt u div second < t div second | None \<Rightarrow> True)"

definition bound_text :: "gotime option \<Rightarrow> string \<Rightarrow> bool" where
  "bound_text t s \<longleftrightarrow> (case t of Some t \<Rightarrow> year_0_9999 t \<and> s = time_Format t | None \<Rightarrow> s = '''')"

lemma scan_usage_of: "scan_usage r = Inr (usage_of r)"
  by (simp add: usage_of_def scan_usage_def)

lemma scan_rows_map: "(\<And>r. f r = Inr (g r)) \<Longrightarrow> scan_rows f rs = Inr (map g rs)"
  by (induction rs) simp_all

lemma usage_of_values: "year_0_9999 (ur_CreatedAt u) \<Longrightarrow> usage_of (usage_values u) = cut_seconds u"
  by (simp add: usage_of_def scan_usage_def usage_values_def parse_format boolToInt_def cut_seconds_def)

lemma usage_values_ids: "us_id (usage_values u) = ur_ID u" "us_id \<circ> usage_values = ur_ID"
  by (auto simp: usage_values_def)

lemma InsertUsage_appends:
  assumes "usage_holds us d" "\<forall>u \<in> set vs. year_0_9999 (ur_CreatedAt u)" "InsertUsage None vs d = (err, d')"
  shows "if err = None then usage_holds (us @ vs) d' else d' = d"
    and "err = None \<longleftrightarrow> distinct (map ur_ID (us @ vs))"
proof -
  have "err = None \<longleftrightarrow> distinct (map ur_ID vs) \<and> set (map ur_ID vs) \<inter> set (map ur_ID us) = {}"
    "d' = (if err = None then d\<lparr>usage_records := map usage_values (us @ vs)\<rparr> else d)"
    using assms(1,3) unfolding usage_holds_def
    by (auto simp: InsertUsage_def exec_err_def ExecContext_def insert_usage_def usage_values_ids split: if_splits)
  with assms(1,2) show "if err = None then usage_holds (us @ vs) d' else d' = d" "err = None \<longleftrightarrow> distinct (map ur_ID (us @ vs))"
    unfolding usage_holds_def by (auto simp: Int_commute)
qed

lemma limit_offset_map: "map f (limit_offset l k rs) = limit_offset l k (map f rs)"
  by (simp add: limit_offset_def Let_def take_map drop_map)

lemma time_Format_nonempty: "time_Format t \<noteq> ''''"
  by (simp add: time_Format_def Let_def split: prod.splits)

lemma usageWhere_selects:
  assumes "year_0_9999 (ur_CreatedAt u)" "bound_text since (uf_Since f)" "bound_text until (uf_Until f)"
  shows "where_clause (usageWhere f) (usage_values u) \<longleftrightarrow> selects f since until u"
proof -
  have s: "(uf_Since f \<noteq> '''' \<longrightarrow> uf_Since f \<le> time_Format (ur_CreatedAt u)) \<longleftrightarrow>
      (case since of Some s \<Rightarrow> s div second \<le> ur_CreatedAt u div second | None \<Rightarrow> True)"
    using assms(1,2) format_less_iff(1) [of "ur_CreatedAt u"]
    by (auto simp: bound_text_def time_Format_nonempty linorder_not_less [symmetric] split: option.splits)
  have t: "(uf_Until f \<noteq> '''' \<longrightarrow> time_Format (ur_CreatedAt u) < uf_Until f) \<longleftrightarrow>
      (case until of Some t \<Rightarrow> ur_CreatedAt u div second < t div second | None \<Rightarrow> True)"
    using assms(1,3) format_less_iff(1) [of "ur_CreatedAt u"] by (auto simp: bound_text_def time_Format_nonempty split: option.splits)
  have "where_clause (usageWhere f) (usage_values u) \<longleftrightarrow>
     (uf_OrgID f \<noteq> '''' \<longrightarrow> ur_OrgID u = uf_OrgID f) \<and> (uf_KeyID f \<noteq> '''' \<longrightarrow> ur_KeyID u = uf_KeyID f) \<and>
     (uf_Model f \<noteq> '''' \<longrightarrow> ur_Model u = uf_Model f) \<and> (uf_Since f \<noteq> '''' \<longrightarrow> uf_Since f \<le> time_Format (ur_CreatedAt u)) \<and>
     (uf_Until f \<noteq> '''' \<longrightarrow> time_Format (ur_CreatedAt u) < uf_Until f)"
    by (auto simp: where_clause_def usageWhere_def usage_values_def)
  with s t show ?thesis unfolding selects_def by blast
qed


lemma stored_le_iff:
  assumes "year_0_9999 (ur_CreatedAt u)" "year_0_9999 (ur_CreatedAt v)"
  shows "us_created_at (usage_values u) \<le> us_created_at (usage_values v) \<longleftrightarrow>
    ur_CreatedAt (cut_seconds u) \<le> ur_CreatedAt (cut_seconds v)"
  using format_less_iff(1) [OF assms(2,1)]
  by (simp add: usage_values_def cut_seconds_def linorder_not_less [symmetric] second_def)

lemma QueryUsage_page:
  assumes "usage_holds us d" and "\<forall>rows. mset (plan rows) = mset rows"
    and "bound_text since (uf_Since f)" and "bound_text until (uf_Until f)"
  shows "\<exists>L. mset L = mset (map cut_seconds (filter (selects f since until) us)) \<and>
    sorted (map ur_CreatedAt (rev L)) \<and> CountUsage None f d = (int (length L), None) \<and>
    QueryUsage None plan f d = Inr (take (if uf_Limit f \<le> 0 then 50 else nat (uf_Limit f)) (drop (nat (uf_Offset f)) L))"
proof -
  let ?W = "where_clause (usageWhere f)" and ?S = "selects f since until"
  have year: "\<forall>u \<in> set us. year_0_9999 (ur_CreatedAt u)" and rows: "usage_records d = map usage_values us"
    using assms(1) by (auto simp: usage_holds_def)
  have sel: "?W (usage_values u) \<longleftrightarrow> ?S u" if "u \<in> set us" for u
    using usageWhere_selects [OF _ assms(3,4)] year that by blast
  define R where "R = sort_key us_created_at (filter ?W (plan (usage_records d)))"
  define L where "L = map usage_of (rev R)"
  have "mset R = mset (filter ?W (map usage_values us))"
    using assms(2) by (simp add: R_def rows mset_filter)
  also have "filter ?W (map usage_values us) = map usage_values (filter ?S us)"
    using sel by (simp add: filter_map comp_def cong: filter_cong)
  finally have mR: "mset R = mset (map usage_values (filter ?S us))" .
  then have setR: "set R = usage_values ` set (filter ?S us)" by (metis set_map set_mset_mset)
  have "mset L = image_mset usage_of (mset (map usage_values (filter ?S us)))" by (simp add: L_def mR)
  also have "\<dots> = mset (map (usage_of \<circ> usage_values) (filter ?S us))" by (simp add: image_mset.compositionality)
  also have "map (usage_of \<circ> usage_values) (filter ?S us) = map cut_seconds (filter ?S us)"
    using year by (simp add: usage_of_values)
  finally have mL: "mset L = mset (map cut_seconds (filter ?S us))" .
  have "sorted_wrt (\<lambda>x y. us_created_at x \<le> us_created_at y) R"
    using sorted_sort_key [of us_created_at "filter ?W (plan (usage_records d))"] by (simp add: R_def sorted_map)
  then have "sorted_wrt (\<lambda>x y. ur_CreatedAt (usage_of x) \<le> ur_CreatedAt (usage_of y)) R"
  proof (rule sorted_wrt_mono_rel [rotated])
    fix x y assume "x \<in> set R" "y \<in> set R" and le: "us_created_at x \<le> us_created_at y"
    then obtain u v where "x = usage_values u" "y = usage_values v" "year_0_9999 (ur_CreatedAt u)" "year_0_9999 (ur_CreatedAt v)"
      using year by (auto simp: setR)
    then show "ur_CreatedAt (usage_of x) \<le> ur_CreatedAt (usage_of y)" using stored_le_iff le by (simp add: usage_of_values)
  qed
  then have "sorted (map ur_CreatedAt (rev L))" by (simp add: L_def rev_map sorted_map sorted_wrt_map)
  moreover have "CountUsage None f d = (int (length L), None)"
    using mset_eq_length [OF mL] sel by (simp add: CountUsage_def sql_count_def rows filter_map comp_def cong: filter_cong)
  moreover have "QueryUsage None plan f d = Inr (take (if uf_Limit f \<le> 0 then 50 else nat (uf_Limit f)) (drop (nat (uf_Offset f)) L))"
    by (simp add: scan_rows_map [of scan_usage usage_of, OF scan_usage_of] QueryUsage_def Let_def query_rows_def QueryContext_def order_by_desc_def R_def [symmetric] L_def limit_offset_def
        take_map drop_map)
  ultimately show ?thesis using mL by blast
qed

section \<open>Property\<close>

text \<open>
  C21. Usage queries. When the bounds of the filter are RFC 3339 texts of times in UTC (or empty), \<open>QueryUsage\<close>
  returns the page \<open>offset\<close>, \<open>limit\<close> (50 if none is given) of a list of exactly the inserted records
  that match the filter and whose creation time, to the second, is not before \<open>since\<close> and before
  \<open>until\<close>, newest first; \<open>CountUsage\<close> is the length of that list. The comparison of the texts in SQL is
  the comparison of the times.
\<close>

theorem usage_query_window:
  assumes "usage_holds us d" and "\<forall>rows. mset (plan rows) = mset rows"
    and "bound_text since (uf_Since f)" and "bound_text until (uf_Until f)"
  shows "\<exists>L. mset L = mset (map cut_seconds (filter (selects f since until) us)) \<and>
    sorted (map ur_CreatedAt (rev L)) \<and> CountUsage None f d = (int (length L), None) \<and>
    QueryUsage None plan f d = Inr (take (if uf_Limit f \<le> 0 then 50 else nat (uf_Limit f)) (drop (nat (uf_Offset f)) L))"
  using QueryUsage_page [OF assms] .


definition ex_usage :: "string \<Rightarrow> gotime \<Rightarrow> UsageRecord" where
  "ex_usage i t =
     \<lparr>ur_ID = i, ur_KeyID = ''k1'', ur_UserID = '''', ur_TeamID = '''', ur_OrgID = ''default'', ur_CallerJWTSub = '''',
      ur_CallerService = '''', ur_Model = ''gpt-4o'', ur_ProviderID = '''', ur_PromptTokens = 3, ur_CompletionTokens = 4,
      ur_TotalTokens = 7, ur_CostUSD = 0, ur_Cached = False, ur_LatencyMs = 5, ur_StatusCode = 200, ur_RequestID = ''r'',
      ur_CreatedAt = t\<rparr>"

definition ex_filter :: UsageFilter where
  "ex_filter = \<lparr>uf_OrgID = ''default'', uf_KeyID = '''', uf_Model = '''', uf_Since = time_Format (10 * second),
     uf_Until = time_Format (60 * second), uf_Offset = 0, uf_Limit = 0\<rparr>"

definition ex_usage_db :: usage_db where
  "ex_usage_db = \<lparr>usage_records = map usage_values [ex_usage ''a'' (5 * second), ex_usage ''b'' (20 * second),
     ex_usage ''c'' (60 * second)], usage_rollups = []\<rparr>"

theorem usage_query_window_witness:
  "QueryUsage None id ex_filter ex_usage_db = Inr [ex_usage ''b'' (20 * second)]"
proof -
  let ?us = "[ex_usage ''a'' (5 * second), ex_usage ''b'' (20 * second), ex_usage ''c'' (60 * second)]"
  have h: "usage_holds ?us ex_usage_db" by (simp add: usage_holds_def ex_usage_db_def ex_usage_def year_0_9999_def second_def)
  have b: "bound_text (Some (10 * second)) (uf_Since ex_filter)" "bound_text (Some (60 * second)) (uf_Until ex_filter)"
    by (simp_all add: bound_text_def ex_filter_def year_0_9999_def second_def)
  have "filter (selects ex_filter (Some (10 * second)) (Some (60 * second))) ?us = [ex_usage ''b'' (20 * second)]"
    by (simp add: selects_def ex_filter_def ex_usage_def second_def)
  then obtain L where "mset L = {#cut_seconds (ex_usage ''b'' (20 * second))#}"
    "QueryUsage None id ex_filter ex_usage_db = Inr (take 50 (drop 0 L))"
    using usage_query_window [OF h _ b, of id] by (auto simp: ex_filter_def)
  moreover from this(1) have "L = [cut_seconds (ex_usage ''b'' (20 * second))]" by (simp add: mset_single_iff_right)
  ultimately show ?thesis by (simp add: cut_seconds_def ex_usage_def second_def)
qed

end
