(* ===== verification/Usage_Workers.thy ===== *)
theory Usage_Workers
  imports Usage_Store
begin

text \<open>
  The background workers on usage, \<open>internal/worker/usage_recorder.go\<close> and \<open>usage_rollup.go\<close>.

  The recorder is a state machine: its channel, the buffer of \<open>Run\<close>, the mode of its loop, and the
  batches it has passed to \<open>InsertUsage\<close> so far. The cases of the \<open>select\<close> in \<open>Run\<close> and \<open>drain\<close>, and the
  calls of \<open>Record\<close> by the handlers, are the steps; \<open>select\<close> chooses among the ready cases in any order.
  \<open>uuid i\<close> is the identifier generated for the \<open>i\<close>-th record of a batch.

  The rollup worker reads the records of the last two full hours and replaces the hourly sums.
\<close>

section \<open>Recorder\<close>

definition usageChanSize :: nat where "usageChanSize = 1000"
definition usageBatchSize :: nat where "usageBatchSize = 100"

datatype rec_mode = Running | Draining | Stopped

record UsageRecorder =
  rc_ch :: "UsageRecord list"
  rc_buf :: "UsageRecord list"
  rc_mode :: rec_mode
  rc_calls :: "UsageRecord list list"

definition NewUsageRecorder :: UsageRecorder where
  "NewUsageRecorder = \<lparr>rc_ch = [], rc_buf = [], rc_mode = Running, rc_calls = []\<rparr>"

text \<open>\<open>Record\<close> never blocks: on a full channel the record is dropped.\<close>

definition Record :: "UsageRecord \<Rightarrow> UsageRecorder \<Rightarrow> UsageRecorder" where
  "Record r s = (if length (rc_ch s) < usageChanSize then s\<lparr>rc_ch := rc_ch s @ [r]\<rparr> else s)"

definition assign_ids :: "(nat \<Rightarrow> string) \<Rightarrow> UsageRecord list \<Rightarrow> UsageRecord list" where
  "assign_ids uuid batch = map (\<lambda>(i, r). if ur_ID r = '''' then r\<lparr>ur_ID := uuid i\<rparr> else r) (enumerate 0 batch)"

definition flush :: "(nat \<Rightarrow> string) \<Rightarrow> UsageRecorder \<Rightarrow> UsageRecorder" where
  "flush uuid s = s\<lparr>rc_calls := rc_calls s @ [assign_ids uuid (rc_buf s)], rc_buf := []\<rparr>"

definition receive :: "(nat \<Rightarrow> string) \<Rightarrow> UsageRecord \<Rightarrow> UsageRecord list \<Rightarrow> UsageRecorder \<Rightarrow> UsageRecorder" where
  "receive uuid r rest s =
     (let s1 = s\<lparr>rc_ch := rest, rc_buf := rc_buf s @ [r]\<rparr>
      in if length (rc_buf s1) \<ge> usageBatchSize then flush uuid s1 else s1)"

definition flush_rest :: "(nat \<Rightarrow> string) \<Rightarrow> UsageRecorder \<Rightarrow> UsageRecorder" where
  "flush_rest uuid s = (if length (rc_buf s) > 0 then flush uuid s else s)"

text \<open>\<open>drain\<close> empties the channel, then flushes the rest.\<close>

fun drain_loop :: "(nat \<Rightarrow> nat \<Rightarrow> string) \<Rightarrow> UsageRecord list \<Rightarrow> UsageRecorder \<Rightarrow> UsageRecorder" where
  "drain_loop uuid [] s = (flush_rest (uuid 0) s)\<lparr>rc_mode := Stopped\<rparr>"
| "drain_loop uuid (r # rest) s = drain_loop uuid rest (receive (uuid (Suc (length rest))) r rest s)"

definition drain :: "(nat \<Rightarrow> nat \<Rightarrow> string) \<Rightarrow> UsageRecorder \<Rightarrow> UsageRecorder" where
  "drain uuid s = drain_loop uuid (rc_ch s) s"

inductive rec_step :: "UsageRecorder \<Rightarrow> UsageRecorder \<Rightarrow> bool" where
  step_receive: "rc_mode s \<noteq> Stopped \<Longrightarrow> rc_ch s = r # rest \<Longrightarrow> rec_step s (receive uuid r rest s)"
| step_tick: "rc_mode s = Running \<Longrightarrow> rec_step s (flush_rest uuid s)"
| step_done: "rc_mode s = Running \<Longrightarrow> rec_step s (s\<lparr>rc_mode := Draining\<rparr>)"
| step_drained: "rc_mode s = Draining \<Longrightarrow> rc_ch s = [] \<Longrightarrow> rec_step s ((flush_rest uuid s)\<lparr>rc_mode := Stopped\<rparr>)"

text \<open>The records that were accepted, in order, and a state the recorder can be in after that.\<close>

inductive rec_run :: "UsageRecord list \<Rightarrow> UsageRecorder \<Rightarrow> bool" where
  run_new: "rec_run [] NewUsageRecorder"
| run_record: "rec_run acc s \<Longrightarrow> length (rc_ch s) < usageChanSize \<Longrightarrow> rec_run (acc @ [r]) (Record r s)"
| run_drop: "rec_run acc s \<Longrightarrow> \<not> length (rc_ch s) < usageChanSize \<Longrightarrow> rec_run acc (Record r s)"
| run_step: "rec_run acc s \<Longrightarrow> rec_step s s' \<Longrightarrow> rec_run acc s'"

inductive_cases rec_stepE: "rec_step s s'"

definition no_id :: "UsageRecord \<Rightarrow> UsageRecord" where
  "no_id r = r\<lparr>ur_ID := ''''\<rparr>"

definition rec_inv :: "UsageRecord list \<Rightarrow> UsageRecorder \<Rightarrow> bool" where
  "rec_inv acc s \<longleftrightarrow>
     map no_id (concat (rc_calls s) @ rc_buf s @ rc_ch s) = map no_id acc \<and>
     length (rc_buf s) < usageBatchSize \<and> length (rc_ch s) \<le> usageChanSize \<and>
     (\<forall>b \<in> set (rc_calls s). b \<noteq> [] \<and> length b \<le> usageBatchSize) \<and> (rc_mode s = Stopped \<longrightarrow> rc_buf s = [])"

lemma assign_ids_no_id: "map no_id (assign_ids uuid b) = map no_id b"
proof -
  have "map no_id (map (\<lambda>(i, r). if ur_ID r = '''' then r\<lparr>ur_ID := uuid i\<rparr> else r) (enumerate n b)) = map no_id b" for n
    by (induction b arbitrary: n) (auto simp: no_id_def)
  then show ?thesis by (simp add: assign_ids_def)
qed

lemma assign_ids_length [simp]: "length (assign_ids uuid b) = length b" "assign_ids uuid b = [] \<longleftrightarrow> b = []"
  by (simp add: assign_ids_def) (metis assign_ids_no_id map_is_Nil_conv)

lemma flush_inv:
  assumes "map no_id (concat (rc_calls s) @ rc_buf s @ rc_ch s) = map no_id acc" "rc_buf s \<noteq> []"
    "length (rc_buf s) \<le> usageBatchSize" "length (rc_ch s) \<le> usageChanSize"
    "\<forall>b \<in> set (rc_calls s). b \<noteq> [] \<and> length b \<le> usageBatchSize"
  shows "rec_inv acc (flush uuid s)"
  using assms by (auto simp: rec_inv_def flush_def assign_ids_no_id usageBatchSize_def)

lemma flush_rest_inv: "rec_inv acc s \<Longrightarrow> rec_inv acc (flush_rest uuid s)"
proof (cases "rc_buf s = []")
  case False
  moreover assume "rec_inv acc s"
  ultimately have "rec_inv acc (flush uuid s)" unfolding rec_inv_def [of acc s] by (intro flush_inv) simp_all
  with False show ?thesis by (simp add: flush_rest_def)
qed (simp add: flush_rest_def)

lemma receive_inv:
  assumes "rec_inv acc s" "rc_ch s = r # rest" "rc_mode s \<noteq> Stopped"
  shows "rec_inv acc (receive uuid r rest s)"
proof -
  let ?s = "s\<lparr>rc_ch := rest, rc_buf := rc_buf s @ [r]\<rparr>"
  have "rec_inv acc (if length (rc_buf ?s) \<ge> usageBatchSize then flush uuid ?s else ?s)"
  proof (cases "length (rc_buf ?s) \<ge> usageBatchSize")
    case True
    have "rec_inv acc (flush uuid ?s)" using assms unfolding rec_inv_def [of acc s] by (intro flush_inv) simp_all
    with True show ?thesis by simp
  qed (use assms in \<open>simp add: rec_inv_def\<close>)
  then show ?thesis by (simp add: receive_def Let_def)
qed

lemma rec_step_inv: "rec_step s s' \<Longrightarrow> rec_inv acc s \<Longrightarrow> rec_inv acc s'"
proof (erule rec_stepE)
  fix r rest uuid assume "rec_inv acc s" "rc_mode s \<noteq> Stopped" "rc_ch s = r # rest" "s' = receive uuid r rest s"
  then show "rec_inv acc s'" using receive_inv by blast
next
  fix uuid assume "rec_inv acc s" "s' = flush_rest uuid s"
  then show "rec_inv acc s'" using flush_rest_inv by blast
next
  assume "rec_inv acc s" "s' = s\<lparr>rc_mode := Draining\<rparr>"
  then show "rec_inv acc s'" by (simp add: rec_inv_def)
next
  fix uuid assume "rec_inv acc s" "s' = (flush_rest uuid s)\<lparr>rc_mode := Stopped\<rparr>"
  moreover have "rc_buf (flush_rest uuid s) = []" by (auto simp: flush_rest_def flush_def)
  ultimately show "rec_inv acc s'" using flush_rest_inv [of acc s uuid] by (simp add: rec_inv_def)
qed

lemma rec_run_inv: "rec_run acc s \<Longrightarrow> rec_inv acc s"
proof (induction rule: rec_run.induct)
  case run_new
  show ?case by (simp add: rec_inv_def NewUsageRecorder_def usageBatchSize_def)
next
  case (run_record acc s r)
  then show ?case by (auto simp: rec_inv_def Record_def)
next
  case (run_drop acc s r)
  then show ?case by (simp add: Record_def)
next
  case (run_step acc s s')
  then show ?case using rec_step_inv by blast
qed

lemma drain_run:
  "rec_run acc s \<Longrightarrow> rc_mode s = Draining \<Longrightarrow> rec_run acc (drain uuid s) \<and> rc_mode (drain uuid s) = Stopped \<and> rc_ch (drain uuid s) = []"
proof -
  have "rec_run acc s \<Longrightarrow> rc_mode s = Draining \<Longrightarrow> rc_ch s = rs \<Longrightarrow>
      rec_run acc (drain_loop uuid rs s) \<and> rc_mode (drain_loop uuid rs s) = Stopped \<and> rc_ch (drain_loop uuid rs s) = []" for rs
  proof (induction rs arbitrary: s)
    case Nil
    then have "rec_run acc ((flush_rest (uuid 0) s)\<lparr>rc_mode := Stopped\<rparr>)" using step_drained run_step by blast
    with Nil show ?case by (auto simp: flush_rest_def flush_def)
  next
    case (Cons r rest)
    let ?s = "receive (uuid (Suc (length rest))) r rest s"
    have "rec_run acc ?s" using Cons.prems step_receive [of s r rest] run_step by force
    moreover have "rc_mode ?s = Draining" "rc_ch ?s = rest" using Cons.prems by (auto simp: receive_def flush_def Let_def)
    ultimately show ?case using Cons.IH by simp
  qed
  then show "rec_run acc s \<Longrightarrow> rc_mode s = Draining \<Longrightarrow> ?thesis" unfolding drain_def by blast
qed


text \<open>
  C22. No usage record is lost or recorded twice. Whatever the order of the steps, the batches passed to \<open>InsertUsage\<close>,
  the buffer and the channel hold, in this order, exactly the records that were accepted, each once (ids
  aside); the channel and the buffer stay within their bounds and no batch is empty or larger than 100.
  When \<open>Run\<close> is cancelled, \<open>drain\<close> ends, and everything accepted until then has been passed on.
\<close>

theorem usage_recorder_keeps_records:
  assumes "rec_run acc s"
  shows "map no_id (concat (rc_calls s) @ rc_buf s @ rc_ch s) = map no_id acc \<and>
    length (rc_buf s) < 100 \<and> length (rc_ch s) \<le> 1000 \<and>
    (\<forall>b. b \<in> set (rc_calls s) \<longrightarrow> b \<noteq> [] \<and> length b \<le> 100) \<and>
    (rc_mode s = Draining \<longrightarrow> rc_mode (drain uuid s) = Stopped \<and>
      map no_id (concat (rc_calls (drain uuid s))) = map no_id acc)"
proof -
  have inv: "rec_inv acc s" using assms by (rule rec_run_inv)
  have drained: "rc_mode (drain uuid s) = Stopped \<and> map no_id (concat (rc_calls (drain uuid s))) = map no_id acc"
    if "rc_mode s = Draining"
  proof -
    note drain = drain_run [OF assms that, of uuid]
    then have i: "rec_inv acc (drain uuid s)" by (intro rec_run_inv) blast
    with drain have "rc_buf (drain uuid s) = []" "rc_ch (drain uuid s) = []" unfolding rec_inv_def by blast+
    with i drain show ?thesis by (simp add: rec_inv_def)
  qed
  from inv show ?thesis unfolding rec_inv_def usageBatchSize_def usageChanSize_def using drained by blast
qed

theorem usage_recorder_keeps_records_witness:
  "let s = (Record (ex_usage '''' 0) NewUsageRecorder)\<lparr>rc_mode := Draining\<rparr>
   in map no_id (concat (rc_calls (drain (\<lambda>_ _. ''u1'') s))) = [ex_usage '''' 0]"
proof -
  have "rec_run ([] @ [ex_usage '''' 0]) (Record (ex_usage '''' 0) NewUsageRecorder)"
    by (intro run_record run_new) (simp add: NewUsageRecorder_def usageChanSize_def)
  moreover have "rc_mode (Record (ex_usage '''' 0) NewUsageRecorder) = Running" by (simp add: Record_def NewUsageRecorder_def)
  ultimately have "rec_run [ex_usage '''' 0] ((Record (ex_usage '''' 0) NewUsageRecorder)\<lparr>rc_mode := Draining\<rparr>)"
    by (simp add: run_step [OF _ step_done])
  from usage_recorder_keeps_records [OF this, of "\<lambda>_ _. ''u1''"] show ?thesis
    by (simp add: Let_def no_id_def ex_usage_def)
qed

section \<open>Rollup\<close>

definition hour :: duration where
  "hour = 3600 * second"

text \<open>\<open>Truncate\<close> rounds down to a multiple of the duration since the zero time.\<close>

definition time_Truncate :: "gotime \<Rightarrow> duration \<Rightarrow> gotime" where
  "time_Truncate t d = t - (t - zero_time) mod d"

type_synonym rollup_key = "string \<times> string \<times> string \<times> string"

definition rollup_key :: "UsageRecord \<Rightarrow> rollup_key" where
  "rollup_key r = (ur_OrgID r, ur_KeyID r, ur_Model r, time_Format (time_Truncate (ur_CreatedAt r) hour))"

definition empty_rollup :: "rollup_key \<Rightarrow> UsageRollup" where
  "empty_rollup k =
     (case k of (orgID, keyID, model, bucket) \<Rightarrow>
        \<lparr>ro_OrgID = orgID, ro_KeyID = keyID, ro_Model = model, ro_Period = ''hourly'', ro_Bucket = bucket,
         ro_RequestCount = 0, ro_PromptTokens = 0, ro_CompletionTokens = 0, ro_TotalTokens = 0, ro_CostUSD = 0,
         ro_CachedCount = 0\<rparr>)"

definition add_usage :: "UsageRecord \<Rightarrow> UsageRollup \<Rightarrow> UsageRollup" where
  "add_usage r ru =
     ru\<lparr>ro_RequestCount := ro_RequestCount ru + 1, ro_PromptTokens := ro_PromptTokens ru + ur_PromptTokens r,
        ro_CompletionTokens := ro_CompletionTokens ru + ur_CompletionTokens r,
        ro_TotalTokens := ro_TotalTokens ru + ur_TotalTokens r, ro_CostUSD := ro_CostUSD ru + ur_CostUSD r,
        ro_CachedCount := (if ur_Cached r then ro_CachedCount ru + 1 else ro_CachedCount ru)\<rparr>"

definition agg_step :: "(rollup_key \<rightharpoonup> UsageRollup) \<Rightarrow> UsageRecord \<Rightarrow> (rollup_key \<rightharpoonup> UsageRollup)" where
  "agg_step agg r =
     (let k = rollup_key r;
          ru = (case agg k of Some ru \<Rightarrow> ru | None \<Rightarrow> empty_rollup k)
      in agg(k \<mapsto> add_usage r ru))"

definition aggregate :: "UsageRecord list \<Rightarrow> (rollup_key \<rightharpoonup> UsageRollup)" where
  "aggregate records = foldl agg_step Map.empty records"

text \<open>\<open>order\<close> is the order in which Go ranges over the map.\<close>

definition rollup ::
  "goerror option \<Rightarrow> goerror option \<Rightarrow> (usage_row list \<Rightarrow> usage_row list) \<Rightarrow> rollup_key list \<Rightarrow> gotime \<Rightarrow> usage_db \<Rightarrow> usage_db" where
  "rollup flt1 flt2 plan order now d =
     (let since = time_Format (time_Truncate (now - 2 * hour) hour);
          until = time_Format (time_Truncate now hour)
      in case QueryUsage flt1 plan \<lparr>uf_OrgID = '''', uf_KeyID = '''', uf_Model = '''', uf_Since = since, uf_Until = until,
             uf_Offset = 0, uf_Limit = 10000\<rparr> d of
           Inl err \<Rightarrow> d
         | Inr records \<Rightarrow>
             if length records = 0 then d
             else snd (UpsertRollup flt2 (map (\<lambda>k. the (aggregate records k)) order) d))"


section \<open>The sums of an hour\<close>

definition group_sum :: "rollup_key \<Rightarrow> UsageRecord list \<Rightarrow> UsageRollup" where
  "group_sum k g =
     (empty_rollup k)\<lparr>ro_RequestCount := int (length g), ro_PromptTokens := sum_list (map ur_PromptTokens g),
        ro_CompletionTokens := sum_list (map ur_CompletionTokens g), ro_TotalTokens := sum_list (map ur_TotalTokens g),
        ro_CostUSD := sum_list (map ur_CostUSD g), ro_CachedCount := int (length (filter ur_Cached g))\<rparr>"

definition hourly_pk :: "rollup_key \<Rightarrow> string \<times> string \<times> string \<times> string \<times> string" where
  "hourly_pk k = (case k of (orgID, keyID, model, bucket) \<Rightarrow> (orgID, keyID, model, ''hourly'', bucket))"

definition rows_of :: "rollup_key \<Rightarrow> UsageRollup list \<Rightarrow> UsageRollup list" where
  "rows_of k = filter (\<lambda>r. rollup_pk r = hourly_pk k)"

lemma group_sum_snoc: "group_sum k (g @ [r]) = add_usage r (group_sum k g)"
  by (simp add: group_sum_def add_usage_def empty_rollup_def split: prod.split)

lemma group_sum_Nil: "group_sum k [] = empty_rollup k"
  by (simp add: group_sum_def empty_rollup_def split: prod.split)

lemma aggregate_sums:
  "aggregate rs k = (let g = filter (\<lambda>r. rollup_key r = k) rs in if g = [] then None else Some (group_sum k g))"
proof (induction rs rule: rev_induct)
  case (snoc r rs)
  have "aggregate (rs @ [r]) = agg_step (aggregate rs) r" by (simp add: aggregate_def)
  with snoc show ?case
    by (auto simp: agg_step_def Let_def group_sum_snoc group_sum_Nil [symmetric] simp flip: append.simps)
qed (simp add: aggregate_def)

lemma rollup_pk_group_sum: "rollup_pk (group_sum k g) = hourly_pk k"
  by (simp add: rollup_pk_def hourly_pk_def group_sum_def empty_rollup_def split: prod.split)

lemma hourly_pk_inj: "hourly_pk k = hourly_pk k' \<longleftrightarrow> k = k'"
  by (auto simp: hourly_pk_def split: prod.splits)

lemma upsert_one_pks:
  "map rollup_pk (upsert_one rows r) =
    (if rollup_pk r \<in> set (map rollup_pk rows) then map rollup_pk rows else map rollup_pk rows @ [rollup_pk r])"
  by (simp add: upsert_one_def rollup_pk_def)

lemma upsert_one_rows:
  assumes "distinct (map rollup_pk rows)"
  shows "filter (\<lambda>x. rollup_pk x = pk) (upsert_one rows r) =
    (if pk = rollup_pk r then [r] else filter (\<lambda>x. rollup_pk x = pk) rows)"
  using assms
proof (induction rows)
  case (Cons x rows)
  show ?case
  proof (cases "rollup_pk x = rollup_pk r")
    case True
    then have r: "rollup_pk r \<notin> set (map rollup_pk rows)" using Cons.prems by simp
    then have "map (\<lambda>x. if rollup_pk x = rollup_pk r then g x else x) rows = rows" for g
      by (intro map_idI) (metis image_eqI list.set_map)
    then have "upsert_one (x # rows) r = r # rows"
      using True by (simp add: upsert_one_def) (simp add: rollup_pk_def)
    moreover have "filter (\<lambda>x. rollup_pk x = rollup_pk r) rows = []" using r by (intro filter_False ballI notI) (metis image_eqI list.set_map)
    ultimately show ?thesis using True by auto
  next
    case False
    then show ?thesis using Cons by (auto simp: upsert_one_def)
  qed
qed (simp add: upsert_one_def)

lemma upsert_all_rows:
  assumes "distinct (map rollup_pk rows)" "distinct order"
  shows "rows_of k (foldl upsert_one rows (map (\<lambda>k. group_sum k (f k)) order)) =
    (if k \<in> set order then [group_sum k (f k)] else rows_of k rows)"
  using assms
proof (induction order arbitrary: rows)
  case (Cons a order)
  have "distinct (map rollup_pk (upsert_one rows (group_sum a (f a))))" using Cons.prems(1) by (auto simp: upsert_one_pks)
  moreover have "rows_of k (upsert_one rows (group_sum a (f a))) = (if k = a then [group_sum a (f a)] else rows_of k rows)"
    using upsert_one_rows [OF Cons.prems(1)] by (simp add: rows_of_def rollup_pk_group_sum hourly_pk_inj)
  ultimately show ?case using Cons by auto
qed simp

lemma group_sum_perm: "mset g = mset g' \<Longrightarrow> group_sum k g = group_sum k g'"
  unfolding group_sum_def
  using mset_eq_length [of "filter ur_Cached g" "filter ur_Cached g'"] by (simp flip: sum_mset_sum_list size_mset)

lemma group_sum_cut: "group_sum k (map cut_seconds g) = group_sum k g"
  by (simp add: group_sum_def cut_seconds_def comp_def filter_map)

lemma time_Truncate_hour: "time_Truncate t hour = t div second div 3600 * 3600 * second"
proof -
  have "(t - zero_time) mod hour = t mod hour"
    using mod_mult_self1 [of t 17259888 hour] by (simp add: zero_time_def hour_def second_def)
  moreover have "t - t mod hour = t div (second * 3600) * 3600 * second"
    by (simp add: minus_mod_eq_div_mult hour_def mult.commute)
  ultimately show ?thesis by (simp add: time_Truncate_def div_mult2_eq second_def)
qed

lemma rollup_key_cut: "rollup_key (cut_seconds u) = rollup_key u"
  by (simp add: rollup_key_def time_Truncate_hour cut_seconds_def second_def)

definition in_window :: "gotime \<Rightarrow> UsageRecord \<Rightarrow> bool" where
  "in_window now u \<longleftrightarrow> time_Truncate (now - 2 * hour) hour \<le> ur_CreatedAt u \<and> ur_CreatedAt u < time_Truncate now hour"

lemma le_div_second_iff: "a \<le> c div second \<longleftrightarrow> a * second \<le> c"
proof -
  have "c = c div second * second + c mod second" "0 \<le> c mod second" "c mod second < second"
    by (simp_all add: second_def)
  moreover have "a \<le> q \<longleftrightarrow> a * second \<le> c" if "c = q * second + r" "0 \<le> r" "r < second" for q r
  proof
    assume "a * second \<le> c"
    then have "a * second < (q + 1) * second" using that by (simp add: distrib_right)
    then show "a \<le> q" by (simp add: second_def)
  qed (use that in \<open>simp add: second_def\<close>)
  ultimately show ?thesis by blast
qed

lemma rollup_query:
  assumes "usage_holds us d" "\<forall>rows. mset (plan rows) = mset rows" "length (filter (in_window now) us) \<le> 10000"
    and "year_0_9999 (time_Truncate (now - 2 * hour) hour)" "year_0_9999 (time_Truncate now hour)"
  shows "\<exists>L. mset L = mset (map cut_seconds (filter (in_window now) us)) \<and>
    QueryUsage None plan \<lparr>uf_OrgID = '''', uf_KeyID = '''', uf_Model = '''',
      uf_Since = time_Format (time_Truncate (now - 2 * hour) hour), uf_Until = time_Format (time_Truncate now hour),
      uf_Offset = 0, uf_Limit = 10000\<rparr> d = Inr L"
proof -
  let ?s = "time_Truncate (now - 2 * hour) hour" and ?t = "time_Truncate now hour"
  let ?f = "\<lparr>uf_OrgID = '''', uf_KeyID = '''', uf_Model = '''', uf_Since = time_Format ?s, uf_Until = time_Format ?t,
    uf_Offset = 0, uf_Limit = 10000\<rparr>"
  have "a * second div second \<le> c div second \<longleftrightarrow> a * second \<le> c" for a c
    using le_div_second_iff [of a c] by (simp add: second_def)
  moreover have "c div second < a * second div second \<longleftrightarrow> c < a * second" for a c
    using le_div_second_iff [of a c] by (simp add: second_def linorder_not_le [symmetric])
  ultimately have sel: "selects ?f (Some ?s) (Some ?t) = in_window now"
    by (intro ext) (simp add: selects_def in_window_def time_Truncate_hour)
  have "bound_text (Some ?s) (uf_Since ?f)" "bound_text (Some ?t) (uf_Until ?f)"
    using assms(4,5) by (simp_all add: bound_text_def)
  from QueryUsage_page [OF assms(1,2) this] obtain L where
    L: "mset L = mset (map cut_seconds (filter (in_window now) us))"
      "QueryUsage None plan ?f d = Inr (take (if uf_Limit ?f \<le> 0 then 50 else nat (uf_Limit ?f)) (drop (nat (uf_Offset ?f)) L))"
    unfolding sel by blast
  have "length L \<le> 10000" using mset_eq_length [OF L(1)] assms(3) by (simp only: length_map)
  then have "take (if uf_Limit ?f \<le> 0 then 50 else nat (uf_Limit ?f)) (drop (nat (uf_Offset ?f)) L) = L" by simp
  with L show ?thesis by (intro exI [of _ L]) (simp only: simp_thms)
qed



end
