(* ===== verification/Json_Raw.thy ===== *)
theory Json_Raw
  imports Json_Decode
begin

text \<open>
  Raw messages. A \<open>json.RawMessage\<close> that itself is the text of a written value is copied by \<open>Marshal\<close>
  as it is, so an encoder with raw fields writes the same text as one with the values in their place,
  and a decoder gives the raw texts back. On this the wire formats of requests and responses rest.
\<close>

section \<open>Compaction\<close>

definition safe_char :: "char \<Rightarrow> bool" where
  "safe_char c \<longleftrightarrow> c \<notin> {ch_quote, ch_backslash, CHR ''<'', CHR ''>'', CHR ''&'', CHR 0xE2}"

lemma compact_safe: "safe_char c \<Longrightarrow> compact_out True (c # cs) = c # compact_out True cs"
  by (auto simp: safe_char_def utf8_separators)

lemma compact_safes: "\<forall>c \<in> set t. safe_char c \<Longrightarrow> compact_out True (t @ r) = t @ compact_out True r"
  by (induction t) (simp_all add: compact_safe del: compact_out.simps)

lemma compact_escape: "compact_out True (ch_backslash # d # r) = ch_backslash # d # compact_out True r"
  by simp

declare compact_out.simps(2) [simp del]

lemma hex_digit_safe: "k < 16 \<Longrightarrow> safe_char (hex_digit k)"
proof -
  assume "k < 16"
  then have "byte (hex_digit k) < 0x67" "0x30 \<le> byte (hex_digit k)" "byte (hex_digit k) < 0x3A \<or> 0x61 \<le> byte (hex_digit k)"
    by (simp_all add: hex_digit_def)
  moreover have "byte (CHR ''<'') = 0x3C" "byte (CHR ''>'') = 0x3E" "byte (CHR ''&'') = 0x26" "byte ch_quote = 0x22"
    "byte ch_backslash = 0x5C" "byte (CHR 0xE2) = 0xE2" by (simp_all add: byte_def)
  ultimately show ?thesis unfolding safe_char_def by (auto simp: char_eq_byte)
qed

lemma compact_u_escape: "n < 65536 \<Longrightarrow> compact_out True (u_escape n @ r) = u_escape n @ compact_out True r"
  using compact_safes [of "[hex_digit (n div 4096), hex_digit (n div 256 mod 16), hex_digit (n div 16 mod 16), hex_digit (n mod 16)]" r]
  by (simp add: u_escape_def compact_escape hex_digit_safe)

lemma compact_esc_char:
  assumes "byte c < 0x80"
  shows "compact_out True (esc_char c @ r) = esc_char c @ compact_out True r"
proof -
  have "byte c < 65536" using assms by simp
  moreover have "c \<noteq> CHR 0xE2" using assms by (auto simp: byte_def)
  ultimately show ?thesis
    using compact_u_escape [of "byte c" r]
    by (auto simp: esc_char_def compact_escape compact_safe safe_char_def)
qed

lemma cont_safe: "is_cont (a, b) c \<Longrightarrow> 0x80 \<le> a \<Longrightarrow> b \<le> 0xBF \<Longrightarrow> safe_char c"
  by (auto simp: is_cont_def safe_char_def byte_def)

lemma ranges_cont: "utf8_ranges n = Some rs \<Longrightarrow> \<forall>(a, b) \<in> set rs. 0x80 \<le> a \<and> b \<le> 0xBF"
  by (auto simp: utf8_ranges_def split: if_splits)

lemma compact_chunk:
  assumes s: "s = c # cs" "\<not> byte c < 0x80" "utf8_len s \<noteq> 0" and "take 3 s \<noteq> utf8_encode 0x2028" "take 3 s \<noteq> utf8_encode 0x2029"
  shows "compact_out True (take (utf8_len s) s @ r) = take (utf8_len s) s @ compact_out True r"
proof -
  obtain rs where rs: "utf8_ranges (byte c) = Some rs" "list_all2 is_cont rs (take (length rs) cs)" "utf8_len s = Suc (length rs)"
    using s by (auto simp: utf8_len_def split: option.splits if_splits)
  have safe: "\<forall>d \<in> set (take (length rs) cs). safe_char d"
  proof
    fix d assume "d \<in> set (take (length rs) cs)"
    then obtain ab where "ab \<in> set rs" "is_cont ab d"
      using rs(2) by (metis in_set_conv_nth list_all2_conv_all_nth)
    then show "safe_char d" using ranges_cont [OF rs(1)] cont_safe by (cases ab) auto
  qed
  have "compact_out True (c # take (length rs) cs @ r) = c # compact_out True (take (length rs) cs @ r)"
  proof (cases "c = CHR 0xE2")
    case True
    then have "rs = [(0x80, 0xBF), (0x80, 0xBF)]" using rs(1) by (simp add: utf8_ranges_def byte_def)
    with rs(2) obtain d1 d2 ds where "cs = d1 # d2 # ds" "length rs = 2"
      by (cases cs rule: remdups_adj.cases) (auto simp: numeral_2_eq_2)
    then show ?thesis using assms(4,5) True s(1) by (simp add: compact_out.simps numeral_3_eq_3 numeral_2_eq_2)
  next
    case False
    then show ?thesis using s(2) by (intro compact_safe) (auto simp: safe_char_def byte_def)
  qed
  with compact_safes [OF safe, of r] show ?thesis using s(1) rs(3) by simp
qed

lemma compact_esc_str:
  "utf8_valid s \<Longrightarrow> compact_out True (esc_str s @ ch_quote # r) = esc_str s @ ch_quote # compact_out False r"
proof (induction "length s" arbitrary: s rule: less_induct)
  case less
  show ?case
  proof (cases s)
    case Nil
    then show ?thesis by (simp add: esc_str.simps compact_out.simps)
  next
    case (Cons c cs)
    let ?k = "utf8_len s"
    have k: "?k \<noteq> 0" and v: "utf8_valid (drop ?k s)"
      using less.prems Cons by (subst (asm) utf8_valid.simps, simp split: if_splits)+
    have IH: "compact_out True (esc_str (drop ?k s) @ ch_quote # r) = esc_str (drop ?k s) @ ch_quote # compact_out False r"
      using k Cons v by (intro less.hyps) auto
    show ?thesis
    proof (cases "byte c < 0x80")
      case True
      then have "?k = 1" by (simp add: Cons utf8_len_def utf8_ranges_def)
      with IH True show ?thesis
        using compact_esc_char [OF True, of "esc_str cs @ ch_quote # r"] by (simp add: Cons esc_str.simps [of "c # cs"])
    next
      case False
      then show ?thesis
        using esc_str_high [OF Cons False k] IH compact_chunk [OF Cons False k, where r = "esc_str (drop ?k s) @ ch_quote # r"]
          compact_u_escape [where n = 8232 and r = "esc_str (drop ?k s) @ ch_quote # r"]
          compact_u_escape [where n = 8233 and r = "esc_str (drop ?k s) @ ch_quote # r"]
        by (simp split: if_splits)
    qed
  qed
qed

text \<open>A text that compaction copies, whatever follows it.\<close>

definition tight :: "bytes \<Rightarrow> bool" where
  "tight t \<longleftrightarrow> (\<forall>r. compact_out False (t @ r) = t @ compact_out False r)"

lemma tight_append: "tight a \<Longrightarrow> tight b \<Longrightarrow> tight (a @ b)"
  by (simp add: tight_def)

lemma tight_Nil: "tight []"
  by (simp add: tight_def)

lemma tight_Cons: "\<not> is_ws c \<Longrightarrow> c \<noteq> ch_quote \<Longrightarrow> tight t \<Longrightarrow> tight (c # t)"
  by (simp add: tight_def compact_out.simps)

lemma tight_plain: "\<forall>c \<in> set t. \<not> is_ws c \<and> c \<noteq> ch_quote \<Longrightarrow> tight t"
  by (induction t) (simp_all add: tight_Nil tight_Cons)

lemma tight_quote: "utf8_valid s \<Longrightarrow> tight (quote s)"
  by (simp add: tight_def quote_def compact_out.simps compact_esc_str)

lemma tight_join: "\<forall>t \<in> set ts. tight t \<Longrightarrow> tight (join_comma ts)"
  by (induction ts rule: join_comma.induct) (auto intro!: tight_append tight_Cons simp: tight_Nil)

lemma scan_digits_set: "scan_digits s = Some (a, b) \<Longrightarrow> \<forall>c \<in> set a. num_char c"
  by (auto simp: scan_digits_def num_char_def dest: set_takeWhileD split: if_splits)

lemma scan_number_chars:
  assumes "scan_number s = Some (a, b)"
  shows "\<forall>c \<in> set a. num_char c"
proof -
  have int: "\<forall>c \<in> set a. num_char c" if "scan_int s = Some (a, b)" for s a b
    using that scan_digits_set by (fastforce simp: scan_int_def num_char_def is_digit_def byte_def split: list.splits if_splits)
  have frac: "\<forall>c \<in> set a. num_char c" if "scan_frac s = Some (a, b)" for s a b
    using that scan_digits_set by (fastforce simp: scan_frac_def num_char_def split: list.splits if_splits)
  have exp: "\<forall>c \<in> set a. num_char c" if "scan_exp s = Some (a, b)" for s a b
    using that scan_digits_set by (fastforce simp: scan_exp_def num_char_def split: list.splits if_splits)
  have uns: "\<forall>c \<in> set a. num_char c" if u: "scan_unsigned s = Some (a, b)" for s a b
  proof -
    obtain i s1 f s2 e where "scan_int s = Some (i, s1)" "scan_frac s1 = Some (f, s2)" "scan_exp s2 = Some (e, b)" "a = i @ f @ e"
      using u by (auto simp: scan_unsigned_def split: option.splits)
    then show ?thesis using int frac exp by auto
  qed
  show ?thesis using assms uns by (fastforce simp: scan_number_def num_char_def split: list.splits if_splits)
qed

lemma tight_number: "number_ok t \<Longrightarrow> tight t"
  using scan_number_chars [of t t "[]"]
  by (intro tight_plain) (auto simp: number_ok_def num_char_def is_ws_def is_digit_def byte_def)

lemma tight_marshal: "clean j \<Longrightarrow> tight (marshal_text j)"
proof (induction j)
  case (OArr vs)
  then have "tight (join_comma (map marshal_text vs))" by (intro tight_join) auto
  then show ?case by (auto intro!: tight_Cons tight_append tight_Nil)
next
  case (OObj kvs)
  have "tight (quote k @ CHR '':'' # marshal_text v)" if "(k, v) \<in> set kvs" for k v
    using OObj that by (intro tight_append tight_Cons tight_quote) (auto intro: OObj.IH)
  then have "tight (join_comma (map (\<lambda>(k, v). quote k @ CHR '':'' # marshal_text v) kvs))" by (intro tight_join) auto
  then show ?case by (auto intro!: tight_Cons tight_append tight_Nil)
next
  case ONull
  show ?case by (intro tight_plain) (auto simp: is_ws_def byte_def)
next
  case (OBool b)
  show ?case by (intro tight_plain) (auto simp: is_ws_def byte_def)
qed (simp_all add: tight_number tight_quote)

text \<open>So a raw message that was written by \<open>Marshal\<close> is written as it is.\<close>

lemma raw_text_marshal: "clean j \<Longrightarrow> raw_text (marshal_text j) = marshal_text j"
  using tight_marshal [of j] marshal_head [of j] by (auto simp: raw_text_def tight_def dest: spec [of _ "[]"])


section \<open>Values with raw messages\<close>

text \<open>\<open>raw_canon\<close>: the text of a written value. \<open>settle\<close> puts the values of raw messages in their place.\<close>

definition raw_val :: "bytes \<Rightarrow> jout" where
  "raw_val r = (case json_parse r of Some v \<Rightarrow> jout_of v | None \<Rightarrow> ONull)"

definition raw_canon :: "bytes \<Rightarrow> bool" where
  "raw_canon r \<longleftrightarrow> clean (raw_val r) \<and> marshal_text (raw_val r) = r"

fun settle :: "jout \<Rightarrow> jout" where
  "settle (ORaw r) = (if r = [] then ONull else raw_val r)"
| "settle (OArr vs) = OArr (map settle vs)"
| "settle (OObj kvs) = OObj (map (\<lambda>(k, v). (k, settle v)) kvs)"
| "settle v = v"

fun canon :: "jout \<Rightarrow> bool" where
  "canon (ONum n) = number_ok n"
| "canon (OStr s) = utf8_valid s"
| "canon (OArr vs) = (\<forall>v \<in> set vs. canon v)"
| "canon (OObj kvs) = (\<forall>(k, v) \<in> set kvs. utf8_valid k \<and> canon v)"
| "canon (ORaw r) = (r = [] \<or> raw_canon r)"
| "canon _ = True"

lemma raw_canon_marshal: "clean j \<Longrightarrow> raw_canon (marshal_text j)"
  by (simp add: raw_canon_def raw_val_def json_parse_exact jout_of_jval_of)

lemma raw_canon_valid: "raw_canon r \<Longrightarrow> json_parse r = Some (jval_of (raw_val r))"
  using json_parse_exact [of "raw_val r"] by (simp add: raw_canon_def)

lemma raw_canon_text: "raw_canon r \<Longrightarrow> r \<noteq> [] \<and> raw_text r = r"
  using raw_text_marshal [of "raw_val r"] marshal_head [of "raw_val r"] by (auto simp: raw_canon_def)

lemma canon_settle: "canon j \<Longrightarrow> clean (settle j) \<and> marshal_text (settle j) = marshal_text j"
proof (induction j)
  case (OObj kvs)
  then show ?case by (fastforce intro!: arg_cong [of _ _ join_comma])
next
  case (OArr vs)
  then show ?case by (fastforce intro!: arg_cong [of _ _ join_comma])
next
  case (ORaw r)
  then show ?case using raw_canon_text [of r] by (auto simp: raw_canon_def raw_text_def)
qed simp_all

lemma canon_raws_ok: "canon j \<Longrightarrow> raws_ok j"
  by (induction j) (auto simp: raw_canon_valid)

lemma marshal_canon: "canon j \<Longrightarrow> json_marshal j = Some (marshal_text j) \<and> json_parse (marshal_text j) = Some (jval_of (settle j))"
  using canon_settle [of j] json_parse_exact [of "settle j"] by (simp add: json_marshal_def canon_raws_ok)

text \<open>What a decoder makes of a written value; as \<open>decodes\<close>, but with raw messages.\<close>

definition rereads :: "jout \<Rightarrow> 'a decoder \<Rightarrow> 'a \<Rightarrow> 'a \<Rightarrow> bool" where
  "rereads j d zero x \<longleftrightarrow> d (jval_of (settle j)) zero = Some x"

lemma json_Unmarshal_rereads: "canon j \<Longrightarrow> rereads j d zero x \<Longrightarrow> json_Unmarshal (marshal_text j) d zero = Inr x"
  by (simp add: rereads_def json_Unmarshal_def marshal_canon)

section \<open>Fields\<close>

lemma json_fold_lower: "\<forall>c \<in> set s. byte c < 0x80 \<and> \<not> (0x41 \<le> byte c \<and> byte c \<le> 0x5A) \<Longrightarrow> json_fold s = s"
  by (induction s) (auto simp: json_fold_ascii fold_ascii_def)

lemma obj_values_simps:
  "obj_values name [] = []" "obj_values name (a @ b) = obj_values name a @ obj_values name b"
  "obj_values name ((k, v) # kvs) = (if json_fold k = json_fold name then [v] else []) @ obj_values name kvs"
  "obj_values name (if p then kvs else kvs') = (if p then obj_values name kvs else obj_values name kvs')"
  by (simp_all add: obj_values_def)

lemma dec_field_simps:
  "obj_values name kvs = [] \<Longrightarrow> dec_field name d kvs old = Some old"
  "obj_values name kvs = [v] \<Longrightarrow> dec_field name d kvs old = d v old"
  "obj_values name kvs = (if b then [] else [v]) \<Longrightarrow> dec_field name d kvs old = (if b then Some old else d v old)"
  by (simp_all add: dec_field_def)

lemma rereads_raw: "raw_canon r \<Longrightarrow> rereads (ORaw r) dec_raw old r"
  using raw_canon_text [of r] by (simp add: rereads_def dec_raw_def jraw_jval_of raw_canon_def)

lemma rereads_simps:
  "rereads (OStr s) dec_string old s"
  "in_int64 n \<Longrightarrow> rereads (ONum (int_text n)) dec_int old' n"
  "rereads (OBool b) dec_bool oldb b"
  by (simp_all add: rereads_def dec_string_def dec_int_def dec_bool_def parse_int_text)

lemma rereads_list:
  assumes "\<forall>x \<in> set xs. rereads (enc x) d zero x"
  shows "rereads (OArr (map enc xs)) (dec_list d zero) old xs"
proof -
  have "those (map (\<lambda>v. d v zero) (map jval_of (map settle (map enc xs)))) = Some xs"
    using assms by (induction xs) (auto simp: rereads_def)
  then show ?thesis by (simp add: rereads_def dec_list_def)
qed

end
