(* ===== verification/Wire.thy ===== *)
theory Wire
  imports Json_Raw "HOL-Library.Monad_Syntax"
begin

text \<open>
  The JSON form of the request and response types of \<open>internal/gateway.go\<close>: for each struct what its
  tags make \<open>Marshal\<close> write and \<open>Unmarshal\<close> read. A field with \<open>omitempty\<close> is left out when it is zero.
  An empty slice is written as an empty array. \<open>ftext\<close> is the decimal text that \<open>strconv\<close> chooses for
  a \<open>float64\<close>; \<open>float_ok\<close> says that it reads back as the number.
\<close>

section \<open>Encoders\<close>

type_synonym fields = "(string \<times> jout) list"

definition omit_str :: "string \<Rightarrow> string \<Rightarrow> fields" where
  "omit_str name s = (if s = [] then [] else [(name, OStr s)])"

definition omit_raw :: "string \<Rightarrow> bytes \<Rightarrow> fields" where
  "omit_raw name r = (if r = [] then [] else [(name, ORaw r)])"

definition omit_nil :: "string \<Rightarrow> ('a \<Rightarrow> jout) \<Rightarrow> 'a option \<Rightarrow> fields" where
  "omit_nil name enc x = (case x of None \<Rightarrow> [] | Some y \<Rightarrow> [(name, enc y)])"

definition enc_int :: "int \<Rightarrow> jout" where
  "enc_int n = ONum (int_text n)"

definition enc_float :: "(float64 \<Rightarrow> bytes) \<Rightarrow> float64 \<Rightarrow> jout" where
  "enc_float ftext f = ONum (ftext f)"

text \<open>\<open>Marshal\<close> where the source drops the error: no text then.\<close>

definition marshal_or_nil :: "jout \<Rightarrow> bytes" where
  "marshal_or_nil j = (case json_marshal j of Some s \<Rightarrow> s | None \<Rightarrow> [])"

definition enc_Message :: "Message \<Rightarrow> jout" where
  "enc_Message m =
     OObj ([(''role'', OStr (msg_Role m)), (''content'', ORaw (msg_Content m))] @ omit_str ''name'' (msg_Name m) @
       omit_raw ''tool_calls'' (msg_ToolCalls m) @ omit_str ''tool_call_id'' (msg_ToolCallID m))"

definition enc_StreamOptions :: "bool \<Rightarrow> jout" where
  "enc_StreamOptions include_usage = OObj (if include_usage then [(''include_usage'', OBool True)] else [])"

definition enc_ChatRequest :: "(float64 \<Rightarrow> bytes) \<Rightarrow> ChatRequest \<Rightarrow> jout" where
  "enc_ChatRequest ftext r =
     OObj ([(''model'', OStr (req_Model r)), (''messages'', OArr (map enc_Message (req_Messages r)))] @
       omit_nil ''temperature'' (enc_float ftext) (req_Temperature r) @
       omit_nil ''top_p'' (enc_float ftext) (req_TopP r) @
       (if req_N r = 0 then [] else [(''n'', enc_int (req_N r))]) @
       (if req_Stream r then [(''stream'', OBool True)] else []) @
       omit_nil ''stream_options'' enc_StreamOptions (req_StreamOptions r) @
       omit_raw ''stop'' (req_Stop r) @
       omit_nil ''max_tokens'' enc_int (req_MaxTokens r) @
       omit_nil ''presence_penalty'' (enc_float ftext) (req_PresencePenalty r) @
       omit_nil ''frequency_penalty'' (enc_float ftext) (req_FrequencyPenalty r) @
       omit_nil ''seed'' enc_int (req_Seed r) @
       omit_str ''user'' (req_User r) @
       omit_raw ''tools'' (req_Tools r) @
       omit_raw ''tool_choice'' (req_ToolChoice r) @
       omit_raw ''response_format'' (req_ResponseFormat r))"

definition enc_Usage :: "Usage \<Rightarrow> jout" where
  "enc_Usage u =
     OObj [(''prompt_tokens'', enc_int (PromptTokens u)), (''completion_tokens'', enc_int (CompletionTokens u)),
       (''total_tokens'', enc_int (TotalTokens u))]"

definition enc_Choice :: "Choice \<Rightarrow> jout" where
  "enc_Choice c =
     OObj [(''index'', enc_int (ch_Index c)), (''message'', enc_Message (ch_Message c)),
       (''finish_reason'', OStr (ch_FinishReason c))]"

definition enc_ChatResponse :: "ChatResponse \<Rightarrow> jout" where
  "enc_ChatResponse r =
     OObj ([(''id'', OStr (resp_ID r)), (''object'', OStr (resp_Object r)), (''created'', enc_int (resp_Created r)),
       (''model'', OStr (resp_Model r)), (''choices'', OArr (map enc_Choice (resp_Choices r)))] @
       omit_nil ''usage'' enc_Usage (resp_Usage r) @ omit_str ''system_fingerprint'' (resp_SystemFingerprint r))"

definition enc_EmbeddingRequest :: "EmbeddingRequest \<Rightarrow> jout" where
  "enc_EmbeddingRequest r =
     OObj ([(''model'', OStr (emb_Model r)), (''input'', ORaw (emb_Input r))] @
       omit_str ''encoding_format'' (emb_EncodingFormat r) @ omit_str ''user'' (emb_User r))"

definition enc_EmbeddingResponse :: "EmbeddingResponse \<Rightarrow> jout" where
  "enc_EmbeddingResponse r =
     OObj ([(''object'', OStr (embr_Object r)), (''data'', ORaw (embr_Data r)), (''model'', OStr (embr_Model r))] @
       omit_nil ''usage'' enc_Usage (embr_Usage r))"

section \<open>Decoders\<close>

definition dec_Message :: "Message decoder" where
  "dec_Message = dec_struct (\<lambda>kvs m. do {
     role \<leftarrow> dec_field ''role'' dec_string kvs (msg_Role m);
     content \<leftarrow> dec_field ''content'' dec_raw kvs (msg_Content m);
     name \<leftarrow> dec_field ''name'' dec_string kvs (msg_Name m);
     calls \<leftarrow> dec_field ''tool_calls'' dec_raw kvs (msg_ToolCalls m);
     callID \<leftarrow> dec_field ''tool_call_id'' dec_string kvs (msg_ToolCallID m);
     Some \<lparr>msg_Role = role, msg_Content = content, msg_Name = name, msg_ToolCalls = calls, msg_ToolCallID = callID\<rparr> })"

definition zero_Message :: Message where
  "zero_Message = \<lparr>msg_Role = [], msg_Content = [], msg_Name = [], msg_ToolCalls = [], msg_ToolCallID = []\<rparr>"

definition dec_StreamOptions :: "bool decoder" where
  "dec_StreamOptions = dec_struct (\<lambda>kvs b. dec_field ''include_usage'' dec_bool kvs b)"

definition dec_ChatRequest :: "ChatRequest decoder" where
  "dec_ChatRequest = dec_struct (\<lambda>kvs r. do {
     model \<leftarrow> dec_field ''model'' dec_string kvs (req_Model r);
     msgs \<leftarrow> dec_field ''messages'' (dec_list dec_Message zero_Message) kvs (req_Messages r);
     temp \<leftarrow> dec_field ''temperature'' (dec_ptr dec_float 0) kvs (req_Temperature r);
     top_p \<leftarrow> dec_field ''top_p'' (dec_ptr dec_float 0) kvs (req_TopP r);
     n \<leftarrow> dec_field ''n'' dec_int kvs (req_N r);
     stream \<leftarrow> dec_field ''stream'' dec_bool kvs (req_Stream r);
     opts \<leftarrow> dec_field ''stream_options'' (dec_ptr dec_StreamOptions False) kvs (req_StreamOptions r);
     stop \<leftarrow> dec_field ''stop'' dec_raw kvs (req_Stop r);
     max_tokens \<leftarrow> dec_field ''max_tokens'' (dec_ptr dec_int 0) kvs (req_MaxTokens r);
     presence \<leftarrow> dec_field ''presence_penalty'' (dec_ptr dec_float 0) kvs (req_PresencePenalty r);
     frequency \<leftarrow> dec_field ''frequency_penalty'' (dec_ptr dec_float 0) kvs (req_FrequencyPenalty r);
     seed \<leftarrow> dec_field ''seed'' (dec_ptr dec_int 0) kvs (req_Seed r);
     user \<leftarrow> dec_field ''user'' dec_string kvs (req_User r);
     tools \<leftarrow> dec_field ''tools'' dec_raw kvs (req_Tools r);
     choice \<leftarrow> dec_field ''tool_choice'' dec_raw kvs (req_ToolChoice r);
     format \<leftarrow> dec_field ''response_format'' dec_raw kvs (req_ResponseFormat r);
     Some \<lparr>req_Model = model, req_Messages = msgs, req_Temperature = temp, req_TopP = top_p, req_N = n, req_Stream = stream,
       req_StreamOptions = opts, req_Stop = stop, req_MaxTokens = max_tokens, req_PresencePenalty = presence,
       req_FrequencyPenalty = frequency, req_Seed = seed, req_User = user, req_Tools = tools, req_ToolChoice = choice,
       req_ResponseFormat = format\<rparr> })"

definition zero_ChatRequest :: ChatRequest where
  "zero_ChatRequest =
     \<lparr>req_Model = [], req_Messages = [], req_Temperature = None, req_TopP = None, req_N = 0, req_Stream = False,
      req_StreamOptions = None, req_Stop = [], req_MaxTokens = None, req_PresencePenalty = None,
      req_FrequencyPenalty = None, req_Seed = None, req_User = [], req_Tools = [], req_ToolChoice = [],
      req_ResponseFormat = []\<rparr>"

definition dec_Usage :: "Usage decoder" where
  "dec_Usage = dec_struct (\<lambda>kvs u. do {
     p \<leftarrow> dec_field ''prompt_tokens'' dec_int kvs (PromptTokens u);
     c \<leftarrow> dec_field ''completion_tokens'' dec_int kvs (CompletionTokens u);
     t \<leftarrow> dec_field ''total_tokens'' dec_int kvs (TotalTokens u);
     Some \<lparr>PromptTokens = p, CompletionTokens = c, TotalTokens = t\<rparr> })"

definition zero_Usage :: Usage where
  "zero_Usage = \<lparr>PromptTokens = 0, CompletionTokens = 0, TotalTokens = 0\<rparr>"

definition dec_Choice :: "Choice decoder" where
  "dec_Choice = dec_struct (\<lambda>kvs c. do {
     index \<leftarrow> dec_field ''index'' dec_int kvs (ch_Index c);
     msg \<leftarrow> dec_field ''message'' dec_Message kvs (ch_Message c);
     finish \<leftarrow> dec_field ''finish_reason'' dec_string kvs (ch_FinishReason c);
     Some \<lparr>ch_Index = index, ch_Message = msg, ch_FinishReason = finish\<rparr> })"

definition zero_Choice :: Choice where
  "zero_Choice = \<lparr>ch_Index = 0, ch_Message = zero_Message, ch_FinishReason = []\<rparr>"

definition dec_ChatResponse :: "ChatResponse decoder" where
  "dec_ChatResponse = dec_struct (\<lambda>kvs r. do {
     ID \<leftarrow> dec_field ''id'' dec_string kvs (resp_ID r);
     object \<leftarrow> dec_field ''object'' dec_string kvs (resp_Object r);
     created \<leftarrow> dec_field ''created'' dec_int kvs (resp_Created r);
     model \<leftarrow> dec_field ''model'' dec_string kvs (resp_Model r);
     choices \<leftarrow> dec_field ''choices'' (dec_list dec_Choice zero_Choice) kvs (resp_Choices r);
     usage \<leftarrow> dec_field ''usage'' (dec_ptr dec_Usage zero_Usage) kvs (resp_Usage r);
     fingerprint \<leftarrow> dec_field ''system_fingerprint'' dec_string kvs (resp_SystemFingerprint r);
     Some \<lparr>resp_ID = ID, resp_Object = object, resp_Created = created, resp_Model = model, resp_Choices = choices,
       resp_Usage = usage, resp_SystemFingerprint = fingerprint\<rparr> })"

definition zero_ChatResponse :: ChatResponse where
  "zero_ChatResponse =
     \<lparr>resp_ID = [], resp_Object = [], resp_Created = 0, resp_Model = [], resp_Choices = [], resp_Usage = None,
      resp_SystemFingerprint = []\<rparr>"

definition dec_EmbeddingRequest :: "EmbeddingRequest decoder" where
  "dec_EmbeddingRequest = dec_struct (\<lambda>kvs r. do {
     model \<leftarrow> dec_field ''model'' dec_string kvs (emb_Model r);
     input \<leftarrow> dec_field ''input'' dec_raw kvs (emb_Input r);
     format \<leftarrow> dec_field ''encoding_format'' dec_string kvs (emb_EncodingFormat r);
     user \<leftarrow> dec_field ''user'' dec_string kvs (emb_User r);
     Some \<lparr>emb_Model = model, emb_Input = input, emb_EncodingFormat = format, emb_User = user\<rparr> })"

definition zero_EmbeddingRequest :: EmbeddingRequest where
  "zero_EmbeddingRequest = \<lparr>emb_Model = [], emb_Input = [], emb_EncodingFormat = [], emb_User = []\<rparr>"

definition dec_EmbeddingResponse :: "EmbeddingResponse decoder" where
  "dec_EmbeddingResponse = dec_struct (\<lambda>kvs r. do {
     object \<leftarrow> dec_field ''object'' dec_string kvs (embr_Object r);
     data \<leftarrow> dec_field ''data'' dec_raw kvs (embr_Data r);
     model \<leftarrow> dec_field ''model'' dec_string kvs (embr_Model r);
     usage \<leftarrow> dec_field ''usage'' (dec_ptr dec_Usage zero_Usage) kvs (embr_Usage r);
     Some \<lparr>embr_Object = object, embr_Data = data, embr_Model = model, embr_Usage = usage\<rparr> })"

definition zero_EmbeddingResponse :: EmbeddingResponse where
  "zero_EmbeddingResponse = \<lparr>embr_Object = [], embr_Data = [], embr_Model = [], embr_Usage = None\<rparr>"

section \<open>Reading back\<close>

text \<open>The values that survive the wire: strings in UTF-8, integers of 64 bits, raw messages in the form that
  \<open>Marshal\<close> writes, numbers whose text reads back.\<close>

definition float_ok :: "(float64 \<Rightarrow> bytes) \<Rightarrow> float64 option \<Rightarrow> bool" where
  "float_ok ftext f \<longleftrightarrow> (case f of None \<Rightarrow> True | Some x \<Rightarrow> number_ok (ftext x) \<and> parse_float (ftext x) = Some x)"

definition int_ok :: "int option \<Rightarrow> bool" where
  "int_ok n \<longleftrightarrow> (case n of None \<Rightarrow> True | Some x \<Rightarrow> in_int64 x)"

definition raw_ok :: "bytes \<Rightarrow> bool" where
  "raw_ok r \<longleftrightarrow> r = [] \<or> raw_canon r"

definition Message_ok :: "Message \<Rightarrow> bool" where
  "Message_ok m \<longleftrightarrow> utf8_valid (msg_Role m) \<and> raw_canon (msg_Content m) \<and> utf8_valid (msg_Name m) \<and>
     raw_ok (msg_ToolCalls m) \<and> utf8_valid (msg_ToolCallID m)"

definition ChatRequest_ok :: "(float64 \<Rightarrow> bytes) \<Rightarrow> ChatRequest \<Rightarrow> bool" where
  "ChatRequest_ok ftext r \<longleftrightarrow> utf8_valid (req_Model r) \<and> list_all Message_ok (req_Messages r) \<and>
     float_ok ftext (req_Temperature r) \<and> float_ok ftext (req_TopP r) \<and> in_int64 (req_N r) \<and> raw_ok (req_Stop r) \<and>
     int_ok (req_MaxTokens r) \<and> float_ok ftext (req_PresencePenalty r) \<and> float_ok ftext (req_FrequencyPenalty r) \<and>
     int_ok (req_Seed r) \<and> utf8_valid (req_User r) \<and> raw_ok (req_Tools r) \<and> raw_ok (req_ToolChoice r) \<and>
     raw_ok (req_ResponseFormat r)"

definition Usage_ok :: "Usage \<Rightarrow> bool" where
  "Usage_ok u \<longleftrightarrow> in_int64 (PromptTokens u) \<and> in_int64 (CompletionTokens u) \<and> in_int64 (TotalTokens u)"

definition ChatResponse_ok :: "ChatResponse \<Rightarrow> bool" where
  "ChatResponse_ok r \<longleftrightarrow> utf8_valid (resp_ID r) \<and> utf8_valid (resp_Object r) \<and> in_int64 (resp_Created r) \<and>
     utf8_valid (resp_Model r) \<and>
     list_all (\<lambda>c. in_int64 (ch_Index c) \<and> Message_ok (ch_Message c) \<and> utf8_valid (ch_FinishReason c)) (resp_Choices r) \<and>
     (case resp_Usage r of None \<Rightarrow> True | Some u \<Rightarrow> Usage_ok u) \<and> utf8_valid (resp_SystemFingerprint r)"

lemma field_names [simp]:
  "json_fold ''role'' = ''role''" "json_fold ''content'' = ''content''" "json_fold ''name'' = ''name''"
  "json_fold ''tool_calls'' = ''tool_calls''" "json_fold ''tool_call_id'' = ''tool_call_id''"
  "json_fold ''include_usage'' = ''include_usage''" "json_fold ''model'' = ''model''" "json_fold ''messages'' = ''messages''"
  "json_fold ''temperature'' = ''temperature''" "json_fold ''top_p'' = ''top_p''" "json_fold ''n'' = ''n''"
  "json_fold ''stream'' = ''stream''" "json_fold ''stream_options'' = ''stream_options''" "json_fold ''stop'' = ''stop''"
  "json_fold ''max_tokens'' = ''max_tokens''" "json_fold ''presence_penalty'' = ''presence_penalty''"
  "json_fold ''frequency_penalty'' = ''frequency_penalty''" "json_fold ''seed'' = ''seed''" "json_fold ''user'' = ''user''"
  "json_fold ''tools'' = ''tools''" "json_fold ''tool_choice'' = ''tool_choice''"
  "json_fold ''response_format'' = ''response_format''" "json_fold ''prompt_tokens'' = ''prompt_tokens''"
  "json_fold ''completion_tokens'' = ''completion_tokens''" "json_fold ''total_tokens'' = ''total_tokens''"
  "json_fold ''index'' = ''index''" "json_fold ''message'' = ''message''" "json_fold ''finish_reason'' = ''finish_reason''"
  "json_fold ''id'' = ''id''" "json_fold ''object'' = ''object''" "json_fold ''created'' = ''created''"
  "json_fold ''choices'' = ''choices''" "json_fold ''usage'' = ''usage''"
  "json_fold ''system_fingerprint'' = ''system_fingerprint''" "json_fold ''input'' = ''input''"
  "json_fold ''encoding_format'' = ''encoding_format''" "json_fold ''data'' = ''data''"
  by (rule json_fold_lower, simp add: byte_def)+

lemma utf8_ascii: "\<forall>c \<in> set s. byte c < 0x80 \<Longrightarrow> utf8_valid s"
  by (induction s) (simp_all add: utf8_valid_ascii)

lemma field_names_utf8 [simp]:
  "utf8_valid ''role''" "utf8_valid ''content''" "utf8_valid ''name''" "utf8_valid ''tool_calls''"
  "utf8_valid ''tool_call_id''" "utf8_valid ''include_usage''" "utf8_valid ''model''" "utf8_valid ''messages''"
  "utf8_valid ''temperature''" "utf8_valid ''top_p''" "utf8_valid ''n''" "utf8_valid ''stream''"
  "utf8_valid ''stream_options''" "utf8_valid ''stop''" "utf8_valid ''max_tokens''" "utf8_valid ''presence_penalty''"
  "utf8_valid ''frequency_penalty''" "utf8_valid ''seed''" "utf8_valid ''user''" "utf8_valid ''tools''"
  "utf8_valid ''tool_choice''" "utf8_valid ''response_format''" "utf8_valid ''prompt_tokens''"
  "utf8_valid ''completion_tokens''" "utf8_valid ''total_tokens''" "utf8_valid ''index''" "utf8_valid ''message''"
  "utf8_valid ''finish_reason''" "utf8_valid ''id''" "utf8_valid ''object''" "utf8_valid ''created''"
  "utf8_valid ''choices''" "utf8_valid ''usage''" "utf8_valid ''system_fingerprint''" "utf8_valid ''input''"
  "utf8_valid ''encoding_format''" "utf8_valid ''data''"
  by (rule utf8_ascii, simp add: byte_def)+

text \<open>The members a reader finds.\<close>

definition jfields :: "fields \<Rightarrow> (string \<times> jval) list" where
  "jfields fs = map (\<lambda>(k, v). (k, jval_of (settle v))) fs"

lemma dec_struct_fields: "dec_struct f (jval_of (settle (OObj fs))) zero = f (jfields fs) zero"
  by (simp add: dec_struct_def jfields_def comp_def case_prod_unfold)

lemma field_values:
  "obj_values name (jfields []) = []"
  "obj_values name (jfields (a @ b)) = obj_values name (jfields a) @ obj_values name (jfields b)"
  "obj_values name (jfields ((k, v) # fs)) =
     (if json_fold k = json_fold name then [jval_of (settle v)] else []) @ obj_values name (jfields fs)"
  "obj_values name (jfields (if p then fs else fs')) = (if p then obj_values name (jfields fs) else obj_values name (jfields fs'))"
  "obj_values name (jfields (omit_str k s)) = (if json_fold k = json_fold name then if s = [] then [] else [jval_of (OStr s)] else [])"
  "obj_values name (jfields (omit_raw k r)) = (if json_fold k = json_fold name then if r = [] then [] else [jval_of (raw_val r)] else [])"
  "obj_values name (jfields (omit_nil k enc x)) =
     (if json_fold k = json_fold name then case x of None \<Rightarrow> [] | Some y \<Rightarrow> [jval_of (settle (enc y))] else [])"
  by (auto simp: jfields_def obj_values_def omit_str_def omit_raw_def omit_nil_def split: option.splits)

lemma dec_field_list:
  "dec_field name d kvs old = foldl (\<lambda>acc v. Option.bind acc (d v)) (Some old) (obj_values name kvs)"
  by (simp add: dec_field_def)

lemma foldl_one:
  "foldl f a (if p then [] else [x]) = (if p then a else f a x)" "foldl f a (if p then [x] else []) = (if p then f a x else a)"
  "foldl f a (case m of None \<Rightarrow> [] | Some y \<Rightarrow> [g y]) = (case m of None \<Rightarrow> a | Some y \<Rightarrow> f a (g y))"
  by (simp_all split: option.split)

lemma zero_or:
  "(if s = [] then Some [] else Some s) = Some s" "(if n = 0 then Some 0 else Some n) = Some (n :: int)"
  "(if b then Some True else Some False) = Some b" "(case x of None \<Rightarrow> Some None | Some y \<Rightarrow> Some (Some y)) = Some x"
  by (simp_all split: option.split)

lemma dec_values:
  "dec_string (jval_of (OStr s)) old = Some s" "in_int64 n \<Longrightarrow> dec_int (jval_of (enc_int n)) old' = Some n"
  "dec_bool (jval_of (OBool b)) oldb = Some b" "raw_canon r \<Longrightarrow> dec_raw (jval_of (raw_val r)) oldr = Some r"
  "settle (enc_int n) = enc_int n" "settle (enc_float ftext f) = enc_float ftext f"
  by (simp_all add: dec_string_def dec_int_def dec_bool_def dec_raw_def parse_int_text enc_int_def enc_float_def jraw_jval_of raw_canon_def)

lemma dec_raw_or: "raw_ok r \<Longrightarrow> (if r = [] then Some [] else dec_raw (jval_of (raw_val r)) []) = Some r"
  by (auto simp: raw_ok_def dec_values)

lemma dec_ptr_int: "int_ok x \<Longrightarrow> (case x of None \<Rightarrow> Some None | Some n \<Rightarrow> dec_ptr dec_int 0 (jval_of (enc_int n)) None) = Some x"
  by (auto simp: int_ok_def dec_ptr_def dec_int_def enc_int_def parse_int_text split: option.split)

lemma dec_ptr_float:
  "float_ok ftext x \<Longrightarrow> (case x of None \<Rightarrow> Some None | Some f \<Rightarrow> dec_ptr dec_float 0 (jval_of (enc_float ftext f)) None) = Some x"
  by (auto simp: float_ok_def dec_ptr_def dec_float_def enc_float_def split: option.split)

lemmas reread_simps = dec_field_list field_values foldl_one zero_or dec_values dec_raw_or dec_ptr_int dec_ptr_float

declare jval_of.simps [simp del]

lemma dec_content: "raw_canon r \<Longrightarrow> settle (ORaw r) = raw_val r"
  using raw_canon_text [of r] by simp

lemma reread_Message: "Message_ok m \<Longrightarrow> rereads (enc_Message m) dec_Message zero_Message m"
  unfolding rereads_def enc_Message_def dec_Message_def dec_struct_fields Message_ok_def zero_Message_def
  by (simp add: reread_simps dec_content del: settle.simps(1) split del: if_split cong: if_cong)

lemma reread_messages:
  "list_all Message_ok ms \<Longrightarrow> dec_list dec_Message zero_Message (jval_of (settle (OArr (map enc_Message ms)))) [] = Some ms"
  using rereads_list [of ms enc_Message dec_Message zero_Message "[]"] reread_Message
  unfolding rereads_def list_all_iff by blast

lemma reread_StreamOptions:
  "(case x of None \<Rightarrow> Some None | Some b \<Rightarrow> dec_ptr dec_StreamOptions False (jval_of (settle (enc_StreamOptions b))) None) = Some x"
proof -
  have "dec_StreamOptions (jval_of (settle (enc_StreamOptions b))) False = Some b" for b
    unfolding dec_StreamOptions_def enc_StreamOptions_def dec_struct_fields by (simp add: reread_simps)
  moreover have "jnode (jval_of (settle (enc_StreamOptions b))) \<noteq> JNull" for b
    by (simp add: enc_StreamOptions_def jval_of.simps)
  ultimately show ?thesis by (auto simp: dec_ptr_def split: option.split json.split)
qed

lemma reread_ChatRequest:
  assumes "ChatRequest_ok ftext r"
  shows "rereads (enc_ChatRequest ftext r) dec_ChatRequest zero_ChatRequest r"
  using assms unfolding rereads_def enc_ChatRequest_def dec_ChatRequest_def dec_struct_fields ChatRequest_ok_def zero_ChatRequest_def
  by (simp add: reread_simps reread_messages reread_StreamOptions del: settle.simps(2) split del: if_split cong: if_cong option.case_cong)


lemma reread_Usage: "Usage_ok u \<Longrightarrow> rereads (enc_Usage u) dec_Usage zero_Usage u"
  unfolding rereads_def enc_Usage_def dec_Usage_def dec_struct_fields Usage_ok_def zero_Usage_def by (simp add: reread_simps)

lemma reread_usage_ptr:
  assumes "case x of None \<Rightarrow> True | Some u \<Rightarrow> Usage_ok u"
  shows "(case x of None \<Rightarrow> Some None | Some u \<Rightarrow> dec_ptr dec_Usage zero_Usage (jval_of (settle (enc_Usage u))) None) = Some x"
proof -
  have "jnode (jval_of (settle (enc_Usage u))) \<noteq> JNull" for u
    by (simp add: enc_Usage_def jval_of.simps)
  then show ?thesis using assms reread_Usage by (auto simp: rereads_def dec_ptr_def split: option.splits json.split)
qed

lemma reread_Choice:
  assumes "in_int64 (ch_Index c)" "Message_ok (ch_Message c)"
  shows "rereads (enc_Choice c) dec_Choice zero_Choice c"
  using assms reread_Message unfolding rereads_def enc_Choice_def dec_Choice_def dec_struct_fields zero_Choice_def
  by (simp add: reread_simps)

lemma reread_ChatResponse:
  assumes "ChatResponse_ok r"
  shows "rereads (enc_ChatResponse r) dec_ChatResponse zero_ChatResponse r"
proof -
  have "dec_list dec_Choice zero_Choice (jval_of (settle (OArr (map enc_Choice (resp_Choices r))))) [] = Some (resp_Choices r)"
    using assms rereads_list [of "resp_Choices r" enc_Choice dec_Choice zero_Choice "[]"] reread_Choice
    unfolding rereads_def ChatResponse_ok_def list_all_iff by blast
  with assms show ?thesis
    unfolding rereads_def enc_ChatResponse_def dec_ChatResponse_def dec_struct_fields ChatResponse_ok_def zero_ChatResponse_def
    by (simp add: reread_simps reread_usage_ptr del: settle.simps(2) split del: if_split cong: if_cong option.case_cong)
qed

lemma canon_omit:
  "(\<forall>(k, v) \<in> set (omit_str name s). utf8_valid k \<and> canon v) \<longleftrightarrow> s = [] \<or> utf8_valid name \<and> utf8_valid s"
  "(\<forall>(k, v) \<in> set (omit_raw name r). utf8_valid k \<and> canon v) \<longleftrightarrow> r = [] \<or> utf8_valid name \<and> raw_ok r"
  "(\<forall>(k, v) \<in> set (omit_nil name enc x). utf8_valid k \<and> canon v) \<longleftrightarrow> (case x of None \<Rightarrow> True | Some y \<Rightarrow> utf8_valid name \<and> canon (enc y))"
  by (auto simp: omit_str_def omit_raw_def omit_nil_def raw_ok_def split: option.split)

lemma canon_enc_int: "canon (enc_int n)"
  by (simp add: enc_int_def int_text_ok)

lemma canon_Message: "Message_ok m \<Longrightarrow> canon (enc_Message m)"
  by (simp add: enc_Message_def Message_ok_def ball_Un canon_omit)

lemma canon_omit_nil:
  "float_ok ftext f \<Longrightarrow> utf8_valid name \<Longrightarrow> \<forall>(k, v) \<in> set (omit_nil name (enc_float ftext) f). utf8_valid k \<and> canon v"
  "utf8_valid name \<Longrightarrow> \<forall>(k, v) \<in> set (omit_nil name enc_int n). utf8_valid k \<and> canon v"
  "utf8_valid name \<Longrightarrow> \<forall>(k, v) \<in> set (omit_nil name enc_StreamOptions b). utf8_valid k \<and> canon v"
  by (auto simp: omit_nil_def float_ok_def enc_float_def canon_enc_int enc_StreamOptions_def split: option.splits)

lemma canon_ChatRequest: "ChatRequest_ok ftext r \<Longrightarrow> canon (enc_ChatRequest ftext r)"
  by (simp add: enc_ChatRequest_def ChatRequest_ok_def ball_Un canon_omit(1,2) canon_Message canon_enc_int list_all_iff)
    (intro conjI canon_omit_nil; simp)

lemma canon_Usage: "canon (enc_Usage u)"
  by (simp add: enc_Usage_def canon_enc_int)

lemma canon_ChatResponse: "ChatResponse_ok r \<Longrightarrow> canon (enc_ChatResponse r)"
  by (auto simp: enc_ChatResponse_def ChatResponse_ok_def ball_Un canon_omit canon_Message canon_enc_int list_all_iff
      enc_Choice_def canon_Usage split: option.split)

text \<open>\<open>Decode\<close> of a stream that holds one value reads as \<open>Unmarshal\<close> does.\<close>

lemma json_Decode_parse: "json_parse s = Some v \<Longrightarrow> json_Decode s d zero = json_Unmarshal s d zero"
  by (auto simp: json_parse_def json_Decode_def json_Unmarshal_def split: option.splits if_splits prod.splits)

end
