(* ===== verification/Http.thy ===== *)
theory Http
  imports Wire
begin

text \<open>
  \<open>net/http\<close> as the server and the provider adapters use it: header maps with canonical keys, the
  response writer of a handler, the requests a handler gets, and the requests and responses of a
  client. The network is an argument: \<open>do\<close> gives the response, or the error, for an outgoing
  request, and \<open>bad_url\<close> the error of \<open>http.NewRequest\<close> for an address that cannot be parsed.
  Bodies are the bytes read before the end or before the read error that ends them.
\<close>

section \<open>Headers\<close>

type_synonym header = "string \<rightharpoonup> string list"

definition is_tchar :: "char \<Rightarrow> bool" where
  "is_tchar c \<longleftrightarrow>
     (let n = byte c in
      0x30 \<le> n \<and> n \<le> 0x39 \<or> 0x41 \<le> n \<and> n \<le> 0x5A \<or> 0x61 \<le> n \<and> n \<le> 0x7A \<or>
      n \<in> {0x21, 0x23, 0x24, 0x25, 0x26, 0x27, 0x2A, 0x2B, 0x2D, 0x2E, 0x5E, 0x5F, 0x60, 0x7C, 0x7E})"

definition char_upper :: "char \<Rightarrow> char" where
  "char_upper c = (if 0x61 \<le> byte c \<and> byte c \<le> 0x7A then char_of (byte c - 0x20) else c)"

definition strings_ToLower :: "string \<Rightarrow> string" where
  "strings_ToLower s = map fold_ascii s"

fun canon_key :: "bool \<Rightarrow> string \<Rightarrow> string" where
  "canon_key upper [] = []"
| "canon_key upper (c # cs) = (if upper then char_upper c else fold_ascii c) # canon_key (c = CHR ''-'') cs"

text \<open>A key with a character that no header name has is left alone.\<close>

definition CanonicalMIMEHeaderKey :: "string \<Rightarrow> string" where
  "CanonicalMIMEHeaderKey k = (if list_all is_tchar k then canon_key True k else k)"

definition Header_Get :: "header \<Rightarrow> string \<Rightarrow> string" where
  "Header_Get h k = (case h (CanonicalMIMEHeaderKey k) of Some (v # _) \<Rightarrow> v | _ \<Rightarrow> [])"

definition Header_Set :: "string \<Rightarrow> string \<Rightarrow> header \<Rightarrow> header" where
  "Header_Set k v h = h(CanonicalMIMEHeaderKey k \<mapsto> [v])"

definition Header_Add :: "string \<Rightarrow> string \<Rightarrow> header \<Rightarrow> header" where
  "Header_Add k v h =
     (let k = CanonicalMIMEHeaderKey k in h(k \<mapsto> (case h k of Some vs \<Rightarrow> vs | None \<Rightarrow> []) @ [v]))"

section \<open>Responses of a handler\<close>

text \<open>The status and the headers are sent with the first \<open>WriteHeader\<close> or \<open>Write\<close>; later changes of the header map
  have no effect on them. \<open>rw_flushed\<close> counts the bytes of the body known to have left.\<close>

record ResponseWriter =
  rw_Header :: header
  rw_sent :: "(int \<times> header) option"
  rw_body :: bytes
  rw_flushed :: nat

definition new_writer :: ResponseWriter where
  "new_writer = \<lparr>rw_Header = Map.empty, rw_sent = None, rw_body = [], rw_flushed = 0\<rparr>"

definition set_header :: "string \<Rightarrow> string list \<Rightarrow> ResponseWriter \<Rightarrow> ResponseWriter" where
  "set_header k vs w = w\<lparr>rw_Header := (rw_Header w)(k \<mapsto> vs)\<rparr>"

definition WriteHeader :: "int \<Rightarrow> ResponseWriter \<Rightarrow> ResponseWriter" where
  "WriteHeader code w =
     (if 100 \<le> code \<and> code \<le> 199 \<and> code \<noteq> 101 then w
      else case rw_sent w of None \<Rightarrow> w\<lparr>rw_sent := Some (code, rw_Header w)\<rparr> | Some _ \<Rightarrow> w)"

definition body_allowed :: "int \<Rightarrow> bool" where
  "body_allowed code \<longleftrightarrow> \<not> (100 \<le> code \<and> code \<le> 199) \<and> code \<noteq> 204 \<and> code \<noteq> 304"

definition Write :: "bytes \<Rightarrow> ResponseWriter \<Rightarrow> ResponseWriter" where
  "Write data w =
     (let w = WriteHeader 200 w
      in case rw_sent w of
           Some (code, _) \<Rightarrow> if body_allowed code then w\<lparr>rw_body := rw_body w @ data\<rparr> else w
         | None \<Rightarrow> w)"

definition Flush :: "ResponseWriter \<Rightarrow> ResponseWriter" where
  "Flush w = (let w = WriteHeader 200 w in w\<lparr>rw_flushed := length (rw_body w)\<rparr>)"

text \<open>The status a client sees: 200 if the handler never wrote one.\<close>

definition rw_status :: "ResponseWriter \<Rightarrow> int" where
  "rw_status w = (case rw_sent w of Some (code, _) \<Rightarrow> code | None \<Rightarrow> 200)"

definition http_Error :: "string \<Rightarrow> int \<Rightarrow> ResponseWriter \<Rightarrow> ResponseWriter" where
  "http_Error msg code w =
     (let w = w\<lparr>rw_Header := (rw_Header w)(''Content-Length'' := None, ''Content-Type'' \<mapsto> [''text/plain; charset=utf-8''],
             ''X-Content-Type-Options'' \<mapsto> [''nosniff''])\<rparr>
      in Write (msg @ [CHR 0x0A]) (WriteHeader code w))"

definition http_StatusText :: "int \<Rightarrow> string" where
  "http_StatusText code =
     (if code = 200 then ''OK'' else if code = 201 then ''Created'' else if code = 204 then ''No Content''
      else if code = 400 then ''Bad Request'' else if code = 401 then ''Unauthorized''
      else if code = 403 then ''Forbidden'' else if code = 404 then ''Not Found''
      else if code = 409 then ''Conflict'' else if code = 429 then ''Too Many Requests''
      else if code = 500 then ''Internal Server Error'' else if code = 501 then ''Not Implemented''
      else if code = 502 then ''Bad Gateway'' else if code = 503 then ''Service Unavailable'' else '''')"

section \<open>Requests to the server\<close>

record Request =
  rq_Method :: string
  rq_Path :: string
  rq_RawQuery :: string
  rq_Header :: header
  rq_Body :: bytes
  rq_BodyErr :: "goerror option"
  rq_ctx :: context_meta

text \<open>Reading a whole body through \<open>MaxBytesReader\<close>.\<close>

definition read_limited :: "nat \<Rightarrow> Request \<Rightarrow> goerror + bytes" where
  "read_limited limit r =
     (if length (rq_Body r) > limit then Inl (ErrorString ''http: request body too large'')
      else case rq_BodyErr r of Some err \<Rightarrow> Inl err | None \<Rightarrow> Inr (rq_Body r))"

section \<open>Clients\<close>

record out_request =
  or_Method :: string
  or_URL :: string
  or_Header :: header
  or_Body :: bytes

record Response =
  rs_StatusCode :: int
  rs_Header :: header
  rs_Body :: bytes
  rs_BodyErr :: "goerror option"

record http_env =
  bad_url :: "string \<Rightarrow> goerror option"
  http_do :: "out_request \<Rightarrow> goerror + Response"

text \<open>\<open>io.ReadAll(io.LimitReader(body, limit))\<close>.\<close>

definition read_all :: "nat \<Rightarrow> Response \<Rightarrow> goerror + bytes" where
  "read_all limit resp =
     (if length (rs_Body resp) \<ge> limit then Inr (take limit (rs_Body resp))
      else case rs_BodyErr resp of Some err \<Rightarrow> Inl err | None \<Rightarrow> Inr (rs_Body resp))"

text \<open>\<open>json.NewDecoder(body).Decode\<close>. When no value is complete before a read error, that error is reported.\<close>

definition decode_body :: "'a decoder \<Rightarrow> 'a \<Rightarrow> Response \<Rightarrow> goerror + 'a" where
  "decode_body d zero resp =
     (case json_Decode (rs_Body resp) d zero of
        Inr x \<Rightarrow> Inr x
      | Inl err \<Rightarrow> Inl (case rs_BodyErr resp of Some e \<Rightarrow> e | None \<Rightarrow> err))"

definition ParseAPIError :: "string \<Rightarrow> Response \<Rightarrow> goerror" where
  "ParseAPIError provider resp = APIError provider (rs_StatusCode resp) (take 4096 (rs_Body resp))"

text \<open>The exchange that the methods of the adapters share: create the request, send it, and turn any status but
  200 into an error. The body of the response is read by the method.\<close>

definition exchange :: "string \<Rightarrow> http_env \<Rightarrow> string \<Rightarrow> string \<Rightarrow> header \<Rightarrow> bytes \<Rightarrow> goerror + Response" where
  "exchange provider env meth url h body =
     (case bad_url env url of
        Some err \<Rightarrow> Inl (Wrapf (provider @ '': create request'') [err])
      | None \<Rightarrow>
          (case http_do env \<lparr>or_Method = meth, or_URL = url, or_Header = h, or_Body = body\<rparr> of
             Inl err \<Rightarrow> Inl (Wrapf (provider @ '': do request'') [err])
           | Inr resp \<Rightarrow> if rs_StatusCode resp \<noteq> 200 then Inl (ParseAPIError provider resp) else Inr resp))"

definition marshal_request :: "string \<Rightarrow> jout \<Rightarrow> goerror + bytes" where
  "marshal_request provider j =
     (case json_marshal j of
        None \<Rightarrow> Inl (Wrapf (provider @ '': marshal request'') [ErrorString ''json: error calling MarshalJSON''])
      | Some body \<Rightarrow> Inr body)"

definition bind_result :: "'e + 'a \<Rightarrow> ('a \<Rightarrow> 'e + 'b) \<Rightarrow> 'e + 'b" where
  "bind_result r f = (case r of Inl e \<Rightarrow> Inl e | Inr x \<Rightarrow> f x)"

definition wrap_result :: "string \<Rightarrow> goerror + 'a \<Rightarrow> goerror + 'a" where
  "wrap_result what r = (case r of Inl e \<Rightarrow> Inl (Wrapf what [e]) | Inr x \<Rightarrow> Inr x)"

lemma bind_result_simps [simp]: "bind_result (Inl e) f = Inl e" "bind_result (Inr x) f = f x"
  by (simp_all add: bind_result_def)

lemma wrap_result_simps [simp]: "wrap_result m (Inl e) = Inl (Wrapf m [e])" "wrap_result m (Inr x) = Inr x"
  by (simp_all add: wrap_result_def)

section \<open>Error texts\<close>

definition maxErrorBodyLen :: nat where
  "maxErrorBodyLen = 256"

definition APIError_Error :: "string \<Rightarrow> int \<Rightarrow> string \<Rightarrow> string" where
  "APIError_Error provider status body =
     (let body = (if length body > maxErrorBodyLen then take maxErrorBodyLen body @ ''...(truncated)'' else body)
      in provider @ '': HTTP '' @ int_text status @ '': '' @ body)"

definition APIError_FullError :: "string \<Rightarrow> int \<Rightarrow> string \<Rightarrow> string" where
  "APIError_FullError provider status body = provider @ '': HTTP '' @ int_text status @ '': '' @ body"

fun join_colon :: "string list \<Rightarrow> string" where
  "join_colon [] = []"
| "join_colon [s] = s"
| "join_colon (s # t # ts) = s @ '': '' @ join_colon (t # ts)"

text \<open>\<open>Error\<close> of an error: a wrapping error puts its text before those of its causes.\<close>

fun error_text :: "goerror \<Rightarrow> string" where
  "error_text (Sentinel s) = sentinel_text s"
| "error_text DeadlineExceeded = ''context deadline exceeded''"
| "error_text OsDeadlineExceeded = ''i/o timeout''"
| "error_text Canceled = ''context canceled''"
| "error_text (APIError p c b) = APIError_Error p c b"
| "error_text (NetOpError m e) = m @ '': '' @ error_text e"
| "error_text (ErrorString s) = s"
| "error_text (Wrapf m es) = join_colon ((if m = [] then [] else [m]) @ map error_text es)"

section \<open>Lemmas\<close>

lemma WriteHeader_sent: "rw_sent w = Some x \<Longrightarrow> WriteHeader code w = w"
  by (simp add: WriteHeader_def)

lemma WriteHeader_first:
  "rw_sent w = None \<Longrightarrow> 200 \<le> code \<Longrightarrow> WriteHeader code w = w\<lparr>rw_sent := Some (code, rw_Header w)\<rparr>"
  by (simp add: WriteHeader_def)

lemma Write_sent: "rw_sent w = Some (code, h) \<Longrightarrow> body_allowed code \<Longrightarrow> Write data w = w\<lparr>rw_body := rw_body w @ data\<rparr>"
  by (simp add: Write_def WriteHeader_sent)

lemma Flush_sent: "rw_sent w = Some x \<Longrightarrow> Flush w = w\<lparr>rw_flushed := length (rw_body w)\<rparr>"
  by (simp add: Flush_def WriteHeader_sent)

lemma canonical_names [simp]:
  "CanonicalMIMEHeaderKey ''Authorization'' = ''Authorization''" "CanonicalMIMEHeaderKey ''Content-Type'' = ''Content-Type''"
  "CanonicalMIMEHeaderKey ''content-type'' = ''Content-Type''" "CanonicalMIMEHeaderKey ''anthropic-version'' = ''Anthropic-Version''"
  "CanonicalMIMEHeaderKey ''X-Api-Key'' = ''X-Api-Key''" "CanonicalMIMEHeaderKey ''X-Goog-Api-Key'' = ''X-Goog-Api-Key''"
  "CanonicalMIMEHeaderKey ''Api-Key'' = ''Api-Key''"
  by (simp_all add: CanonicalMIMEHeaderKey_def is_tchar_def char_upper_def fold_ascii_def byte_def char_of_def bit_0)

end
