(* ===== verification/Sse.thy ===== *)
theory Sse
  imports Http
begin

text \<open>
  Server-sent events: the frames that \<open>internal/server/sse.go\<close> writes, the line reader and the chunk
  builders of \<open>internal/provider/sseutil\<close>, and \<open>ReadSSEStream\<close>, which relays an OpenAI-format stream.

  The library \<open>gjson\<close>, which looks up paths in JSON texts, is an argument. \<open>gjson_ok\<close> states what it
  documents for texts that are valid JSON; the fields of a result are those the sources read.

  A reader goroutine is the list of chunks it sends on its channel before closing it. At each send
  the \<open>select\<close> may take the case of the cancelled context instead; \<open>cancel i\<close> is its error if it does at the
  \<open>i\<close>-th send.
\<close>

section \<open>Writing frames\<close>

abbreviation nl :: char where "nl \<equiv> CHR 0x0A"
abbreviation cr :: char where "cr \<equiv> CHR 0x0D"

definition sseDataPrefix :: bytes where "sseDataPrefix = ''data: ''"
definition sseNewline :: bytes where "sseNewline = [nl, nl]"
definition sseDone :: bytes where "sseDone = ''data: [DONE]'' @ [nl, nl]"
definition sseKeepAlive :: bytes where "sseKeepAlive = '': keep-alive'' @ [nl, nl]"

definition writeSSEHeaders :: "ResponseWriter \<Rightarrow> ResponseWriter" where
  "writeSSEHeaders w =
     WriteHeader 200
       (set_header ''X-Accel-Buffering'' [''no'']
         (set_header ''Connection'' [''keep-alive'']
           (set_header ''Cache-Control'' [''no-cache'']
             (set_header ''Content-Type'' [''text/event-stream''] w))))"

definition writeSSEData :: "bytes \<Rightarrow> ResponseWriter \<Rightarrow> ResponseWriter" where
  "writeSSEData data w = Write sseNewline (Write data (Write sseDataPrefix w))"

definition writeSSEDone :: "ResponseWriter \<Rightarrow> ResponseWriter" where
  "writeSSEDone w = Write sseDone w"

definition writeSSEError :: "string \<Rightarrow> ResponseWriter \<Rightarrow> ResponseWriter" where
  "writeSSEError msg w =
     Write sseNewline
       (Write (ch_quote # '','' @ quote ''type'' @ '':'' @ quote ''stream_error'' @ ''}}'')
         (Write msg
           (Write (''{'' @ quote ''error'' @ '':{'' @ quote ''message'' @ '':'' @ [ch_quote])
             (Write (''event: error'' @ nl # ''data: '') w))))"

definition writeSSEKeepAlive :: "ResponseWriter \<Rightarrow> ResponseWriter" where
  "writeSSEKeepAlive w = Write sseKeepAlive w"

section \<open>Reading lines\<close>

definition maxLineSize :: nat where
  "maxLineSize = 64 * 1024"

definition drop_cr :: "bytes \<Rightarrow> bytes" where
  "drop_cr s = (if s \<noteq> [] \<and> last s = cr then butlast s else s)"

text \<open>
  \<open>bufio.Scanner\<close> with \<open>ScanLines\<close> and a buffer of at most \<open>maxLineSize\<close> bytes: the lines, and whether it
  stopped because a line does not fit. A line and its newline must fit into the buffer; the rest of the
  text after the last newline is a line if there is any and it leaves room in the buffer.
\<close>

function scan_lines :: "bytes \<Rightarrow> string list \<times> bool" where
  "scan_lines s =
     (case strings_Cut s nl of
        (line, rest, found) \<Rightarrow>
          if length line \<ge> maxLineSize then ([], True)
          else if found then (case scan_lines rest of (ls, long) \<Rightarrow> (drop_cr line # ls, long))
          else if s = [] then ([], False)
          else ([drop_cr s], False))"
  by pat_completeness auto
termination
  by (relation "measure length") (auto dest!: sym [of "(_, _, _)"] strings_Cut_found)

declare scan_lines.simps [simp del]

text \<open>What a scanner gives for a response body: the lines, and \<open>Err\<close> after the last.\<close>

definition ErrTooLong :: goerror where
  "ErrTooLong = ErrorString ''bufio.Scanner: token too long''"

definition NewScanner :: "bytes \<Rightarrow> goerror option \<Rightarrow> string list \<times> goerror option" where
  "NewScanner body err = (case scan_lines body of (ls, long) \<Rightarrow> (ls, if long then Some ErrTooLong else err))"

definition ParseSSELine :: "string \<Rightarrow> string \<times> string \<times> bool" where
  "ParseSSELine line =
     (if line = [] then ([], [], False)
      else if hd line = CHR '':'' then ([], [], False)
      else case strings_Cut line (CHR '':'') of
        (key, value, found) \<Rightarrow>
          if \<not> found then ([], [], False)
          else let value = strings_TrimPrefix value '' ''
               in if key = ''event'' then (value, [], True)
                  else if key = ''data'' then ([], value, True)
                  else ([], [], False))"

section \<open>Chunks\<close>

definition data_chunk :: "bytes \<Rightarrow> StreamChunk" where
  "data_chunk data = \<lparr>chunk_Data = data, chunk_Usage = None, chunk_Done = False, chunk_Err = None\<rparr>"

definition done_chunk :: StreamChunk where
  "done_chunk = \<lparr>chunk_Data = [], chunk_Usage = None, chunk_Done = True, chunk_Err = None\<rparr>"

definition err_chunk :: "goerror \<Rightarrow> StreamChunk" where
  "err_chunk err = \<lparr>chunk_Data = [], chunk_Usage = None, chunk_Done = False, chunk_Err = Some err\<rparr>"

definition NilOrString :: "string \<Rightarrow> jout" where
  "NilOrString s = (if s = [] then ONull else OStr s)"

text \<open>\<open>Marshal\<close> writes the keys of a Go map in sorted order.\<close>

definition chunk_json :: "string \<Rightarrow> string \<Rightarrow> jout list \<Rightarrow> fields \<Rightarrow> jout" where
  "chunk_json cid model choices extra =
     OObj ([(''choices'', OArr choices), (''id'', OStr cid), (''model'', OStr model),
       (''object'', OStr ''chat.completion.chunk'')] @ extra)"

definition BuildDeltaChunk :: "string \<Rightarrow> string \<Rightarrow> fields \<Rightarrow> string \<Rightarrow> bytes" where
  "BuildDeltaChunk cid model delta finishReason =
     marshal_text (chunk_json cid model
       [OObj [(''delta'', OObj delta), (''finish_reason'', NilOrString finishReason), (''index'', enc_int 0)]] [])"

definition BuildToolCallDeltaChunk :: "string \<Rightarrow> string \<Rightarrow> int \<Rightarrow> string \<Rightarrow> bytes" where
  "BuildToolCallDeltaChunk cid model index argumentsDelta =
     marshal_text (chunk_json cid model
       [OObj [(''delta'', OObj [(''tool_calls'', OArr [OObj [(''function'', OObj [(''arguments'', OStr argumentsDelta)]),
                (''index'', enc_int index)]])]),
              (''finish_reason'', ONull), (''index'', enc_int 0)]] [])"

definition BuildFinishChunk :: "string \<Rightarrow> string \<Rightarrow> string \<Rightarrow> bytes" where
  "BuildFinishChunk cid model finishReason =
     marshal_text (chunk_json cid model
       [OObj [(''delta'', OObj []), (''finish_reason'', OStr finishReason), (''index'', enc_int 0)]] [])"

definition BuildUsageChunk :: "string \<Rightarrow> string \<Rightarrow> Usage \<Rightarrow> bytes" where
  "BuildUsageChunk cid model usage =
     marshal_text (chunk_json cid model [] [(''usage'', OObj [(''completion_tokens'', enc_int (CompletionTokens usage)),
       (''prompt_tokens'', enc_int (PromptTokens usage)), (''total_tokens'', enc_int (TotalTokens usage))])])"

section \<open>Paths in JSON texts\<close>

record gresult =
  g_Exists :: bool
  g_IsJSON :: bool
  g_Raw :: bytes
  g_String :: string
  g_Int :: int

record gjson =
  gj_Get :: "bytes \<Rightarrow> string \<Rightarrow> gresult"
  gj_ForEach :: "bytes \<Rightarrow> string \<Rightarrow> bytes list"

fun split_dot :: "string \<Rightarrow> string list" where
  "split_dot [] = [[]]"
| "split_dot (c # cs) =
     (if c = CHR ''.'' then [] # split_dot cs
      else case split_dot cs of p # ps \<Rightarrow> (c # p) # ps | [] \<Rightarrow> [[c]])"

text \<open>The value at a path of keys and array indices.\<close>

fun jpath :: "string list \<Rightarrow> jval \<Rightarrow> jval option" where
  "jpath [] v = Some v"
| "jpath (p # ps) v =
     (case jnode v of
        JObj kvs \<Rightarrow> (case map_of kvs p of Some w \<Rightarrow> jpath ps w | None \<Rightarrow> None)
      | JArr vs \<Rightarrow>
          (case parse_int p of
             Some n \<Rightarrow> if 0 \<le> n \<and> nat n < length vs then jpath ps (vs ! nat n) else None
           | None \<Rightarrow> None)
      | _ \<Rightarrow> None)"

fun keys_distinct :: "jout \<Rightarrow> bool" where
  "keys_distinct (OObj kvs) \<longleftrightarrow> distinct (map fst kvs) \<and> (\<forall>(k, v) \<in> set kvs. keys_distinct v)"
| "keys_distinct (OArr vs) \<longleftrightarrow> (\<forall>v \<in> set vs. keys_distinct v)"
| "keys_distinct _ \<longleftrightarrow> True"

text \<open>What a result says of the value it stands for; the integer of anything but an integer is left open.\<close>

definition describes :: "gresult \<Rightarrow> jval option \<Rightarrow> bool" where
  "describes r v \<longleftrightarrow>
     (case v of
        None \<Rightarrow> \<not> g_Exists r \<and> \<not> g_IsJSON r \<and> g_Raw r = [] \<and> g_String r = [] \<and> g_Int r = 0
      | Some w \<Rightarrow> g_Exists r \<and> g_Raw r = jraw w \<and>
          (case jnode w of
             JStr s \<Rightarrow> \<not> g_IsJSON r \<and> g_String r = s
           | JNum t \<Rightarrow> \<not> g_IsJSON r \<and> (case parse_int t of Some n \<Rightarrow> g_Int r = n \<and> g_String r = t | None \<Rightarrow> True)
           | JNull \<Rightarrow> \<not> g_IsJSON r \<and> g_String r = [] \<and> g_Int r = 0
           | JBool b \<Rightarrow> \<not> g_IsJSON r \<and> g_String r = jraw w
           | _ \<Rightarrow> g_IsJSON r \<and> g_String r = jraw w \<and> g_Int r = 0))"

definition gjson_ok :: "gjson \<Rightarrow> bool" where
  "gjson_ok gj \<longleftrightarrow>
     (\<forall>data v path. json_parse data = Some v \<longrightarrow> keys_distinct (jout_of v) \<longrightarrow>
        describes (gj_Get gj data path) (jpath (split_dot path) v) \<and>
        gj_ForEach gj data path =
          (case jpath (split_dot path) v of
             None \<Rightarrow> []
           | Some w \<Rightarrow> (case jnode w of JArr vs \<Rightarrow> map jraw vs | JObj kvs \<Rightarrow> map (jraw \<circ> snd) kvs | _ \<Rightarrow> [jraw w])))"

text \<open>An implementation, for the examples: parse, then look up.\<close>

definition ref_result :: "jval option \<Rightarrow> gresult" where
  "ref_result v =
     (case v of
        None \<Rightarrow> \<lparr>g_Exists = False, g_IsJSON = False, g_Raw = [], g_String = [], g_Int = 0\<rparr>
      | Some w \<Rightarrow>
          \<lparr>g_Exists = True, g_IsJSON = (case jnode w of JObj _ \<Rightarrow> True | JArr _ \<Rightarrow> True | _ \<Rightarrow> False), g_Raw = jraw w,
           g_String = (case jnode w of JStr s \<Rightarrow> s | JNum t \<Rightarrow> t | JNull \<Rightarrow> [] | _ \<Rightarrow> jraw w),
           g_Int = (case jnode w of JNum t \<Rightarrow> (case parse_int t of Some n \<Rightarrow> n | None \<Rightarrow> 0) | _ \<Rightarrow> 0)\<rparr>)"

definition ref_gjson :: gjson where
  "ref_gjson =
     \<lparr>gj_Get = (\<lambda>data path. ref_result (case json_parse data of Some v \<Rightarrow> jpath (split_dot path) v | None \<Rightarrow> None)),
      gj_ForEach = (\<lambda>data path.
        case json_parse data of
          None \<Rightarrow> []
        | Some v \<Rightarrow>
            (case jpath (split_dot path) v of
               None \<Rightarrow> []
             | Some w \<Rightarrow> (case jnode w of JArr vs \<Rightarrow> map jraw vs | JObj kvs \<Rightarrow> map (jraw \<circ> snd) kvs | _ \<Rightarrow> [jraw w])))\<rparr>"

lemma ref_gjson_ok: "gjson_ok ref_gjson"
  by (auto simp: gjson_ok_def ref_gjson_def ref_result_def describes_def split: option.splits json.splits)

section \<open>Relaying an OpenAI stream\<close>

definition with_usage :: "gjson \<Rightarrow> bytes \<Rightarrow> StreamChunk" where
  "with_usage gj data =
     (let u = gj_Get gj data ''usage''
      in if g_Exists u \<and> g_IsJSON u
         then (case json_Unmarshal (g_Raw u) dec_Usage zero_Usage of
                 Inr usage \<Rightarrow> if TotalTokens usage > 0 then (data_chunk data)\<lparr>chunk_Usage := Some usage\<rparr> else data_chunk data
               | Inl _ \<Rightarrow> data_chunk data)
         else data_chunk data)"

fun sse_loop :: "gjson \<Rightarrow> (nat \<Rightarrow> goerror option) \<Rightarrow> string \<Rightarrow> goerror option \<Rightarrow> nat \<Rightarrow> string list \<Rightarrow> StreamChunk list" where
  "sse_loop gj cancel provider err i [] =
     (case err of None \<Rightarrow> [] | Some e \<Rightarrow> [err_chunk (Wrapf (provider @ '': read stream'') [e])])"
| "sse_loop gj cancel provider err i (line # lines) =
     (case ParseSSELine line of
        (_, data, ok) \<Rightarrow>
          if \<not> ok then sse_loop gj cancel provider err i lines
          else if data = ''[DONE]'' then [done_chunk]
          else (case cancel i of
                  Some e \<Rightarrow> [err_chunk e]
                | None \<Rightarrow> with_usage gj data # sse_loop gj cancel provider err (i + 1) lines))"

definition ReadSSEStream :: "gjson \<Rightarrow> (nat \<Rightarrow> goerror option) \<Rightarrow> string \<Rightarrow> Response \<Rightarrow> StreamChunk list" where
  "ReadSSEStream gj cancel provider resp =
     (case NewScanner (rs_Body resp) (rs_BodyErr resp) of (lines, err) \<Rightarrow> sse_loop gj cancel provider err 0 lines)"

section \<open>Frames and lines\<close>

text \<open>What the server sends between the frames of the chunks.\<close>

datatype frame = Data bytes | KeepAlive

fun frame_text :: "frame \<Rightarrow> bytes" where
  "frame_text (Data d) = sseDataPrefix @ d @ sseNewline"
| "frame_text KeepAlive = sseKeepAlive"

definition payload_ok :: "bytes \<Rightarrow> bool" where
  "payload_ok d \<longleftrightarrow> nl \<notin> set d \<and> (d = [] \<or> last d \<noteq> cr) \<and> length d + 6 < maxLineSize"

lemma scan_lines_line:
  "nl \<notin> set line \<Longrightarrow> length line < maxLineSize \<Longrightarrow>
     scan_lines (line @ nl # rest) = (case scan_lines rest of (ls, long) \<Rightarrow> (drop_cr line # ls, long))"
  by (subst scan_lines.simps) (simp add: strings_Cut_append)

lemma scan_lines_Nil: "scan_lines [] = ([], False)"
  by (subst scan_lines.simps) (simp add: maxLineSize_def)

lemma scan_frame:
  assumes "\<forall>d. f = Data d \<longrightarrow> payload_ok d"
  shows "scan_lines (frame_text f @ rest) =
    (case scan_lines rest of (ls, long) \<Rightarrow> ((case f of Data d \<Rightarrow> ''data: '' @ d | KeepAlive \<Rightarrow> '': keep-alive'') # [] # ls, long))"
proof -
  have blank: "scan_lines (nl # rest) = (case scan_lines rest of (ls, long) \<Rightarrow> ([] # ls, long))"
    using scan_lines_line [of "[]" rest] by (simp add: maxLineSize_def drop_cr_def)
  show ?thesis
  proof (cases f)
    case (Data d)
    with assms have d: "nl \<notin> set (''data: '' @ d)" "length (''data: '' @ d) < maxLineSize" "drop_cr (''data: '' @ d) = ''data: '' @ d"
      by (auto simp: payload_ok_def drop_cr_def)
    show ?thesis using scan_lines_line [OF d(1,2), of "nl # rest"] d(3) blank
      by (simp add: Data sseDataPrefix_def sseNewline_def split: prod.splits)
  next
    case KeepAlive
    show ?thesis using scan_lines_line [of "'': keep-alive''" "nl # rest"] blank
      by (simp add: KeepAlive sseKeepAlive_def maxLineSize_def drop_cr_def split: prod.splits)
  qed
qed

lemma ParseSSELine_frames:
  "ParseSSELine [] = ([], [], False)" "ParseSSELine ('': '' @ s) = ([], [], False)"
  "ParseSSELine (''data: '' @ d) = ([], d, True)"
  by (simp_all add: ParseSSELine_def strings_TrimPrefix_def strings_HasPrefix_def)


lemma sse_loop_skip: "ParseSSELine line = (e, d, False) \<Longrightarrow> sse_loop gj cancel p err i (line # lines) = sse_loop gj cancel p err i lines"
  by simp

fun frame_data :: "frame \<Rightarrow> bytes list" where
  "frame_data (Data d) = [d]"
| "frame_data KeepAlive = []"

definition frames_ok :: "frame list \<Rightarrow> bool" where
  "frames_ok fs \<longleftrightarrow> (\<forall>d. Data d \<in> set fs \<longrightarrow> payload_ok d \<and> d \<noteq> ''[DONE]'')"

text \<open>A stream of frames closed by the end mark reads back as the chunks of the data frames, whatever comes after.\<close>

lemma read_frames:
  assumes "frames_ok fs"
  shows "\<exists>ls long. scan_lines (concat (map frame_text fs) @ sseDone @ rest) = (ls, long) \<and>
    (\<forall>err i. sse_loop gj (\<lambda>_. None) p err i ls = map (with_usage gj) (concat (map frame_data fs)) @ [done_chunk])"
  using assms
proof (induction fs)
  case Nil
  have "scan_lines (sseDone @ rest) = (case scan_lines (nl # rest) of (ls, long) \<Rightarrow> (''data: [DONE]'' # ls, long))"
    using scan_lines_line [of "''data: [DONE]''" "nl # rest"] by (simp add: sseDone_def maxLineSize_def drop_cr_def)
  moreover have "ParseSSELine (''data: [DONE]'') = ([], ''[DONE]'', True)" using ParseSSELine_frames(3) [of "''[DONE]''"] by simp
  ultimately show ?case by (cases "scan_lines (nl # rest)") simp
next
  case (Cons f fs)
  have fs: "frames_ok fs" using Cons.prems by (simp add: frames_ok_def)
  from Cons.IH [OF fs] obtain ls long where ls: "scan_lines (concat (map frame_text fs) @ sseDone @ rest) = (ls, long)"
    "\<forall>err i. sse_loop gj (\<lambda>_. None) p err i ls = map (with_usage gj) (concat (map frame_data fs)) @ [done_chunk]" by blast
  have "\<forall>d. f = Data d \<longrightarrow> payload_ok d" using Cons.prems by (auto simp: frames_ok_def)
  from scan_frame [OF this, of "concat (map frame_text fs) @ sseDone @ rest"]
  have scan: "scan_lines (concat (map frame_text (f # fs)) @ sseDone @ rest) =
      ((case f of Data d \<Rightarrow> ''data: '' @ d | KeepAlive \<Rightarrow> '': keep-alive'') # [] # ls, long)" by (simp add: ls(1))
  show ?case
  proof (cases f)
    case (Data d)
    then have "d \<noteq> ''[DONE]''" using Cons.prems by (auto simp: frames_ok_def)
    then show ?thesis using ls(2) scan ParseSSELine_frames(1) ParseSSELine_frames(3) [of d] Data by simp
  next
    case KeepAlive
    then show ?thesis using ls(2) scan ParseSSELine_frames(1) ParseSSELine_frames(2) [of "''keep-alive''"] by simp
  qed
qed

lemma ReadSSEStream_frames:
  assumes "frames_ok fs" and "rs_Body resp = concat (map frame_text fs) @ sseDone @ rest"
  shows "ReadSSEStream gj (\<lambda>_. None) p resp = map (with_usage gj) (concat (map frame_data fs)) @ [done_chunk]"
  using read_frames [OF assms(1), of rest gj p] assms(2) by (auto simp: ReadSSEStream_def NewScanner_def)


section \<open>Written values in frames\<close>

text \<open>A written value is one line.\<close>

lemma esc_str_no_nl: "utf8_valid s \<Longrightarrow> nl \<notin> set (esc_str s)"
proof (induction "length s" arbitrary: s rule: less_induct)
  case less
  have u: "nl \<notin> set (u_escape n)" if "n < 65536" for n
  proof -
    have "hex_digit k \<noteq> nl" if "k < 16" for k using that by (auto simp: hex_digit_def char_eq_byte byte_def)
    with that show ?thesis by (simp add: u_escape_def eq_commute [of nl])
  qed
  show ?case
  proof (cases s)
    case Nil
    then show ?thesis by (simp add: esc_str.simps)
  next
    case (Cons c cs)
    let ?k = "utf8_len s"
    have k: "?k \<noteq> 0" and v: "utf8_valid (drop ?k s)"
      using less.prems Cons by (subst (asm) utf8_valid.simps, simp split: if_splits)+
    have IH: "nl \<notin> set (esc_str (drop ?k s))" using k Cons v by (intro less.hyps) auto
    show ?thesis
    proof (cases "byte c < 0x80")
      case True
      then have "?k = 1" by (simp add: Cons utf8_len_def utf8_ranges_def)
      moreover have "nl \<notin> set (esc_char c)" using u [of "byte c"] True by (auto simp: esc_char_def)
      ultimately show ?thesis using IH True by (simp add: Cons esc_str.simps [of "c # cs"])
    next
      case False
      obtain rs where rs: "utf8_ranges (byte c) = Some rs" "list_all2 is_cont rs (take (length rs) cs)" "?k = Suc (length rs)"
        using k Cons by (auto simp: utf8_len_def split: option.splits if_splits)
      have "nl \<notin> set (take (length rs) cs)"
      proof
        assume "nl \<in> set (take (length rs) cs)"
        then obtain ab where "ab \<in> set rs" "is_cont ab nl" using rs(2) by (metis in_set_conv_nth list_all2_conv_all_nth)
        then show False using ranges_cont [OF rs(1)] by (cases ab) (auto simp: is_cont_def byte_def)
      qed
      moreover have "c \<noteq> nl" using False by (auto simp: byte_def)
      ultimately have "nl \<notin> set (take ?k s)" using rs(3) Cons by simp
      then show ?thesis using esc_str_high [OF Cons False k] IH u [of 8232] u [of 8233] by simp
    qed
  qed
qed

lemma join_comma_set: "set (join_comma ts) \<subseteq> {CHR '',''} \<union> \<Union> (set ` set ts)"
  by (induction ts rule: join_comma.induct) auto

lemma marshal_no_nl: "clean j \<Longrightarrow> nl \<notin> set (marshal_text j)"
proof (induction j)
  case (ONum t)
  then have "nl \<in> set t \<Longrightarrow> num_char nl" using scan_number_chars [of t t "[]"] by (auto simp: number_ok_def)
  then show ?case by (auto simp: num_char_def is_digit_def byte_def)
next
  case (OStr s)
  then show ?case by (simp add: quote_def esc_str_no_nl)
next
  case (OArr vs)
  then show ?case using join_comma_set [of "map marshal_text vs"] by fastforce
next
  case (OObj kvs)
  have "nl \<notin> set (quote k @ CHR '':'' # marshal_text v)" if "(k, v) \<in> set kvs" for k v
    using OObj that by (auto simp: quote_def esc_str_no_nl)
  then show ?case using join_comma_set [of "map (\<lambda>(k, v). quote k @ CHR '':'' # marshal_text v) kvs"] by fastforce
qed auto

lemma obj_text_payload: "clean (OObj kvs) \<Longrightarrow> length (marshal_text (OObj kvs)) + 6 < maxLineSize \<Longrightarrow> payload_ok (marshal_text (OObj kvs))"
  using marshal_no_nl [of "OObj kvs"] by (simp add: payload_ok_def)

text \<open>What \<open>gjson\<close> says of a written value.\<close>

lemma gj_describes:
  assumes "gjson_ok gj" "clean j" "keys_distinct j"
  shows "describes (gj_Get gj (marshal_text j) path) (jpath (split_dot path) (jval_of j))"
  using assms by (simp add: gjson_ok_def json_parse_exact jout_of_jval_of)

lemma gj_str:
  assumes "gjson_ok gj" "clean j" "keys_distinct j" "jpath (split_dot path) (jval_of j) = Some (JV r (JStr s))"
  shows "g_String (gj_Get gj (marshal_text j) path) = s"
  using gj_describes [OF assms(1-3), of path] assms(4) by (simp add: describes_def)

lemma gj_int:
  assumes "gjson_ok gj" "clean j" "keys_distinct j" "jpath (split_dot path) (jval_of j) = Some (JV r (JNum (int_text n)))" "in_int64 n"
  shows "g_Int (gj_Get gj (marshal_text j) path) = n"
  using gj_describes [OF assms(1-3), of path] assms(4,5) by (simp add: describes_def parse_int_text)


lemma length_esc_str: "length (esc_str s) \<le> 6 * length s"
proof (induction s rule: esc_str.induct)
  case (1 s)
  have u: "length (u_escape n) = 6" for n by (simp add: u_escape_def)
  show ?case
  proof (cases s)
    case (Cons c cs)
    have e: "length (esc_char c) \<le> 6" by (simp add: esc_char_def u)
    consider "byte c < 0x80" | "\<not> byte c < 0x80" "utf8_len s = 0" | "\<not> byte c < 0x80" "utf8_len s \<noteq> 0" by blast
    then show ?thesis
    proof cases
      case 3
      let ?k = "utf8_len s"
      have "length (esc_str (drop ?k s)) \<le> 6 * length (drop ?k s)"
        using 1(3-5) [OF Cons 3(1,2)] by blast
      moreover have "length (drop ?k s) + 1 \<le> length s" "length (take ?k s) + length (drop ?k s) = length s" using 3 Cons by auto
      ultimately show ?thesis using esc_str_high [OF Cons 3] u by simp
    qed (use 1(1,2) [OF Cons] e u Cons in \<open>simp_all add: esc_str.simps [of "c # cs"]\<close>)
  qed (simp add: esc_str.simps)
qed

lemma length_quote: "length (quote s) \<le> 6 * length s + 2"
  using length_esc_str [of s] by (simp add: quote_def)

end
