(* ===== verification/Openai.thy ===== *)
theory Openai
  imports Sse
begin

text \<open>
  The adapters for OpenAI-format upstreams: \<open>internal/provider/openai/client.go\<close> and
  \<open>internal/provider/ollama/client.go\<close>, whose chat, stream and embedding calls use the same wire format
  at another address. \<open>ftext\<close> writes floating-point numbers and \<open>env\<close> is the network (theory
  \<open>Http\<close>). A stream is the list of chunks that the reader goroutine sends.
\<close>

section \<open>OpenAI\<close>

record openai_Client =
  oc_name :: string
  oc_baseURL :: string
  oc_hosting :: string

definition openai_New :: "string \<Rightarrow> string \<Rightarrow> openai_Client" where
  "openai_New name baseURL =
     (let baseURL = (if baseURL = [] then ''https://api.openai.com/v1'' else baseURL)
      in \<lparr>oc_name = name, oc_baseURL = strings_TrimRight baseURL (CHR ''/''), oc_hosting = []\<rparr>)"

definition openai_NewWithHosting :: "string \<Rightarrow> string \<Rightarrow> string \<Rightarrow> openai_Client" where
  "openai_NewWithHosting name baseURL hosting = (openai_New name baseURL)\<lparr>oc_hosting := hosting\<rparr>"

definition openai_setHeaders :: "header \<Rightarrow> header" where
  "openai_setHeaders h = Header_Set ''Content-Type'' ''application/json'' h"

definition openai_ChatCompletion ::
  "(float64 \<Rightarrow> bytes) \<Rightarrow> http_env \<Rightarrow> openai_Client \<Rightarrow> ChatRequest \<Rightarrow> goerror + ChatResponse" where
  "openai_ChatCompletion ftext env c req =
     bind_result (marshal_request ''openai'' (enc_ChatRequest ftext req)) (\<lambda>body.
     bind_result (exchange ''openai'' env ''POST'' (oc_baseURL c @ ''/chat/completions'') (openai_setHeaders Map.empty) body) (\<lambda>resp.
     wrap_result ''openai: decode response'' (decode_body dec_ChatResponse zero_ChatResponse resp)))"

definition openai_stream_request :: "ChatRequest \<Rightarrow> ChatRequest" where
  "openai_stream_request req =
     req\<lparr>req_Stream := True, req_StreamOptions := (case req_StreamOptions req of None \<Rightarrow> Some True | Some b \<Rightarrow> Some b)\<rparr>"

definition openai_ChatCompletionStream ::
  "(float64 \<Rightarrow> bytes) \<Rightarrow> gjson \<Rightarrow> (nat \<Rightarrow> goerror option) \<Rightarrow> http_env \<Rightarrow> openai_Client \<Rightarrow> ChatRequest \<Rightarrow> goerror + StreamChunk list" where
  "openai_ChatCompletionStream ftext gj cancel env c req =
     bind_result (marshal_request ''openai'' (enc_ChatRequest ftext (openai_stream_request req))) (\<lambda>body.
     bind_result (exchange ''openai'' env ''POST'' (oc_baseURL c @ ''/chat/completions'') (openai_setHeaders Map.empty) body) (\<lambda>resp.
     Inr (ReadSSEStream gj cancel ''openai'' resp)))"

definition openai_Embeddings :: "http_env \<Rightarrow> openai_Client \<Rightarrow> EmbeddingRequest \<Rightarrow> goerror + EmbeddingResponse" where
  "openai_Embeddings env c req =
     bind_result (marshal_request ''openai'' (enc_EmbeddingRequest req)) (\<lambda>body.
     bind_result (exchange ''openai'' env ''POST'' (oc_baseURL c @ ''/embeddings'') (openai_setHeaders Map.empty) body) (\<lambda>resp.
     wrap_result ''openai: decode response'' (decode_body dec_EmbeddingResponse zero_EmbeddingResponse resp)))"

text \<open>The envelope of \<open>GET /models\<close>, of which only the ids are read.\<close>

definition dec_listModelsResponse :: "string list decoder" where
  "dec_listModelsResponse = dec_struct (\<lambda>kvs ids.
     dec_field ''data'' (dec_list (dec_struct (\<lambda>kvs ID. dec_field ''id'' dec_string kvs ID)) []) kvs ids)"

definition openai_ListModels :: "http_env \<Rightarrow> openai_Client \<Rightarrow> goerror + string list" where
  "openai_ListModels env c =
     (if oc_hosting c = ''azure'' then Inr []
      else bind_result (exchange ''openai'' env ''GET'' (oc_baseURL c @ ''/models'') (openai_setHeaders Map.empty) []) (\<lambda>resp.
        wrap_result ''openai: decode models response'' (decode_body dec_listModelsResponse [] resp)))"

definition openai_HealthCheck :: "http_env \<Rightarrow> openai_Client \<Rightarrow> goerror option" where
  "openai_HealthCheck env c =
     (if oc_hosting c = ''azure''
      then (case bad_url env (oc_baseURL c) of
              Some err \<Rightarrow> Some (Wrapf ''openai: create health check request'' [err])
            | None \<Rightarrow>
                (case http_do env \<lparr>or_Method = ''HEAD'', or_URL = oc_baseURL c, or_Header = Map.empty, or_Body = []\<rparr> of
                   Inl err \<Rightarrow> Some (Wrapf ''openai: health check'' [err])
                 | Inr resp \<Rightarrow>
                     if rs_StatusCode resp \<ge> 400
                     then Some (ErrorString (''openai: health check: HTTP '' @ int_text (rs_StatusCode resp)))
                     else None))
      else (case openai_ListModels env c of Inl err \<Rightarrow> Some err | Inr _ \<Rightarrow> None))"

section \<open>Ollama\<close>

record ollama_Client =
  ol_name :: string
  ol_baseURL :: string

definition ollama_New :: "string \<Rightarrow> string \<Rightarrow> ollama_Client" where
  "ollama_New name baseURL =
     (let baseURL = (if baseURL = [] then ''http://localhost:11434'' else baseURL)
      in \<lparr>ol_name = name, ol_baseURL = strings_TrimRight baseURL (CHR ''/'')\<rparr>)"

definition openaiURL :: "ollama_Client \<Rightarrow> string" where
  "openaiURL c = ol_baseURL c @ ''/v1''"

definition ollama_setHeaders :: "header \<Rightarrow> header" where
  "ollama_setHeaders h = Header_Set ''Content-Type'' ''application/json'' h"

definition ollama_ChatCompletion ::
  "(float64 \<Rightarrow> bytes) \<Rightarrow> http_env \<Rightarrow> ollama_Client \<Rightarrow> ChatRequest \<Rightarrow> goerror + ChatResponse" where
  "ollama_ChatCompletion ftext env c req =
     bind_result (marshal_request ''ollama'' (enc_ChatRequest ftext req)) (\<lambda>body.
     bind_result (exchange ''ollama'' env ''POST'' (openaiURL c @ ''/chat/completions'') (ollama_setHeaders Map.empty) body) (\<lambda>resp.
     wrap_result ''ollama: decode response'' (decode_body dec_ChatResponse zero_ChatResponse resp)))"

definition ollama_ChatCompletionStream ::
  "(float64 \<Rightarrow> bytes) \<Rightarrow> gjson \<Rightarrow> (nat \<Rightarrow> goerror option) \<Rightarrow> http_env \<Rightarrow> ollama_Client \<Rightarrow> ChatRequest \<Rightarrow> goerror + StreamChunk list" where
  "ollama_ChatCompletionStream ftext gj cancel env c req =
     bind_result (marshal_request ''ollama'' (enc_ChatRequest ftext (req\<lparr>req_Stream := True\<rparr>))) (\<lambda>body.
     bind_result (exchange ''ollama'' env ''POST'' (openaiURL c @ ''/chat/completions'') (ollama_setHeaders Map.empty) body) (\<lambda>resp.
     Inr (ReadSSEStream gj cancel ''ollama'' resp)))"

definition ollama_Embeddings :: "http_env \<Rightarrow> ollama_Client \<Rightarrow> EmbeddingRequest \<Rightarrow> goerror + EmbeddingResponse" where
  "ollama_Embeddings env c req =
     bind_result (marshal_request ''ollama'' (enc_EmbeddingRequest req)) (\<lambda>body.
     bind_result (exchange ''ollama'' env ''POST'' (openaiURL c @ ''/embeddings'') (ollama_setHeaders Map.empty) body) (\<lambda>resp.
     wrap_result ''ollama: decode response'' (decode_body dec_EmbeddingResponse zero_EmbeddingResponse resp)))"

definition ollama_ListModels :: "gjson \<Rightarrow> http_env \<Rightarrow> ollama_Client \<Rightarrow> goerror + string list" where
  "ollama_ListModels gj env c =
     bind_result (exchange ''ollama'' env ''GET'' (ol_baseURL c @ ''/api/tags'') (ollama_setHeaders Map.empty) []) (\<lambda>resp.
     bind_result (wrap_result ''ollama: read response'' (read_all (2 ^ 20) resp)) (\<lambda>body.
     Inr (map (\<lambda>model. g_String (gj_Get gj model ''name'')) (gj_ForEach gj body ''models''))))"

definition ollama_HealthCheck :: "gjson \<Rightarrow> http_env \<Rightarrow> ollama_Client \<Rightarrow> goerror option" where
  "ollama_HealthCheck gj env c = (case ollama_ListModels gj env c of Inl err \<Rightarrow> Some err | Inr _ \<Rightarrow> None)"


section \<open>Property\<close>

text \<open>An upstream that speaks the format: it parses the request and answers with a response or with a stream of
  frames.\<close>

definition openai_upstream :: "(ChatRequest \<Rightarrow> ChatResponse) \<Rightarrow> (ChatRequest \<Rightarrow> frame list) \<Rightarrow> out_request \<Rightarrow> goerror + Response" where
  "openai_upstream answer frames q =
     Inr (case json_Unmarshal (or_Body q) dec_ChatRequest zero_ChatRequest of
            Inl err \<Rightarrow> \<lparr>rs_StatusCode = 400, rs_Header = Map.empty, rs_Body = [], rs_BodyErr = None\<rparr>
          | Inr req \<Rightarrow>
              \<lparr>rs_StatusCode = 200, rs_Header = Map.empty,
               rs_Body = (if req_Stream req then concat (map frame_text (frames req)) @ sseDone
                          else marshal_text (enc_ChatResponse (answer req))),
               rs_BodyErr = None\<rparr>)"

lemma upstream_exchange:
  assumes "ChatRequest_ok ftext req" and "bad_url env url = None" and "\<forall>q. http_do env q = openai_upstream answer frames q"
  shows "bind_result (marshal_request p (enc_ChatRequest ftext req)) (\<lambda>body. bind_result (exchange p env meth url h body) k) =
    k \<lparr>rs_StatusCode = 200, rs_Header = Map.empty,
       rs_Body = (if req_Stream req then concat (map frame_text (frames req)) @ sseDone
                  else marshal_text (enc_ChatResponse (answer req))),
       rs_BodyErr = None\<rparr>"
  using assms json_Unmarshal_rereads [OF canon_ChatRequest reread_ChatRequest, OF assms(1,1)] marshal_canon [OF canon_ChatRequest, OF assms(1)]
  by (simp add: marshal_request_def exchange_def openai_upstream_def)

lemma decode_answer:
  assumes "ChatResponse_ok r"
  shows "decode_body dec_ChatResponse zero_ChatResponse \<lparr>rs_StatusCode = s, rs_Header = h, rs_Body = marshal_text (enc_ChatResponse r), rs_BodyErr = None\<rparr> = Inr r"
  using json_Unmarshal_rereads [OF canon_ChatResponse reread_ChatResponse, OF assms assms]
    json_Decode_parse [OF conjunct2 [OF marshal_canon [OF canon_ChatResponse [OF assms]]], of dec_ChatResponse]
  by (simp add: decode_body_def)

text \<open>
  C24. The OpenAI-format adapters are transparent. An upstream that parses what it gets sees the request of the
  caller: for a chat completion the very same request, for a stream the request with streaming (and, from the
  OpenAI adapter, a usage report) asked for. What it answers is what the caller gets: its response, or the
  data of its frames in order, keep-alive comments left out, closed by the end mark. This holds for requests
  and responses with text in UTF-8, 64-bit integers and raw JSON in the form \<open>Marshal\<close> writes.
\<close>

theorem openai_transparent:
  assumes "ChatRequest_ok ftext req" and "\<not> req_Stream req" and "ChatResponse_ok (answer req)"
    and "\<forall>r. frames_ok (frames r)" and "\<forall>url. bad_url env url = None"
    and "\<forall>q. http_do env q = openai_upstream answer frames q"
  shows "openai_ChatCompletion ftext env c req = Inr (answer req) \<and> ollama_ChatCompletion ftext env d req = Inr (answer req) \<and>
    openai_ChatCompletionStream ftext gj (\<lambda>_. None) env c req =
      Inr (map (with_usage gj) (concat (map frame_data (frames (openai_stream_request req)))) @ [done_chunk]) \<and>
    ollama_ChatCompletionStream ftext gj (\<lambda>_. None) env d req =
      Inr (map (with_usage gj) (concat (map frame_data (frames (req\<lparr>req_Stream := True\<rparr>)))) @ [done_chunk])"
proof -
  have s: "ChatRequest_ok ftext (openai_stream_request req)" "ChatRequest_ok ftext (req\<lparr>req_Stream := True\<rparr>)"
    using assms(1) by (simp_all add: ChatRequest_ok_def openai_stream_request_def)
  have f: "frames_ok (frames r)" for r using assms(4) by blast
  have u: "bad_url env url = None" for url using assms(5) by blast
  note ex = upstream_exchange [OF _ u assms(6)]
  show ?thesis
    using assms(2) ReadSSEStream_frames [OF f, of _ _ "[]"] decode_answer [OF assms(3)]
    unfolding openai_ChatCompletion_def ollama_ChatCompletion_def openai_ChatCompletionStream_def ollama_ChatCompletionStream_def
      ex [OF assms(1)] ex [OF s(1)] ex [OF s(2)]
    by (simp add: openai_stream_request_def)
qed

definition ex_openai_req :: ChatRequest where
  "ex_openai_req = zero_ChatRequest\<lparr>req_Model := ''gpt-4o'',
     req_Messages := [zero_Message\<lparr>msg_Role := ''user'', msg_Content := marshal_text (OStr ''hi'')\<rparr>],
     req_Temperature := Some (1 / 2)\<rparr>"

definition ex_openai_resp :: ChatResponse where
  "ex_openai_resp = zero_ChatResponse\<lparr>resp_ID := ''r1'', resp_Model := ''gpt-4o''\<rparr>"

lemma ex_openai_req_ok: "ChatRequest_ok (\<lambda>_. ''0.5'') ex_openai_req"
proof -
  have t: "utf8_valid ''gpt-4o''" "utf8_valid ''user''" "utf8_valid ''hi''" by (rule utf8_ascii, simp add: byte_def)+
  have "number_ok ''0.5''" by (simp add: number_ok_def scan_number_def scan_unsigned_def scan_int_def scan_frac_def scan_exp_def
      scan_digits_def is_digit_def byte_def)
  moreover have "parse_float ''0.5'' = Some (1 / 2)"
    by (simp add: parse_float_def number_val_def is_digit_def byte_def digits_val_def digit_val_def exp_val_def pow10_def)
  moreover have "raw_canon (marshal_text (OStr ''hi''))" using t by (intro raw_canon_marshal) simp
  ultimately show ?thesis
    using t by (simp add: ChatRequest_ok_def ex_openai_req_def zero_ChatRequest_def zero_Message_def Message_ok_def float_ok_def int_ok_def raw_ok_def
        in_int64_def utf8_valid_ascii del: marshal_text.simps)
qed

lemma ex_openai_resp_ok: "ChatResponse_ok ex_openai_resp"
proof -
  have "utf8_valid ''gpt-4o''" "utf8_valid ''r1''" by (rule utf8_ascii, simp add: byte_def)+
  then show ?thesis by (simp add: ChatResponse_ok_def ex_openai_resp_def zero_ChatResponse_def in_int64_def utf8_valid_ascii)
qed

theorem openai_transparent_witness:
  "openai_ChatCompletion (\<lambda>_. ''0.5'')
     \<lparr>bad_url = (\<lambda>_. None), http_do = openai_upstream (\<lambda>_. ex_openai_resp) (\<lambda>_. [Data ''x'', KeepAlive])\<rparr> (openai_New ''o'' '''') ex_openai_req = Inr ex_openai_resp"
proof -
  have "frames_ok [Data ''x'', KeepAlive]" by (simp add: frames_ok_def payload_ok_def maxLineSize_def)
  moreover have "\<not> req_Stream ex_openai_req" by (simp add: ex_openai_req_def zero_ChatRequest_def)
  ultimately show ?thesis
    using openai_transparent [OF ex_openai_req_ok, of "\<lambda>_. ex_openai_resp" "\<lambda>_. [Data ''x'', KeepAlive]"
        "\<lparr>bad_url = (\<lambda>_. None), http_do = openai_upstream (\<lambda>_. ex_openai_resp) (\<lambda>_. [Data ''x'', KeepAlive])\<rparr>" "openai_New ''o'' ''''"] ex_openai_resp_ok
    by simp
qed

end
