(* ===== verification/Anthropic.thy ===== *)
theory Anthropic
  imports Openai
begin

text \<open>
  The adapter for the Anthropic Messages API, \<open>internal/provider/anthropic\<close>: translation of requests and
  responses (\<open>translate.go\<close>), the streaming state machine (\<open>stream.go\<close>), the event streams of Bedrock
  (\<open>eventstream.go\<close>) and the client with its three hosting modes (\<open>client.go\<close>).

  The decoder of the AWS event-stream library is an argument: the messages it yields, and the error that
  ends them, if it is not the end of the body.
\<close>

section \<open>Requests\<close>

record anthropicMsg =
  am_Role :: string
  am_Content :: bytes

record anthropicRequest =
  ar_Model :: string
  ar_MaxTokens :: int
  ar_Messages :: "anthropicMsg list"
  ar_System :: bytes
  ar_Temperature :: "float64 option"
  ar_TopP :: "float64 option"
  ar_Stream :: bool
  ar_Tools :: bytes
  ar_StopSeqs :: bytes

text \<open>The verb \<open>%q\<close>: ASCII control characters, quotes and backslashes are escaped the way Go does (which is not always
  the way JSON does); bytes beyond ASCII are copied, as printable characters are.\<close>

definition hex2 :: "nat \<Rightarrow> bytes" where
  "hex2 n = [hex_digit (n div 16), hex_digit (n mod 16)]"

definition go_quote_char :: "char \<Rightarrow> bytes" where
  "go_quote_char c =
     (if c = ch_quote \<or> c = ch_backslash then [ch_backslash, c]
      else if byte c = 0x07 then ch_backslash # ''a'' else if byte c = 0x08 then ch_backslash # ''b''
      else if byte c = 0x0C then ch_backslash # ''f'' else if byte c = 0x0A then ch_backslash # ''n''
      else if byte c = 0x0D then ch_backslash # ''r'' else if byte c = 0x09 then ch_backslash # ''t''
      else if byte c = 0x0B then ch_backslash # ''v''
      else if byte c < 0x20 \<or> byte c = 0x7F then ch_backslash # CHR ''x'' # hex2 (byte c)
      else [c])"

definition go_quote :: "string \<Rightarrow> bytes" where
  "go_quote s = ch_quote # concat (map go_quote_char s) @ [ch_quote]"

definition tool_result :: "Message \<Rightarrow> bytes" where
  "tool_result m =
     ''[{'' @ quote ''type'' @ '':'' @ quote ''tool_result'' @ '','' @ quote ''tool_use_id'' @ '':'' @
     go_quote (msg_ToolCallID m) @ '','' @ quote ''content'' @ '':'' @ msg_Content m @ ''}]''"

definition translate_message :: "anthropicRequest \<Rightarrow> Message \<Rightarrow> anthropicRequest" where
  "translate_message out m =
     (if msg_Role m = ''system'' then out\<lparr>ar_System := msg_Content m\<rparr>
      else if msg_Role m = ''user'' \<or> msg_Role m = ''assistant''
      then out\<lparr>ar_Messages := ar_Messages out @ [\<lparr>am_Role = msg_Role m, am_Content = msg_Content m\<rparr>]\<rparr>
      else if msg_Role m = ''tool''
      then out\<lparr>ar_Messages := ar_Messages out @ [\<lparr>am_Role = ''user'', am_Content = tool_result m\<rparr>]\<rparr>
      else out)"

definition anthropic_translateRequest :: "ChatRequest \<Rightarrow> anthropicRequest" where
  "anthropic_translateRequest req =
     foldl translate_message
       \<lparr>ar_Model = req_Model req, ar_MaxTokens = (case req_MaxTokens req of None \<Rightarrow> 4096 | Some n \<Rightarrow> n),
        ar_Messages = [], ar_System = [], ar_Temperature = req_Temperature req, ar_TopP = req_TopP req,
        ar_Stream = req_Stream req, ar_Tools = req_Tools req, ar_StopSeqs = req_Stop req\<rparr>
       (req_Messages req)"

definition enc_anthropicMsg :: "anthropicMsg \<Rightarrow> jout" where
  "enc_anthropicMsg m = OObj [(''role'', OStr (am_Role m)), (''content'', ORaw (am_Content m))]"

text \<open>Everything after the model; a slice to which nothing was appended is nil.\<close>

definition enc_common :: "(float64 \<Rightarrow> bytes) \<Rightarrow> anthropicRequest \<Rightarrow> fields" where
  "enc_common ftext r =
     [(''max_tokens'', enc_int (ar_MaxTokens r)),
      (''messages'', if ar_Messages r = [] then ONull else OArr (map enc_anthropicMsg (ar_Messages r)))] @
     omit_raw ''system'' (ar_System r) @
     omit_nil ''temperature'' (enc_float ftext) (ar_Temperature r) @
     omit_nil ''top_p'' (enc_float ftext) (ar_TopP r) @
     (if ar_Stream r then [(''stream'', OBool True)] else []) @
     omit_raw ''tools'' (ar_Tools r) @
     omit_raw ''stop_sequences'' (ar_StopSeqs r)"

section \<open>Responses\<close>

definition anthropic_mapStopReason :: "string \<Rightarrow> string" where
  "anthropic_mapStopReason reason =
     (if reason = ''end_turn'' then ''stop'' else if reason = ''max_tokens'' then ''length''
      else if reason = ''tool_use'' then ''tool_calls'' else if reason = ''stop_sequence'' then ''stop''
      else reason)"

text \<open>The tool call of a block, as \<open>Marshal\<close> writes it.\<close>

definition tool_call_json :: "string \<Rightarrow> string \<Rightarrow> string \<Rightarrow> bytes" where
  "tool_call_json cid name arguments =
     marshal_text (OObj [(''function'', OObj [(''arguments'', OStr arguments), (''name'', OStr name)]),
       (''id'', OStr cid), (''type'', OStr ''function'')])"

definition block_text :: "gjson \<Rightarrow> bytes \<Rightarrow> string" where
  "block_text gj block =
     (if g_String (gj_Get gj block ''type'') = ''text'' then g_String (gj_Get gj block ''text'') else [])"

definition block_call :: "gjson \<Rightarrow> bytes \<Rightarrow> bytes list" where
  "block_call gj block =
     (if g_String (gj_Get gj block ''type'') = ''tool_use''
      then [tool_call_json (g_String (gj_Get gj block ''id'')) (g_String (gj_Get gj block ''name''))
              (g_Raw (gj_Get gj block ''input''))]
      else [])"

text \<open>The message of the response from the texts and the calls of its parts, and its finish reason.\<close>

definition build_message :: "string \<Rightarrow> bytes list \<Rightarrow> Message" where
  "build_message text calls =
     \<lparr>msg_Role = ''assistant'', msg_Content = (if length text > 0 then marshal_text (OStr text) else []), msg_Name = [],
      msg_ToolCalls = (if length calls > 0 then marshal_text (OArr (map ORaw calls)) else []), msg_ToolCallID = []\<rparr>"

definition finish_reason :: "string \<Rightarrow> bytes list \<Rightarrow> string" where
  "finish_reason reason calls = (if length calls > 0 \<and> reason = [] then ''tool_calls'' else reason)"

definition anthropic_translateResponse :: "gjson \<Rightarrow> bytes \<Rightarrow> ChatResponse" where
  "anthropic_translateResponse gj data =
     (let stopReason = anthropic_mapStopReason (g_String (gj_Get gj data ''stop_reason''));
          blocks = gj_ForEach gj data ''content'';
          contentText = concat (map (block_text gj) blocks);
          toolCalls = concat (map (block_call gj) blocks);
          u = gj_Get gj data ''usage'';
          inp = g_Int (gj_Get gj (g_Raw u) ''input_tokens'');
          outp = g_Int (gj_Get gj (g_Raw u) ''output_tokens'')
      in \<lparr>resp_ID = g_String (gj_Get gj data ''id''), resp_Object = ''chat.completion'', resp_Created = 0,
          resp_Model = g_String (gj_Get gj data ''model''),
          resp_Choices = [\<lparr>ch_Index = 0, ch_Message = build_message contentText toolCalls,
                           ch_FinishReason = finish_reason stopReason toolCalls\<rparr>],
          resp_Usage = (if g_Exists u
            then Some \<lparr>PromptTokens = inp, CompletionTokens = outp, TotalTokens = wrap64 (inp + outp)\<rparr> else None),
          resp_SystemFingerprint = []\<rparr>)"

section \<open>Streams\<close>

record streamState =
  ss_id :: string
  ss_model :: string
  ss_inputTokens :: int
  ss_outputTokens :: int
  ss_stopReason :: string

definition new_streamState :: streamState where
  "new_streamState = \<lparr>ss_id = [], ss_model = [], ss_inputTokens = 0, ss_outputTokens = 0, ss_stopReason = []\<rparr>"

definition onMessageStart :: "gjson \<Rightarrow> bytes \<Rightarrow> streamState \<Rightarrow> StreamChunk list \<times> streamState" where
  "onMessageStart gj data s =
     (let s = s\<lparr>ss_id := g_String (gj_Get gj data ''message.id''), ss_model := g_String (gj_Get gj data ''message.model''),
                ss_inputTokens := g_Int (gj_Get gj data ''message.usage.input_tokens'')\<rparr>
      in ([data_chunk (BuildDeltaChunk (ss_id s) (ss_model s) [(''role'', OStr ''assistant'')] [])], s))"

definition onContentBlockDelta :: "gjson \<Rightarrow> bytes \<Rightarrow> streamState \<Rightarrow> StreamChunk list" where
  "onContentBlockDelta gj data s =
     (let deltaType = g_String (gj_Get gj data ''delta.type'')
      in if deltaType = ''text_delta''
         then [data_chunk (BuildDeltaChunk (ss_id s) (ss_model s)
                 [(''content'', OStr (g_String (gj_Get gj data ''delta.text'')))] [])]
         else if deltaType = ''input_json_delta''
         then [data_chunk (BuildToolCallDeltaChunk (ss_id s) (ss_model s) (g_Int (gj_Get gj data ''index''))
                 (g_String (gj_Get gj data ''delta.partial_json'')))]
         else [])"

definition onMessageDelta :: "gjson \<Rightarrow> bytes \<Rightarrow> streamState \<Rightarrow> streamState" where
  "onMessageDelta gj data s =
     s\<lparr>ss_outputTokens := g_Int (gj_Get gj data ''usage.output_tokens''),
       ss_stopReason := g_String (gj_Get gj data ''delta.stop_reason'')\<rparr>"

definition onMessageStop :: "streamState \<Rightarrow> StreamChunk list" where
  "onMessageStop s =
     (let usage = \<lparr>PromptTokens = ss_inputTokens s, CompletionTokens = ss_outputTokens s,
                   TotalTokens = wrap64 (ss_inputTokens s + ss_outputTokens s)\<rparr>
      in [data_chunk (BuildFinishChunk (ss_id s) (ss_model s) (anthropic_mapStopReason (ss_stopReason s))),
          (data_chunk (BuildUsageChunk (ss_id s) (ss_model s) usage))\<lparr>chunk_Usage := Some usage\<rparr>,
          done_chunk])"

definition handleEvent :: "gjson \<Rightarrow> string \<Rightarrow> bytes \<Rightarrow> streamState \<Rightarrow> StreamChunk list \<times> streamState" where
  "handleEvent gj event data s =
     (if event = ''message_start'' then onMessageStart gj data s
      else if event = ''content_block_delta'' then (onContentBlockDelta gj data s, s)
      else if event = ''message_delta'' then ([], onMessageDelta gj data s)
      else if event = ''message_stop'' then (onMessageStop s, s)
      else ([], s))"

text \<open>Sending the chunks of an event: what is sent, the number of sends so far, and whether the reader goes on.\<close>

fun send_chunks :: "(nat \<Rightarrow> goerror option) \<Rightarrow> nat \<Rightarrow> StreamChunk list \<Rightarrow> StreamChunk list \<times> nat \<times> bool" where
  "send_chunks cancel i [] = ([], i, True)"
| "send_chunks cancel i (c # cs) =
     (case cancel i of
        Some e \<Rightarrow> ([err_chunk e], i, False)
      | None \<Rightarrow> (case send_chunks cancel (i + 1) cs of (out, j, go) \<Rightarrow> (c # out, j, go)))"

fun anthropic_loop ::
  "gjson \<Rightarrow> (nat \<Rightarrow> goerror option) \<Rightarrow> goerror option \<Rightarrow> nat \<Rightarrow> streamState \<Rightarrow> string \<Rightarrow> string list \<Rightarrow> StreamChunk list" where
  "anthropic_loop gj cancel err i s currentEvent [] =
     (case err of None \<Rightarrow> [] | Some e \<Rightarrow> [err_chunk (Wrapf ''anthropic: read stream'' [e])])"
| "anthropic_loop gj cancel err i s currentEvent (line # lines) =
     (case ParseSSELine line of
        (event, data, ok) \<Rightarrow>
          if \<not> ok then anthropic_loop gj cancel err i s currentEvent lines
          else if event \<noteq> [] then anthropic_loop gj cancel err i s event lines
          else if data = [] then anthropic_loop gj cancel err i s currentEvent lines
          else (case handleEvent gj currentEvent data s of
                  (chunks, s) \<Rightarrow>
                    (case send_chunks cancel i chunks of
                       (out, j, go) \<Rightarrow> out @ (if go then anthropic_loop gj cancel err j s [] lines else []))))"

definition anthropic_readStream :: "gjson \<Rightarrow> (nat \<Rightarrow> goerror option) \<Rightarrow> Response \<Rightarrow> StreamChunk list" where
  "anthropic_readStream gj cancel resp =
     (case NewScanner (rs_Body resp) (rs_BodyErr resp) of
        (lines, err) \<Rightarrow> anthropic_loop gj cancel err 0 new_streamState [] lines)"


section \<open>Event streams of Bedrock\<close>

datatype header_value = StringValue string | OtherValue

record es_message =
  es_Headers :: "string \<rightharpoonup> header_value"
  es_Payload :: bytes

definition headerValue :: "(string \<rightharpoonup> header_value) \<Rightarrow> string \<Rightarrow> string" where
  "headerValue headers name = (case headers name of Some (StringValue s) \<Rightarrow> s | _ \<Rightarrow> [])"

definition b64_val :: "char \<Rightarrow> nat option" where
  "b64_val c =
     (let n = byte c
      in if 0x41 \<le> n \<and> n \<le> 0x5A then Some (n - 0x41)
         else if 0x61 \<le> n \<and> n \<le> 0x7A then Some (n - 0x61 + 26)
         else if 0x30 \<le> n \<and> n \<le> 0x39 then Some (n - 0x30 + 52)
         else if n = 0x2B then Some 62 else if n = 0x2F then Some 63 else None)"

text \<open>\<open>base64.StdEncoding\<close> on text without line breaks: groups of four characters, the last one padded.\<close>

fun b64_groups :: "string \<Rightarrow> bytes option" where
  "b64_groups [] = Some []"
| "b64_groups (a # b # c # d # s) =
     (case (b64_val a, b64_val b) of
        (Some x, Some y) \<Rightarrow>
          (if c = CHR ''='' then (if d = CHR ''='' \<and> s = [] then Some [char_of (x * 4 + y div 16)] else None)
           else case b64_val c of
             None \<Rightarrow> None
           | Some z \<Rightarrow>
               if d = CHR ''=''
               then (if s = [] then Some [char_of (x * 4 + y div 16), char_of (y mod 16 * 16 + z div 4)] else None)
               else (case b64_val d of
                       None \<Rightarrow> None
                     | Some u \<Rightarrow>
                         map_option (\<lambda>bs. char_of (x * 4 + y div 16) # char_of (y mod 16 * 16 + z div 4) #
                           char_of (z mod 4 * 64 + u) # bs) (b64_groups s)))
      | _ \<Rightarrow> None)"
| "b64_groups _ = None"

definition base64_DecodeString :: "string \<Rightarrow> goerror + bytes" where
  "base64_DecodeString s =
     (case b64_groups (filter (\<lambda>c. c \<noteq> nl \<and> c \<noteq> cr) s) of
        None \<Rightarrow> Inl (ErrorString ''illegal base64 data'')
      | Some bs \<Rightarrow> Inr bs)"

definition extractEventBytes :: "gjson \<Rightarrow> bytes \<Rightarrow> goerror + bytes" where
  "extractEventBytes gj payload =
     (let b64 = g_String (gj_Get gj payload ''bytes'')
      in if b64 = [] then Inl (ErrorString ''missing bytes field in payload'')
         else wrap_result ''base64 decode'' (base64_DecodeString b64))"

fun bedrock_loop ::
  "gjson \<Rightarrow> (nat \<Rightarrow> goerror option) \<Rightarrow> goerror option \<Rightarrow> nat \<Rightarrow> streamState \<Rightarrow> es_message list \<Rightarrow> StreamChunk list" where
  "bedrock_loop gj cancel err i s [] =
     (case err of None \<Rightarrow> [] | Some e \<Rightarrow> [err_chunk (Wrapf ''anthropic: decode event stream'' [e])])"
| "bedrock_loop gj cancel err i s (msg # msgs) =
     (let msgType = headerValue (es_Headers msg) '':message-type''
      in if msgType = ''exception''
         then [err_chunk (ErrorString (''anthropic: bedrock exception: '' @
                 take 64 (headerValue (es_Headers msg) '':exception-type'') @ '': '' @ take 512 (es_Payload msg)))]
         else if msgType \<noteq> ''event'' then bedrock_loop gj cancel err i s msgs
         else case extractEventBytes gj (es_Payload msg) of
           Inl e \<Rightarrow> [err_chunk (Wrapf ''anthropic: extract event bytes'' [e])]
         | Inr decoded \<Rightarrow>
             let eventType = g_String (gj_Get gj decoded ''type'')
             in if eventType = [] then bedrock_loop gj cancel err i s msgs
                else (case handleEvent gj eventType decoded s of
                        (chunks, s) \<Rightarrow>
                          (case send_chunks cancel i chunks of
                             (out, j, go) \<Rightarrow> out @ (if go then bedrock_loop gj cancel err j s msgs else []))))"

text \<open>\<open>decoder\<close> splits a body into messages and ends with an error unless the body ends between two of them.\<close>

definition readBedrockStream ::
  "gjson \<Rightarrow> (bytes \<Rightarrow> goerror option \<Rightarrow> es_message list \<times> goerror option) \<Rightarrow> (nat \<Rightarrow> goerror option) \<Rightarrow> Response \<Rightarrow> StreamChunk list" where
  "readBedrockStream gj decoder cancel resp =
     (case decoder (rs_Body resp) (rs_BodyErr resp) of (msgs, err) \<Rightarrow> bedrock_loop gj cancel err 0 new_streamState msgs)"

section \<open>The client\<close>

record cloud_Client =
  cc_name :: string
  cc_baseURL :: string
  cc_hosting :: string
  cc_region :: string
  cc_project :: string

definition anthropic_New :: "string \<Rightarrow> string \<Rightarrow> cloud_Client" where
  "anthropic_New name baseURL =
     (let baseURL = (if baseURL = [] then ''https://api.anthropic.com/v1'' else baseURL)
      in \<lparr>cc_name = name, cc_baseURL = strings_TrimRight baseURL (CHR ''/''), cc_hosting = [], cc_region = [], cc_project = []\<rparr>)"

definition anthropic_NewWithHosting :: "string \<Rightarrow> string \<Rightarrow> string \<Rightarrow> string \<Rightarrow> string \<Rightarrow> cloud_Client" where
  "anthropic_NewWithHosting name baseURL hosting region project =
     (anthropic_New name baseURL)\<lparr>cc_hosting := hosting, cc_region := region, cc_project := project\<rparr>"

definition anthropicVersion :: string where "anthropicVersion = ''2023-06-01''"
definition bedrockVersion :: string where "bedrockVersion = ''bedrock-2023-05-31''"

definition isHosted :: "cloud_Client \<Rightarrow> bool" where
  "isHosted c \<longleftrightarrow> cc_hosting c = ''vertex'' \<or> cc_hosting c = ''bedrock''"

definition anthropic_setHeaders :: "cloud_Client \<Rightarrow> header \<Rightarrow> header" where
  "anthropic_setHeaders c h =
     (let h = Header_Set ''content-type'' ''application/json'' h
      in if \<not> isHosted c then Header_Set ''anthropic-version'' anthropicVersion h else h)"

text \<open>\<open>url.PathEscape\<close> keeps the unreserved characters and six more.\<close>

definition path_char :: "char \<Rightarrow> bool" where
  "path_char c \<longleftrightarrow>
     (let n = byte c in
      0x30 \<le> n \<and> n \<le> 0x39 \<or> 0x41 \<le> n \<and> n \<le> 0x5A \<or> 0x61 \<le> n \<and> n \<le> 0x7A \<or>
      n \<in> {0x2D, 0x5F, 0x2E, 0x7E, 0x24, 0x26, 0x2B, 0x3A, 0x3D, 0x40})"

definition url_PathEscape :: "string \<Rightarrow> string" where
  "url_PathEscape s = concat (map (\<lambda>c. if path_char c then [c] else CHR ''%'' # map char_upper (hex2 (byte c))) s)"

definition messagesURL :: "cloud_Client \<Rightarrow> string \<Rightarrow> string" where
  "messagesURL c model =
     (if cc_hosting c = ''vertex''
      then cc_baseURL c @ ''/v1/projects/'' @ cc_project c @ ''/locations/'' @ cc_region c @
           ''/publishers/anthropic/models/'' @ url_PathEscape model @ '':rawPredict''
      else if cc_hosting c = ''bedrock'' then cc_baseURL c @ ''/model/'' @ url_PathEscape model @ ''/invoke''
      else cc_baseURL c @ ''/messages'')"

definition streamingURL :: "cloud_Client \<Rightarrow> string \<Rightarrow> string" where
  "streamingURL c model =
     (if cc_hosting c = ''bedrock'' then cc_baseURL c @ ''/model/'' @ url_PathEscape model @ ''/invoke-with-response-stream''
      else messagesURL c model)"

definition healthURL :: "cloud_Client \<Rightarrow> string" where
  "healthURL c = (if cc_hosting c = ''bedrock'' then cc_baseURL c else messagesURL c [])"

definition enc_hosting :: "(float64 \<Rightarrow> bytes) \<Rightarrow> cloud_Client \<Rightarrow> anthropicRequest \<Rightarrow> jout" where
  "enc_hosting ftext c r =
     (if \<not> isHosted c then OObj ((''model'', OStr (ar_Model r)) # enc_common ftext r)
      else let ver = (if cc_hosting c = ''bedrock'' then bedrockVersion else anthropicVersion)
           in OObj ((''anthropic_version'', OStr ver) # enc_common ftext r))"

definition marshalForHosting :: "(float64 \<Rightarrow> bytes) \<Rightarrow> cloud_Client \<Rightarrow> anthropicRequest \<Rightarrow> goerror + bytes" where
  "marshalForHosting ftext c r = marshal_request ''anthropic'' (enc_hosting ftext c r)"

definition anthropic_ChatCompletion ::
  "(float64 \<Rightarrow> bytes) \<Rightarrow> gjson \<Rightarrow> http_env \<Rightarrow> cloud_Client \<Rightarrow> ChatRequest \<Rightarrow> goerror + ChatResponse" where
  "anthropic_ChatCompletion ftext gj env c req =
     bind_result (marshalForHosting ftext c ((anthropic_translateRequest req)\<lparr>ar_Stream := False\<rparr>)) (\<lambda>body.
     bind_result (exchange ''anthropic'' env ''POST'' (messagesURL c (req_Model req)) (anthropic_setHeaders c Map.empty) body) (\<lambda>resp.
     bind_result (wrap_result ''anthropic: read response'' (read_all (2 ^ 20) resp)) (\<lambda>respBody.
     Inr (anthropic_translateResponse gj respBody))))"

definition anthropic_ChatCompletionStream where
  "anthropic_ChatCompletionStream ftext gj decoder cancel env c req =
     bind_result (marshalForHosting ftext c ((anthropic_translateRequest req)\<lparr>ar_Stream := True\<rparr>)) (\<lambda>body.
     bind_result (exchange ''anthropic'' env ''POST'' (streamingURL c (req_Model req)) (anthropic_setHeaders c Map.empty) body) (\<lambda>resp.
     Inr (if cc_hosting c = ''bedrock'' then readBedrockStream gj decoder cancel resp else anthropic_readStream gj cancel resp)))"

definition anthropic_Embeddings :: "EmbeddingRequest \<Rightarrow> goerror + EmbeddingResponse" where
  "anthropic_Embeddings req = Inl (ErrorString ''anthropic: embeddings not supported'')"

definition anthropic_ListModels :: "goerror + string list" where
  "anthropic_ListModels = Inr [''claude-opus-4-6'', ''claude-sonnet-4-6'', ''claude-haiku-4-5'']"

definition anthropic_HealthCheck :: "http_env \<Rightarrow> cloud_Client \<Rightarrow> goerror option" where
  "anthropic_HealthCheck env c =
     (case bad_url env (healthURL c) of
        Some err \<Rightarrow> Some (Wrapf ''anthropic: health check'' [err])
      | None \<Rightarrow>
          (case http_do env \<lparr>or_Method = ''HEAD'', or_URL = healthURL c, or_Header = anthropic_setHeaders c Map.empty, or_Body = []\<rparr> of
             Inl err \<Rightarrow> Some (Wrapf ''anthropic: health check'' [err])
           | Inr resp \<Rightarrow>
               if rs_StatusCode resp \<ge> 400
               then Some (ErrorString (''anthropic: health check: HTTP '' @ int_text (rs_StatusCode resp)))
               else None))"


section \<open>Event streams\<close>

text \<open>The events of the API that matter here, and the form in which it sends them.\<close>

datatype a_event =
    AStart string string int
  | AText int string
  | AArgs int string
  | ADelta string int
  | AStop
  | AOther string

fun event_name :: "a_event \<Rightarrow> string" where
  "event_name (AStart i m n) = ''message_start''"
| "event_name (AText k t) = ''content_block_delta''"
| "event_name (AArgs k t) = ''content_block_delta''"
| "event_name (ADelta r n) = ''message_delta''"
| "event_name AStop = ''message_stop''"
| "event_name (AOther name) = name"

fun event_fields :: "a_event \<Rightarrow> fields" where
  "event_fields (AStart i m n) =
     [(''type'', OStr ''message_start''), (''message'', OObj [(''id'', OStr i), (''model'', OStr m),
        (''usage'', OObj [(''input_tokens'', enc_int n)])])]"
| "event_fields (AText k t) =
     [(''type'', OStr ''content_block_delta''), (''index'', enc_int k),
      (''delta'', OObj [(''type'', OStr ''text_delta''), (''text'', OStr t)])]"
| "event_fields (AArgs k t) =
     [(''type'', OStr ''content_block_delta''), (''index'', enc_int k),
      (''delta'', OObj [(''type'', OStr ''input_json_delta''), (''partial_json'', OStr t)])]"
| "event_fields (ADelta r n) =
     [(''type'', OStr ''message_delta''), (''delta'', OObj [(''stop_reason'', OStr r)]),
      (''usage'', OObj [(''output_tokens'', enc_int n)])]"
| "event_fields AStop = [(''type'', OStr ''message_stop'')]"
| "event_fields (AOther name) = [(''type'', OStr name)]"

definition event_json :: "a_event \<Rightarrow> bytes" where
  "event_json e = marshal_text (OObj (event_fields e))"

definition event_frame :: "a_event \<Rightarrow> bytes" where
  "event_frame e = ''event: '' @ event_name e @ nl # frame_text (Data (event_json e))"

fun event_ok :: "a_event \<Rightarrow> bool" where
  "event_ok (AStart i m n) \<longleftrightarrow> utf8_valid i \<and> utf8_valid m \<and> in_int64 n"
| "event_ok (AText k t) \<longleftrightarrow> utf8_valid t"
| "event_ok (AArgs k t) \<longleftrightarrow> utf8_valid t \<and> in_int64 k"
| "event_ok (ADelta r n) \<longleftrightarrow> utf8_valid r \<and> in_int64 n"
| "event_ok AStop \<longleftrightarrow> True"
| "event_ok (AOther name) \<longleftrightarrow> name \<in> {''ping'', ''content_block_start'', ''content_block_stop''}"

text \<open>What an event means: the chunks of a relay that knows the message, and what it learns.\<close>

fun event_chunks :: "string \<Rightarrow> string \<Rightarrow> a_event \<Rightarrow> StreamChunk list" where
  "event_chunks i m (AText k t) = [data_chunk (BuildDeltaChunk i m [(''content'', OStr t)] [])]"
| "event_chunks i m (AArgs k t) = [data_chunk (BuildToolCallDeltaChunk i m k t)]"
| "event_chunks i m e = []"

lemma event_names_utf8:
  "utf8_valid ''type''" "utf8_valid ''text''" "utf8_valid ''delta''" "utf8_valid ''partial_json''" "utf8_valid ''stop_reason''"
  "utf8_valid ''input_tokens''" "utf8_valid ''output_tokens''" "utf8_valid ''message_start''" "utf8_valid ''content_block_delta''"
  "utf8_valid ''text_delta''" "utf8_valid ''input_json_delta''" "utf8_valid ''message_delta''" "utf8_valid ''message_stop''"
  "utf8_valid ''ping''" "utf8_valid ''content_block_start''" "utf8_valid ''content_block_stop''"
  by (rule utf8_ascii, simp add: byte_def)+

lemma event_clean: "event_ok e \<Longrightarrow> clean (OObj (event_fields e)) \<and> keys_distinct (OObj (event_fields e))"
  by (cases e) (auto simp: event_names_utf8 enc_int_def int_text_ok)

lemma handle_events:
  assumes "gjson_ok gj" "event_ok e"
  shows "handleEvent gj (event_name e) (event_json e) s =
    (case e of
       AStart i m n \<Rightarrow> ([data_chunk (BuildDeltaChunk i m [(''role'', OStr ''assistant'')] [])], s\<lparr>ss_id := i, ss_model := m, ss_inputTokens := n\<rparr>)
     | ADelta r n \<Rightarrow> ([], s\<lparr>ss_outputTokens := n, ss_stopReason := r\<rparr>)
     | AStop \<Rightarrow> (onMessageStop s, s)
     | _ \<Rightarrow> (event_chunks (ss_id s) (ss_model s) e, s))"
proof -
  note c = event_clean [OF assms(2)]
  note str = gj_str [OF assms(1) conjunct1 [OF c] conjunct2 [OF c], folded event_json_def]
    and int = gj_int [OF assms(1) conjunct1 [OF c] conjunct2 [OF c], folded event_json_def]
  show ?thesis
  proof (cases e)
    case (AStart i m n)
    have "g_String (gj_Get gj (event_json e) ''message.id'') = i" "g_String (gj_Get gj (event_json e) ''message.model'') = m"
      by (rule str, simp add: AStart jval_of.simps)+
    moreover have "g_Int (gj_Get gj (event_json e) ''message.usage.input_tokens'') = n"
      by (rule int) (use assms(2) AStart in \<open>simp_all add: jval_of.simps enc_int_def\<close>)
    ultimately show ?thesis using AStart by (simp add: handleEvent_def onMessageStart_def Let_def)
  next
    case (AText k t)
    have "g_String (gj_Get gj (event_json e) ''delta.type'') = ''text_delta''" "g_String (gj_Get gj (event_json e) ''delta.text'') = t"
      by (rule str, simp add: AText jval_of.simps)+
    then show ?thesis using AText by (simp add: handleEvent_def onContentBlockDelta_def Let_def)
  next
    case (AArgs k t)
    have "g_String (gj_Get gj (event_json e) ''delta.type'') = ''input_json_delta''"
      "g_String (gj_Get gj (event_json e) ''delta.partial_json'') = t"
      by (rule str, simp add: AArgs jval_of.simps)+
    moreover have "g_Int (gj_Get gj (event_json e) ''index'') = k"
      by (rule int) (use assms(2) AArgs in \<open>simp_all add: jval_of.simps enc_int_def\<close>)
    ultimately show ?thesis using AArgs by (simp add: handleEvent_def onContentBlockDelta_def Let_def)
  next
    case (ADelta r n)
    have "g_String (gj_Get gj (event_json e) ''delta.stop_reason'') = r" by (rule str) (simp add: ADelta jval_of.simps)
    moreover have "g_Int (gj_Get gj (event_json e) ''usage.output_tokens'') = n"
      by (rule int) (use assms(2) ADelta in \<open>simp_all add: jval_of.simps enc_int_def\<close>)
    ultimately show ?thesis using ADelta by (simp add: handleEvent_def onMessageDelta_def)
  next
    case (AOther name)
    then show ?thesis using assms(2) by (auto simp: handleEvent_def)
  qed (simp add: handleEvent_def)
qed

text \<open>The lines of an event, and what the loop does with them.\<close>

lemma send_all: "send_chunks (\<lambda>_. None) i cs = (cs, i + length cs, True)"
  by (induction cs arbitrary: i) simp_all

definition event_fits :: "a_event \<Rightarrow> bool" where
  "event_fits e \<longleftrightarrow> event_ok e \<and> length (event_json e) + 6 < maxLineSize"

lemma scan_event:
  assumes "event_fits e"
  shows "scan_lines (event_frame e @ rest) =
    (case scan_lines rest of (ls, long) \<Rightarrow> ((''event: '' @ event_name e) # (''data: '' @ event_json e) # [] # ls, long))"
proof -
  have ok: "payload_ok (event_json e)"
    using assms event_clean obj_text_payload unfolding event_fits_def event_json_def by blast
  have "event_name e \<in> {''message_start'', ''content_block_delta'', ''message_delta'', ''message_stop'', ''ping'', ''content_block_start'',
      ''content_block_stop''}" using assms by (cases e) (auto simp: event_fits_def)
  then have "nl \<notin> set (''event: '' @ event_name e)" "length (''event: '' @ event_name e) < maxLineSize"
    "drop_cr (''event: '' @ event_name e) = ''event: '' @ event_name e"
    by (auto simp: maxLineSize_def drop_cr_def)
  from scan_lines_line [OF this(1,2), of "frame_text (Data (event_json e)) @ rest"] this(3) show ?thesis
    using ok scan_frame [of "Data (event_json e)" rest]
    by (cases "scan_lines rest") (simp add: event_frame_def del: frame_text.simps)
qed

lemma ParseSSELine_event: "ParseSSELine (''event: '' @ name) = (name, [], True)"
  by (simp add: ParseSSELine_def strings_TrimPrefix_def strings_HasPrefix_def)

lemma loop_event:
  assumes "event_ok e"
  shows "anthropic_loop gj (\<lambda>_. None) err i s ev ((''event: '' @ event_name e) # (''data: '' @ event_json e) # [] # ls) =
    fst (handleEvent gj (event_name e) (event_json e) s) @
    anthropic_loop gj (\<lambda>_. None) err (i + length (fst (handleEvent gj (event_name e) (event_json e) s)))
      (snd (handleEvent gj (event_name e) (event_json e) s)) [] ls"
proof -
  have "event_name e \<noteq> []" using assms by (cases e) auto
  moreover have "event_json e \<noteq> []" by (simp add: event_json_def)
  ultimately show ?thesis
    using ParseSSELine_event [of "event_name e"] ParseSSELine_frames(1) ParseSSELine_frames(3) [of "event_json e"]
    by (simp add: send_all split: prod.split)
qed


lemmas event_lengths = length_quote [of "''type''"] length_quote [of "''text''"] length_quote [of "''delta''"] length_quote [of "''id''"]
  length_quote [of "''model''"] length_quote [of "''usage''"] length_quote [of "''message''"] length_quote [of "''index''"]
  length_quote [of "''partial_json''"] length_quote [of "''stop_reason''"] length_quote [of "''input_tokens''"]
  length_quote [of "''output_tokens''"] length_quote [of "''message_start''"] length_quote [of "''content_block_delta''"]
  length_quote [of "''text_delta''"] length_quote [of "''input_json_delta''"] length_quote [of "''message_delta''"]
  length_quote [of "''message_stop''"] length_quote [of "''ping''"]

definition mid_event :: "a_event \<Rightarrow> bool" where
  "mid_event e \<longleftrightarrow> event_fits e \<and> (case e of AText k t \<Rightarrow> True | AArgs k t \<Rightarrow> True | AOther name \<Rightarrow> True | _ \<Rightarrow> False)"

definition event_body :: "a_event list \<Rightarrow> bytes" where
  "event_body es = concat (map event_frame es)"

definition event_lines :: "a_event list \<Rightarrow> string list" where
  "event_lines es = concat (map (\<lambda>e. [''event: '' @ event_name e, ''data: '' @ event_json e, []]) es)"

lemma scan_events: "\<forall>e\<in>set es. event_fits e \<Longrightarrow> scan_lines (event_body es) = (event_lines es, False)"
  by (induction es) (simp_all add: event_body_def event_lines_def scan_lines_Nil scan_event)

lemma read_events:
  "\<forall>e\<in>set es. event_fits e \<Longrightarrow>
     anthropic_readStream gj cancel \<lparr>rs_StatusCode = st, rs_Header = h, rs_Body = event_body es, rs_BodyErr = err\<rparr> =
     anthropic_loop gj cancel err 0 new_streamState [] (event_lines es)"
  by (simp add: anthropic_readStream_def NewScanner_def scan_events)

lemma event_lines_Cons:
  "event_lines (e # es) = (''event: '' @ event_name e) # (''data: '' @ event_json e) # [] # event_lines es" "event_lines [] = []"
  by (simp_all add: event_lines_def)

lemma loop_handled:
  "event_ok e \<Longrightarrow> handleEvent gj (event_name e) (event_json e) s = (cs, s') \<Longrightarrow>
     anthropic_loop gj (\<lambda>_. None) err i s [] (event_lines (e # es)) =
     cs @ anthropic_loop gj (\<lambda>_. None) err (i + length cs) s' [] (event_lines es)"
  unfolding event_lines_Cons by (subst loop_event) simp_all

lemma loop_mid:
  assumes "gjson_ok gj" "\<forall>e\<in>set es. mid_event e"
  shows "anthropic_loop gj (\<lambda>_. None) err i s [] (event_lines (es @ fs)) =
    concat (map (event_chunks (ss_id s) (ss_model s)) es) @
    anthropic_loop gj (\<lambda>_. None) err (i + length (concat (map (event_chunks (ss_id s) (ss_model s)) es))) s [] (event_lines fs)"
  using assms(2)
proof (induction es arbitrary: i)
  case (Cons e es)
  then have ok: "event_ok e" and mid: "mid_event e" by (simp_all add: mid_event_def event_fits_def)
  have "handleEvent gj (event_name e) (event_json e) s = (event_chunks (ss_id s) (ss_model s) e, s)"
    using handle_events [OF assms(1) ok, of s] mid by (cases e) (simp_all add: mid_event_def)
  then show ?case
    using Cons loop_handled [OF ok, of gj s _ s err i "es @ fs"] by (simp add: add.assoc)
qed simp

text \<open>
  C25. The stream of the Anthropic adapter says what the event stream of the API says, in the chunk format of
  OpenAI: a role chunk when the message starts, one content or tool-call chunk per delta, in order and with the
  identity of the message, then the translated stop reason, the usage (input plus output tokens) and the end
  mark. A connection that breaks before the message ends gives the chunks so far and then the error.
\<close>

theorem anthropic_stream:
  assumes "gjson_ok gj" and "event_fits (AStart i m n)" and "\<forall>e\<in>set mid. mid_event e" and "event_fits (ADelta r k)"
  shows "anthropic_readStream gj (\<lambda>_. None)
      \<lparr>rs_StatusCode = 200, rs_Header = h, rs_Body = event_body (AStart i m n # mid @ [ADelta r k, AStop]), rs_BodyErr = None\<rparr> =
    data_chunk (BuildDeltaChunk i m [(''role'', OStr ''assistant'')] []) # concat (map (event_chunks i m) mid) @
    (let usage = \<lparr>PromptTokens = n, CompletionTokens = k, TotalTokens = wrap64 (n + k)\<rparr>
     in [data_chunk (BuildFinishChunk i m (anthropic_mapStopReason r)),
         (data_chunk (BuildUsageChunk i m usage))\<lparr>chunk_Usage := Some usage\<rparr>, done_chunk]) \<and>
   anthropic_readStream gj (\<lambda>_. None)
      \<lparr>rs_StatusCode = 200, rs_Header = h, rs_Body = event_body (AStart i m n # mid), rs_BodyErr = Some err\<rparr> =
    data_chunk (BuildDeltaChunk i m [(''role'', OStr ''assistant'')] []) # concat (map (event_chunks i m) mid) @
    [err_chunk (Wrapf ''anthropic: read stream'' [err])]"
proof -
  have fits: "event_fits AStop" "\<forall>e\<in>set mid. event_fits e"
    using assms(3) event_lengths by (simp_all add: mid_event_def event_fits_def event_json_def maxLineSize_def)
  have ok: "event_ok (AStart i m n)" "event_ok (ADelta r k)" "event_ok AStop"
    using assms(2,4) unfolding event_fits_def by simp_all
  note h = ok(1) [THEN loop_handled, OF handle_events [OF assms(1) ok(1), unfolded a_event.case]]
    ok(2) [THEN loop_handled, OF handle_events [OF assms(1) ok(2), unfolded a_event.case]]
    ok(3) [THEN loop_handled, OF handle_events [OF assms(1) ok(3), unfolded a_event.case]]
  show ?thesis
    using assms(2,4) fits
    by (simp add: read_events h loop_mid [OF assms(1,3)] loop_mid [OF assms(1,3), of _ _ _ "[]", simplified]
        event_lines_Cons(2) onMessageStop_def Let_def new_streamState_def)
qed

theorem anthropic_stream_witness:
  "anthropic_readStream ref_gjson (\<lambda>_. None)
      \<lparr>rs_StatusCode = 200, rs_Header = Map.empty,
       rs_Body = event_body [AStart ''m1'' ''claude'' 5, AOther ''ping'', AText 0 ''Hello'', AArgs 1 ''{}'', ADelta ''end_turn'' 7, AStop],
       rs_BodyErr = None\<rparr> =
    [data_chunk (BuildDeltaChunk ''m1'' ''claude'' [(''role'', OStr ''assistant'')] []),
     data_chunk (BuildDeltaChunk ''m1'' ''claude'' [(''content'', OStr ''Hello'')] []),
     data_chunk (BuildToolCallDeltaChunk ''m1'' ''claude'' 1 ''{}''),
     data_chunk (BuildFinishChunk ''m1'' ''claude'' ''stop''),
     (data_chunk (BuildUsageChunk ''m1'' ''claude'' \<lparr>PromptTokens = 5, CompletionTokens = 7, TotalTokens = 12\<rparr>))
       \<lparr>chunk_Usage := Some \<lparr>PromptTokens = 5, CompletionTokens = 7, TotalTokens = 12\<rparr>\<rparr>, done_chunk]"
proof -
  have u: "utf8_valid ''m1''" "utf8_valid ''claude''" "utf8_valid ''Hello''" "utf8_valid ''{}''" "utf8_valid ''end_turn''"
    by (rule utf8_ascii, simp add: byte_def)+
  have f: "event_fits (AStart ''m1'' ''claude'' 5)" "event_fits (AText 0 ''Hello'')" "event_fits (AArgs 1 ''{}'')" "event_fits (ADelta ''end_turn'' 7)"
    "event_fits (AOther ''ping'')"
    using event_lengths length_quote [of "''m1''"] length_quote [of "''claude''"] length_quote [of "''Hello''"] length_quote [of "''{}''"]
      length_quote [of "''end_turn''"]
    by (simp_all add: event_fits_def u event_json_def in_int64_def enc_int_def maxLineSize_def int_text_def nat_text.simps)
  show ?thesis
    using anthropic_stream [OF ref_gjson_ok f(1) _ f(4), of "[AOther ''ping'', AText 0 ''Hello'', AArgs 1 ''{}'']" Map.empty] f
    by (simp add: mid_event_def anthropic_mapStopReason_def wrap64_def Let_def)
qed

end
