(* ===== verification/Gemini.thy ===== *)
theory Gemini
  imports Anthropic
begin

text \<open>
  The Gemini adapter (\<open>internal/provider/gemini\<close>): translation of requests (function declarations, system
  instruction, contents), of responses and of streams, which end with the connection and report usage
  cumulatively, and the client for the direct API and for Vertex. It uses the SSE scanner and the chunk
  builders of theory \<open>Sse\<close>.
\<close>

section \<open>Requests\<close>

record geminiPart =
  gp_Text :: string
  gp_FunctionCall :: bytes
  gp_FunctionResponse :: bytes

record geminiContent =
  gc_Role :: string
  gc_Parts :: "geminiPart list"

record geminiGenerationConfig =
  gg_Temperature :: "float64 option"
  gg_TopP :: "float64 option"
  gg_MaxOutputTokens :: "int option"
  gg_StopSequences :: bytes

text \<open>A tool is its function declarations.\<close>

record geminiRequest =
  gr_Contents :: "geminiContent list"
  gr_SystemInstruction :: "geminiContent option"
  gr_Tools :: "bytes list"
  gr_GenerationConfig :: "geminiGenerationConfig option"

definition dec_content_part :: "(string \<times> string) decoder" where
  "dec_content_part = dec_struct (\<lambda>kvs (ty, text). do {
     ty \<leftarrow> dec_field ''type'' dec_string kvs ty;
     text \<leftarrow> dec_field ''text'' dec_string kvs text;
     Some (ty, text) })"

definition extractText :: "bytes \<Rightarrow> string" where
  "extractText raw =
     (if length raw = 0 then []
      else case json_Unmarshal raw dec_string [] of
        Inr s \<Rightarrow> s
      | Inl _ \<Rightarrow>
          (case json_Unmarshal raw (dec_list dec_content_part ([], [])) [] of
             Inr parts \<Rightarrow> concat (map (\<lambda>(ty, text). if ty = ''text'' then text else []) parts)
           | Inl _ \<Rightarrow> raw))"

definition text_part :: "string \<Rightarrow> geminiPart" where
  "text_part text = \<lparr>gp_Text = text, gp_FunctionCall = [], gp_FunctionResponse = []\<rparr>"

definition response_part :: "Message \<Rightarrow> geminiPart" where
  "response_part m =
     \<lparr>gp_Text = [], gp_FunctionCall = [],
      gp_FunctionResponse = marshal_or_nil (OObj [(''name'', OStr (msg_ToolCallID m)), (''response'', ORaw (msg_Content m))])\<rparr>"

definition add_content :: "string \<Rightarrow> geminiPart \<Rightarrow> geminiRequest \<Rightarrow> geminiRequest" where
  "add_content role part out = out\<lparr>gr_Contents := gr_Contents out @ [\<lparr>gc_Role = role, gc_Parts = [part]\<rparr>]\<rparr>"

definition gemini_message :: "geminiRequest \<Rightarrow> Message \<Rightarrow> geminiRequest" where
  "gemini_message out m =
     (if msg_Role m = ''system''
      then out\<lparr>gr_SystemInstruction := Some \<lparr>gc_Role = [], gc_Parts = [text_part (extractText (msg_Content m))]\<rparr>\<rparr>
      else if msg_Role m = ''user'' then add_content ''user'' (text_part (extractText (msg_Content m))) out
      else if msg_Role m = ''assistant'' then add_content ''model'' (text_part (extractText (msg_Content m))) out
      else if msg_Role m = ''tool'' then add_content ''user'' (response_part m) out
      else out)"

definition generation_config :: "ChatRequest \<Rightarrow> geminiGenerationConfig option" where
  "generation_config req =
     (if req_Temperature req \<noteq> None \<or> req_TopP req \<noteq> None \<or> req_MaxTokens req \<noteq> None \<or> length (req_Stop req) > 0
      then Some \<lparr>gg_Temperature = req_Temperature req, gg_TopP = req_TopP req, gg_MaxOutputTokens = req_MaxTokens req,
                 gg_StopSequences = req_Stop req\<rparr>
      else None)"

definition dec_openai_tool :: "bytes decoder" where
  "dec_openai_tool = dec_struct (\<lambda>kvs f. dec_field ''function'' dec_raw kvs f)"

definition function_tools :: "bytes \<Rightarrow> bytes list" where
  "function_tools tools =
     (if length tools > 0
      then (case json_Unmarshal tools (dec_list dec_openai_tool []) [] of
              Inl _ \<Rightarrow> []
            | Inr openaiTools \<Rightarrow>
                (let decls = filter (\<lambda>f. f \<noteq> []) openaiTools
                 in if length decls > 0 then [marshal_or_nil (OArr (map ORaw decls))] else []))
      else [])"

definition gemini_translateRequest :: "ChatRequest \<Rightarrow> geminiRequest" where
  "gemini_translateRequest req =
     foldl gemini_message
       \<lparr>gr_Contents = [], gr_SystemInstruction = None, gr_Tools = function_tools (req_Tools req),
        gr_GenerationConfig = generation_config req\<rparr>
       (req_Messages req)"

definition enc_geminiPart :: "geminiPart \<Rightarrow> jout" where
  "enc_geminiPart p =
     OObj (omit_str ''text'' (gp_Text p) @ omit_raw ''functionCall'' (gp_FunctionCall p) @
           omit_raw ''functionResponse'' (gp_FunctionResponse p))"

definition enc_geminiContent :: "geminiContent \<Rightarrow> jout" where
  "enc_geminiContent c = OObj (omit_str ''role'' (gc_Role c) @ [(''parts'', OArr (map enc_geminiPart (gc_Parts c)))])"

definition enc_geminiGenerationConfig :: "(float64 \<Rightarrow> bytes) \<Rightarrow> geminiGenerationConfig \<Rightarrow> jout" where
  "enc_geminiGenerationConfig ftext g =
     OObj (omit_nil ''temperature'' (enc_float ftext) (gg_Temperature g) @ omit_nil ''topP'' (enc_float ftext) (gg_TopP g) @
           omit_nil ''maxOutputTokens'' enc_int (gg_MaxOutputTokens g) @ omit_raw ''stopSequences'' (gg_StopSequences g))"

definition enc_geminiRequest :: "(float64 \<Rightarrow> bytes) \<Rightarrow> geminiRequest \<Rightarrow> jout" where
  "enc_geminiRequest ftext r =
     OObj ([(''contents'', if gr_Contents r = [] then ONull else OArr (map enc_geminiContent (gr_Contents r)))] @
           omit_nil ''systemInstruction'' enc_geminiContent (gr_SystemInstruction r) @
           (if gr_Tools r = [] then []
            else [(''tools'', OArr (map (\<lambda>d. OObj (omit_raw ''functionDeclarations'' d)) (gr_Tools r)))]) @
           omit_nil ''generationConfig'' (enc_geminiGenerationConfig ftext) (gr_GenerationConfig r))"

section \<open>Responses\<close>

definition gemini_mapStopReason :: "string \<Rightarrow> string" where
  "gemini_mapStopReason reason =
     (if reason = ''STOP'' then ''stop'' else if reason = ''MAX_TOKENS'' then ''length''
      else if reason = ''SAFETY'' then ''content_filter'' else if reason = ''RECITATION'' then ''content_filter''
      else reason)"

text \<open>\<open>String\<close> of a result that does not exist is empty.\<close>

definition part_text :: "gjson \<Rightarrow> bytes \<Rightarrow> string" where
  "part_text gj part = (let text = gj_Get gj part ''text'' in if g_Exists text then g_String text else [])"

definition part_call :: "gjson \<Rightarrow> bytes \<Rightarrow> bytes list" where
  "part_call gj part =
     (let fc = gj_Get gj part ''functionCall'';
          name = g_String (gj_Get gj (g_Raw fc) ''name'')
      in if g_Exists fc then [tool_call_json name name (g_Raw (gj_Get gj (g_Raw fc) ''args''))] else [])"

definition gemini_usage :: "gjson \<Rightarrow> bytes \<Rightarrow> Usage option" where
  "gemini_usage gj data =
     (let u = gj_Get gj data ''usageMetadata''
      in if g_Exists u
         then Some \<lparr>PromptTokens = g_Int (gj_Get gj (g_Raw u) ''promptTokenCount''),
                    CompletionTokens = g_Int (gj_Get gj (g_Raw u) ''candidatesTokenCount''),
                    TotalTokens = g_Int (gj_Get gj (g_Raw u) ''totalTokenCount'')\<rparr>
         else None)"

definition gemini_translateResponse :: "gjson \<Rightarrow> bytes \<Rightarrow> string \<Rightarrow> ChatResponse" where
  "gemini_translateResponse gj data requestModel =
     (let stopReason = gemini_mapStopReason (g_String (gj_Get gj data ''candidates.0.finishReason''));
          parts = gj_ForEach gj data ''candidates.0.content.parts'';
          contentText = concat (map (part_text gj) parts);
          toolCalls = concat (map (part_call gj) parts)
      in \<lparr>resp_ID = ''gemini-'' @ requestModel, resp_Object = ''chat.completion'', resp_Created = 0, resp_Model = requestModel,
          resp_Choices = [\<lparr>ch_Index = 0, ch_Message = build_message contentText toolCalls,
                           ch_FinishReason = finish_reason stopReason toolCalls\<rparr>],
          resp_Usage = gemini_usage gj data, resp_SystemFingerprint = []\<rparr>)"


section \<open>Streams\<close>

text \<open>One line of the stream: the chunk it gives, if any, and the usage last seen.\<close>

definition gemini_chunk :: "gjson \<Rightarrow> string \<Rightarrow> bytes \<Rightarrow> StreamChunk list" where
  "gemini_chunk gj model data =
     (let text = g_String (gj_Get gj data ''candidates.0.content.parts.0.text'');
          finishReason = gemini_mapStopReason (g_String (gj_Get gj data ''candidates.0.finishReason''));
          id' = ''gemini-'' @ model
      in if text \<noteq> [] then [data_chunk (BuildDeltaChunk id' model [(''content'', OStr text)] finishReason)]
         else if finishReason \<noteq> [] then [data_chunk (BuildDeltaChunk id' model [] finishReason)]
         else [])"

fun gemini_loop ::
  "gjson \<Rightarrow> (nat \<Rightarrow> goerror option) \<Rightarrow> string \<Rightarrow> goerror option \<Rightarrow> nat \<Rightarrow> Usage option \<Rightarrow> string list \<Rightarrow> StreamChunk list" where
  "gemini_loop gj cancel model err i lastUsage [] =
     (case err of
        Some e \<Rightarrow> [err_chunk (Wrapf ''gemini: read stream'' [e])]
      | None \<Rightarrow>
          (case lastUsage of
             Some u \<Rightarrow> [(data_chunk (BuildUsageChunk (''gemini-'' @ model) model u))\<lparr>chunk_Usage := Some u\<rparr>]
           | None \<Rightarrow> []) @ [done_chunk])"
| "gemini_loop gj cancel model err i lastUsage (line # lines) =
     (case ParseSSELine line of
        (_, data, ok) \<Rightarrow>
          if \<not> ok then gemini_loop gj cancel model err i lastUsage lines
          else let lastUsage = (case gemini_usage gj data of Some u \<Rightarrow> Some u | None \<Rightarrow> lastUsage)
               in (case send_chunks cancel i (gemini_chunk gj model data) of
                     (out, j, go) \<Rightarrow> out @ (if go then gemini_loop gj cancel model err j lastUsage lines else [])))"

definition gemini_readStream :: "gjson \<Rightarrow> (nat \<Rightarrow> goerror option) \<Rightarrow> Response \<Rightarrow> string \<Rightarrow> StreamChunk list" where
  "gemini_readStream gj cancel resp model =
     (case NewScanner (rs_Body resp) (rs_BodyErr resp) of (lines, err) \<Rightarrow> gemini_loop gj cancel model err 0 None lines)"

section \<open>The client\<close>

definition gemini_New :: "string \<Rightarrow> string \<Rightarrow> cloud_Client" where
  "gemini_New name baseURL =
     (let baseURL = (if baseURL = [] then ''https://generativelanguage.googleapis.com/v1beta'' else baseURL)
      in \<lparr>cc_name = name, cc_baseURL = strings_TrimRight baseURL (CHR ''/''), cc_hosting = [], cc_region = [], cc_project = []\<rparr>)"

definition gemini_NewWithHosting :: "string \<Rightarrow> string \<Rightarrow> string \<Rightarrow> string \<Rightarrow> string \<Rightarrow> cloud_Client" where
  "gemini_NewWithHosting name baseURL hosting region project =
     (gemini_New name baseURL)\<lparr>cc_hosting := hosting, cc_region := region, cc_project := project\<rparr>"

definition generateURL :: "cloud_Client \<Rightarrow> string \<Rightarrow> string \<Rightarrow> string" where
  "generateURL c model action =
     (if cc_hosting c = ''vertex''
      then cc_baseURL c @ ''/v1/projects/'' @ cc_project c @ ''/locations/'' @ cc_region c @ ''/publishers/google/models/'' @
           url_PathEscape model @ '':'' @ action
      else cc_baseURL c @ ''/models/'' @ url_PathEscape model @ '':'' @ action)"

definition modelsURL :: "cloud_Client \<Rightarrow> string" where
  "modelsURL c =
     (if cc_hosting c = ''vertex''
      then cc_baseURL c @ ''/v1/projects/'' @ cc_project c @ ''/locations/'' @ cc_region c @ ''/publishers/google/models''
      else cc_baseURL c @ ''/models'')"

definition json_header :: header where
  "json_header = Header_Set ''Content-Type'' ''application/json'' Map.empty"

definition gemini_ChatCompletion ::
  "(float64 \<Rightarrow> bytes) \<Rightarrow> gjson \<Rightarrow> http_env \<Rightarrow> cloud_Client \<Rightarrow> ChatRequest \<Rightarrow> goerror + ChatResponse" where
  "gemini_ChatCompletion ftext gj env c req =
     bind_result (marshal_request ''gemini'' (enc_geminiRequest ftext (gemini_translateRequest req))) (\<lambda>body.
     bind_result (exchange ''gemini'' env ''POST'' (generateURL c (req_Model req) ''generateContent'') json_header body) (\<lambda>resp.
     bind_result (wrap_result ''gemini: read response'' (read_all (2 ^ 20) resp)) (\<lambda>respBody.
     Inr (gemini_translateResponse gj respBody (req_Model req)))))"

definition gemini_ChatCompletionStream ::
  "(float64 \<Rightarrow> bytes) \<Rightarrow> gjson \<Rightarrow> (nat \<Rightarrow> goerror option) \<Rightarrow> http_env \<Rightarrow> cloud_Client \<Rightarrow> ChatRequest \<Rightarrow> goerror + StreamChunk list" where
  "gemini_ChatCompletionStream ftext gj cancel env c req =
     bind_result (marshal_request ''gemini'' (enc_geminiRequest ftext (gemini_translateRequest req))) (\<lambda>body.
     bind_result (exchange ''gemini'' env ''POST'' (generateURL c (req_Model req) ''streamGenerateContent'' @ ''?alt=sse'') json_header body) (\<lambda>resp.
     Inr (gemini_readStream gj cancel resp (req_Model req))))"

definition embedding_input :: "bytes \<Rightarrow> goerror + string" where
  "embedding_input input =
     (case json_Unmarshal input dec_string [] of
        Inr s \<Rightarrow> Inr s
      | Inl _ \<Rightarrow>
          (case json_Unmarshal input (dec_list dec_string []) [] of
             Inl err \<Rightarrow> Inl (Wrapf ''gemini: unsupported input format'' [err])
           | Inr inputs \<Rightarrow>
               if length inputs \<noteq> 1
               then Inl (ErrorString ''gemini: batch embeddings not supported, provide a single string input'')
               else Inr (hd inputs)))"

definition gemini_Embeddings :: "gjson \<Rightarrow> http_env \<Rightarrow> cloud_Client \<Rightarrow> EmbeddingRequest \<Rightarrow> goerror + EmbeddingResponse" where
  "gemini_Embeddings gj env c req =
     bind_result (embedding_input (emb_Input req)) (\<lambda>inputText.
     bind_result (marshal_request ''gemini'' (OObj [(''content'', OObj [(''parts'', OArr [OObj [(''text'', OStr inputText)]])]),
         (''model'', OStr (''models/'' @ emb_Model req))])) (\<lambda>body.
     bind_result (exchange ''gemini'' env ''POST'' (generateURL c (emb_Model req) ''embedContent'') json_header body) (\<lambda>resp.
     bind_result (wrap_result ''gemini: read response'' (read_all (2 ^ 20) resp)) (\<lambda>respBody.
     let embValues = g_Raw (gj_Get gj respBody ''embedding.values'')
     in if embValues = [] then Inl (ErrorString ''gemini: empty embedding values in response'')
        else Inr \<lparr>embr_Object = ''list'',
                  embr_Data = marshal_or_nil (OArr [OObj [(''embedding'', ORaw embValues), (''index'', enc_int 0), (''object'', OStr ''embedding'')]]),
                  embr_Model = emb_Model req, embr_Usage = None\<rparr>))))"

definition model_id :: "string \<Rightarrow> string" where
  "model_id name =
     (if strings_HasPrefix name ''publishers/google/models/'' then strings_TrimPrefix name ''publishers/google/models/''
      else strings_TrimPrefix name ''models/'')"

definition gemini_ListModels :: "gjson \<Rightarrow> http_env \<Rightarrow> cloud_Client \<Rightarrow> goerror + string list" where
  "gemini_ListModels gj env c =
     bind_result (exchange ''gemini'' env ''GET'' (modelsURL c) Map.empty []) (\<lambda>resp.
     bind_result (wrap_result ''gemini: read response'' (read_all (2 ^ 20) resp)) (\<lambda>respBody.
     let modelsKey = (if cc_hosting c = ''vertex'' then ''publisherModels'' else ''models'')
     in Inr (map (\<lambda>model. model_id (g_String (gj_Get gj model ''name''))) (gj_ForEach gj respBody modelsKey))))"

definition gemini_HealthCheck :: "gjson \<Rightarrow> http_env \<Rightarrow> cloud_Client \<Rightarrow> goerror option" where
  "gemini_HealthCheck gj env c = (case gemini_ListModels gj env c of Inl err \<Rightarrow> Some err | Inr _ \<Rightarrow> None)"

end
