(* ===== verification/Forward.thy ===== *)
theory Forward
  imports Gemini
begin

text \<open>
  Native passthrough of raw requests: \<open>ForwardRequest\<close> of \<open>internal/provider/proxy.go\<close> and the
  \<open>ProxyRequest\<close> methods of the four adapters. The transport and its credentials are part of the network
  (\<open>http_env\<close>). \<open>arrives\<close> says in which pieces the body of a response is read.

  The main result is a noninterference property: whatever the network is, a forwarded request does not
  depend on the credentials and hop-by-hop headers that the client sent.
\<close>

section \<open>Forwarding\<close>

definition hopByHopHeaders :: "string list" where
  "hopByHopHeaders =
     [''Connection'', ''Keep-Alive'', ''Proxy-Authenticate'', ''Proxy-Authorization'', ''Te'', ''Trailer'',
      ''Transfer-Encoding'', ''Upgrade'']"

definition auth_header :: "string \<Rightarrow> bool" where
  "auth_header key \<longleftrightarrow>
     (let lower = strings_ToLower key
      in lower = ''authorization'' \<or> lower = ''x-api-key'' \<or> lower = ''x-goog-api-key'' \<or> lower = ''api-key'')"

definition forwarded_headers :: "header \<Rightarrow> header" where
  "forwarded_headers h = (\<lambda>key. if key \<in> set hopByHopHeaders then None else if auth_header key then None else h key)"

definition forward_url :: "string \<Rightarrow> Request \<Rightarrow> string \<Rightarrow> string" where
  "forward_url baseURL r path =
     baseURL @ path @ (if rq_RawQuery r \<noteq> [] then ''?'' @ rq_RawQuery r else [])"

definition forward_request :: "string \<Rightarrow> (header \<Rightarrow> header) option \<Rightarrow> Request \<Rightarrow> string \<Rightarrow> out_request" where
  "forward_request baseURL setAuth r path =
     (let h = forwarded_headers (rq_Header r)
      in \<lparr>or_Method = rq_Method r, or_URL = forward_url baseURL r path,
          or_Header = (case setAuth of Some f \<Rightarrow> f h | None \<Rightarrow> h), or_Body = rq_Body r\<rparr>)"

text \<open>The headers of the response, added to those of the writer; \<open>Add\<close> makes keys canonical, and those of a response
  are canonical already.\<close>

definition copy_headers :: "header \<Rightarrow> ResponseWriter \<Rightarrow> ResponseWriter" where
  "copy_headers h w =
     w\<lparr>rw_Header := (\<lambda>key.
        if key \<in> set hopByHopHeaders then rw_Header w key
        else case h key of
          Some (v # vs) \<Rightarrow> Some ((case rw_Header w key of Some us \<Rightarrow> us | None \<Rightarrow> []) @ v # vs)
        | _ \<Rightarrow> rw_Header w key)\<rparr>"

text \<open>\<open>Write\<close> fails when the status has no body.\<close>

definition ErrBodyNotAllowed :: goerror where
  "ErrBodyNotAllowed = ErrorString ''http: request method or response status code does not allow body''"

definition write_result :: "bytes \<Rightarrow> ResponseWriter \<Rightarrow> goerror option \<times> ResponseWriter" where
  "write_result data w = (if body_allowed (rw_status w) then (None, Write data w) else (Some ErrBodyNotAllowed, Write data w))"

fun copy_flush :: "goerror option \<Rightarrow> bytes list \<Rightarrow> ResponseWriter \<Rightarrow> goerror option \<times> ResponseWriter" where
  "copy_flush readErr [] w =
     (case readErr of None \<Rightarrow> (None, w) | Some e \<Rightarrow> (Some (Wrapf ''native proxy: read response'' [e]), w))"
| "copy_flush readErr (p # ps) w =
     (if p = [] then copy_flush readErr ps w
      else case write_result p w of
        (Some e, w) \<Rightarrow> (Some (Wrapf ''native proxy: write response'' [e]), w)
      | (None, w) \<Rightarrow> copy_flush readErr ps (Flush w))"

definition maxResponseBody :: nat where
  "maxResponseBody = 32 * 2 ^ 20"

fun copy_pieces :: "goerror option \<Rightarrow> bytes list \<Rightarrow> ResponseWriter \<Rightarrow> goerror option \<times> ResponseWriter" where
  "copy_pieces readErr [] w =
     (case readErr of None \<Rightarrow> (None, w) | Some e \<Rightarrow> (Some (Wrapf ''native proxy: copy response'' [e]), w))"
| "copy_pieces readErr (p # ps) w =
     (if p = [] then copy_pieces readErr ps w
      else case write_result p w of
        (Some e, w) \<Rightarrow> (Some (Wrapf ''native proxy: copy response'' [e]), w)
      | (None, w) \<Rightarrow> copy_pieces readErr ps w)"

text \<open>\<open>strings.Contains\<close>.\<close>

fun strings_Contains :: "string \<Rightarrow> string \<Rightarrow> bool" where
  "strings_Contains [] sub \<longleftrightarrow> sub = []"
| "strings_Contains (c # cs) sub \<longleftrightarrow> take (length sub) (c # cs) = sub \<or> strings_Contains cs sub"

definition needs_flush :: "header \<Rightarrow> bool" where
  "needs_flush h \<longleftrightarrow>
     (let ct = Header_Get h ''Content-Type''
      in strings_Contains ct ''text/event-stream'' \<or> strings_Contains ct ''application/x-ndjson'' \<or>
         strings_Contains ct ''application/stream+json'')"

definition ForwardRequest ::
  "(bytes \<Rightarrow> bytes list) \<Rightarrow> http_env \<Rightarrow> string \<Rightarrow> (header \<Rightarrow> header) option \<Rightarrow> Request \<Rightarrow> string
     \<Rightarrow> ResponseWriter \<Rightarrow> goerror option \<times> ResponseWriter" where
  "ForwardRequest arrives env baseURL setAuth r path w =
     (case bad_url env (forward_url baseURL r path) of
        Some err \<Rightarrow> (Some (Wrapf ''native proxy: create request'' [err]), w)
      | None \<Rightarrow>
          (case http_do env (forward_request baseURL setAuth r path) of
             Inl err \<Rightarrow> (Some (Wrapf ''native proxy: do request'' [err]), http_Error ''upstream request failed'' 502 w)
           | Inr resp \<Rightarrow>
               (let w = WriteHeader (rs_StatusCode resp) (copy_headers (rs_Header resp) w)
                in if needs_flush (rs_Header resp) then copy_flush (rs_BodyErr resp) (arrives (rs_Body resp)) w
                   else copy_pieces (if length (rs_Body resp) < maxResponseBody then rs_BodyErr resp else None)
                          (arrives (take maxResponseBody (rs_Body resp))) w)))"

section \<open>The adapters\<close>

definition openai_ProxyRequest where
  "openai_ProxyRequest arrives env c w r path = ForwardRequest arrives env (oc_baseURL c) None r path w"

definition ollama_ProxyRequest where
  "ollama_ProxyRequest arrives env c w r path = ForwardRequest arrives env (ol_baseURL c @ ''/api'') None r path w"

definition anthropic_ProxyRequest where
  "anthropic_ProxyRequest arrives env c w r path =
     (if cc_hosting c = ''bedrock''
      then (Some (ErrorString ''anthropic: native proxy not supported for bedrock''),
            http_Error ''native proxy not supported for Bedrock hosting'' 501 w)
      else ForwardRequest arrives env (cc_baseURL c)
             (if cc_hosting c \<noteq> ''vertex'' then Some (Header_Set ''anthropic-version'' anthropicVersion) else None) r path w)"

definition gemini_ProxyRequest where
  "gemini_ProxyRequest arrives env c w r path = ForwardRequest arrives env (cc_baseURL c) None r path w"


section \<open>What is forwarded\<close>

text \<open>The headers in which the APIs of the providers and the gateway carry keys, in any case, and those that belong
  to a connection (RFC 2616, 13.5.1).\<close>

definition private_header :: "string \<Rightarrow> bool" where
  "private_header k \<longleftrightarrow>
     map fold_ascii k \<in> {''authorization'', ''x-api-key'', ''x-goog-api-key'', ''api-key''} \<or>
     k \<in> {''Connection'', ''Keep-Alive'', ''Proxy-Authenticate'', ''Proxy-Authorization'', ''Te'', ''Trailer'', ''Transfer-Encoding'', ''Upgrade''}"

text \<open>Two requests that a client could send with different credentials.\<close>

definition same_but_private :: "Request \<Rightarrow> Request \<Rightarrow> bool" where
  "same_but_private r r' \<longleftrightarrow>
     rq_Method r = rq_Method r' \<and> rq_RawQuery r = rq_RawQuery r' \<and> rq_Body r = rq_Body r' \<and>
     (\<forall>k. \<not> private_header k \<longrightarrow> rq_Header r k = rq_Header r' k)"

lemma forwarded_headers_iff: "forwarded_headers h k = (if private_header k then None else h k)"
  by (simp add: forwarded_headers_def private_header_def auth_header_def strings_ToLower_def hopByHopHeaders_def Let_def)

lemma forward_same:
  assumes "same_but_private r r'"
  shows "ForwardRequest arrives env baseURL setAuth r path w = ForwardRequest arrives env baseURL setAuth r' path w"
proof -
  have "forwarded_headers (rq_Header r) = forwarded_headers (rq_Header r')"
    using assms by (intro ext) (simp add: forwarded_headers_iff same_but_private_def)
  moreover have url: "forward_url baseURL r path = forward_url baseURL r' path"
    using assms by (simp add: forward_url_def same_but_private_def)
  ultimately have "forward_request baseURL setAuth r path = forward_request baseURL setAuth r' path"
    using assms by (simp add: forward_request_def same_but_private_def)
  with url show ?thesis by (simp only: ForwardRequest_def)
qed

lemma rw_status_simps [simp]: "rw_status (Write d w) = rw_status w" "rw_status (Flush w) = rw_status w"
  by (auto simp: rw_status_def Write_def WriteHeader_def Flush_def Let_def body_allowed_def split: option.splits)

lemma copy_written:
  assumes "rw_sent w = Some (code, h)" "body_allowed code"
  shows "fst (copy_flush None ps w) = None" "fst (copy_pieces None ps w) = None"
    and "rw_sent (snd (copy_flush None ps w)) = Some (code, h)" "rw_sent (snd (copy_pieces None ps w)) = Some (code, h)"
    and "rw_body (snd (copy_flush None ps w)) = rw_body w @ concat ps" "rw_body (snd (copy_pieces None ps w)) = rw_body w @ concat ps"
  using assms by (induction ps arbitrary: w) (simp_all add: write_result_def Write_sent Flush_sent rw_status_def)



definition ex_native_request :: "string \<Rightarrow> Request" where
  "ex_native_request token = \<lparr>rq_Method = ''POST'', rq_Path = ''/v1beta/models/m:generateContent'', rq_RawQuery = [],
     rq_Header = [''Authorization'' \<mapsto> [token], ''Accept'' \<mapsto> [''*/*'']], rq_Body = ''{}'', rq_BodyErr = None,
     rq_ctx = None\<rparr>"

definition ex_network :: http_env where
  "ex_network = \<lparr>bad_url = (\<lambda>_. None), http_do = (\<lambda>q.
     Inr \<lparr>rs_StatusCode = (if or_Header q ''Authorization'' = None \<and> or_Header q ''Accept'' = Some [''*/*''] then 200 else 400),
          rs_Header = Map.empty, rs_Body = ''ok'', rs_BodyErr = None\<rparr>)\<rparr>"


end
