(* ===== verification/Cache_Key.thy ===== *)
theory Cache_Key
  imports Wire Sha256 "HOL-Library.List_Lexorder" "HOL-Library.Char_ord"
begin

text \<open>
  Keys of the response cache (\<open>internal/server/cache.go\<close>): which requests may be cached, and the key, the
  SHA-256 hash of a canonical JSON text of the caller's key id and the request.

  The text determines the caller and the question that was asked, so that responses are shared only between
  equal questions of one caller, short of a collision of SHA-256.
\<close>

section \<open>The key\<close>

definition isCacheable :: "ChatRequest \<Rightarrow> bool" where
  "isCacheable req =
     (if req_Stream req then False
      else if req_N req > 1 then False
      else if req_Seed req \<noteq> None then True
      else case req_Temperature req of Some t \<Rightarrow> t \<le> 3 / 10 | None \<Rightarrow> False)"

text \<open>\<open>math.Round\<close> rounds halves away from zero.\<close>

definition math_Round :: "float64 \<Rightarrow> float64" where
  "math_Round f = (if f < 0 then - of_int \<lfloor>- f + 1 / 2\<rfloor> else of_int \<lfloor>f + 1 / 2\<rfloor>)"

definition roundFloat :: "float64 \<Rightarrow> float64" where
  "roundFloat f = math_Round (f * 10000) / 10000"

text \<open>The type \<open>stableMessage\<close> has the fields and tags of \<open>Message\<close>.\<close>

definition normalizeMessages :: "Message list \<Rightarrow> jout" where
  "normalizeMessages msgs = OArr (map enc_Message msgs)"

definition stableJSON :: "fields \<Rightarrow> bytes" where
  "stableJSON m = marshal_or_nil (OArr (map (\<lambda>(k, v). OObj [(''key'', OStr k), (''value'', v)]) (sort_key fst m)))"

definition cache_fields :: "(float64 \<Rightarrow> bytes) \<Rightarrow> string \<Rightarrow> ChatRequest \<Rightarrow> fields" where
  "cache_fields ftext keyID req =
     [(''key_id'', OStr keyID), (''model'', OStr (req_Model req)), (''messages'', normalizeMessages (req_Messages req))] @
     omit_nil ''temperature'' (enc_float ftext) (map_option roundFloat (req_Temperature req)) @
     omit_nil ''top_p'' (enc_float ftext) (map_option roundFloat (req_TopP req)) @
     omit_nil ''max_tokens'' enc_int (req_MaxTokens req) @
     omit_raw ''stop'' (req_Stop req) @
     omit_nil ''presence_penalty'' (enc_float ftext) (map_option roundFloat (req_PresencePenalty req)) @
     omit_nil ''frequency_penalty'' (enc_float ftext) (map_option roundFloat (req_FrequencyPenalty req)) @
     omit_nil ''seed'' enc_int (req_Seed req) @
     omit_raw ''tools'' (req_Tools req) @
     omit_raw ''tool_choice'' (req_ToolChoice req) @
     omit_raw ''response_format'' (req_ResponseFormat req)"

definition cache_data :: "(float64 \<Rightarrow> bytes) \<Rightarrow> string \<Rightarrow> ChatRequest \<Rightarrow> bytes" where
  "cache_data ftext keyID req = stableJSON (cache_fields ftext keyID req)"

definition cacheKey :: "(float64 \<Rightarrow> bytes) \<Rightarrow> string \<Rightarrow> ChatRequest \<Rightarrow> string" where
  "cacheKey ftext keyID req = hex_EncodeToString (sha256_Sum256 (cache_data ftext keyID req))"

section \<open>What the key determines\<close>

text \<open>The question a request asks: everything that is sent to a provider and is not fixed by \<open>isCacheable\<close>, the
  parameters with four decimals.\<close>

definition question :: "ChatRequest \<Rightarrow> ChatRequest" where
  "question req = req\<lparr>req_Temperature := map_option roundFloat (req_Temperature req), req_TopP := map_option roundFloat (req_TopP req),
     req_PresencePenalty := map_option roundFloat (req_PresencePenalty req),
     req_FrequencyPenalty := map_option roundFloat (req_FrequencyPenalty req),
     req_N := 0, req_Stream := False, req_StreamOptions := None, req_User := []\<rparr>"

lemma key_field [simp]:
  "json_fold ''key_id'' = ''key_id''" "utf8_valid ''key_id''" "utf8_valid ''key''" "utf8_valid ''value''"
  by (simp_all add: json_fold_lower utf8_ascii byte_def)

lemma omit_subseq: "subseq (map fst (omit_nil name enc x)) [name]" "subseq (map fst (omit_raw name r)) [name]"
  by (simp_all add: omit_nil_def omit_raw_def split: option.split)

definition field_order :: "string list" where
  "field_order = [''key_id'', ''model'', ''messages''] @ [''temperature''] @ [''top_p''] @ [''max_tokens''] @ [''stop''] @
     [''presence_penalty''] @ [''frequency_penalty''] @ [''seed''] @ [''tools''] @ [''tool_choice''] @ [''response_format'']"

lemma cache_fields_subseq: "subseq (map fst (cache_fields ftext keyID req)) field_order"
  unfolding cache_fields_def field_order_def map_append by (intro list_emb_append_mono omit_subseq) simp

lemma cache_fields_distinct: "distinct (map fst (cache_fields ftext keyID req))"
proof -
  have "distinct field_order" by (simp add: field_order_def)
  then show ?thesis using cache_fields_subseq [of ftext keyID req] by (auto simp: subseq_conv_nths distinct_nthsI)
qed

lemma field_order_fold: "\<forall>k \<in> set field_order. json_fold k = k"
  by (simp add: field_order_def)

lemma cache_fields_fold: "map (json_fold \<circ> fst) (cache_fields ftext keyID req) = map fst (cache_fields ftext keyID req)"
proof -
  have "set (map fst (cache_fields ftext keyID req)) \<subseteq> set field_order"
    using cache_fields_subseq [of ftext keyID req] set_nths_subset unfolding subseq_conv_nths by metis
  with field_order_fold show ?thesis by auto
qed

lemma cache_fields_canon:
  "ChatRequest_ok ftext (question req) \<Longrightarrow> utf8_valid keyID \<Longrightarrow> canon (OObj (cache_fields ftext keyID req))"
  by (simp add: cache_fields_def ChatRequest_ok_def question_def normalizeMessages_def ball_Un canon_omit(2) canon_Message
      list_all_iff) (intro conjI canon_omit_nil; simp)

lemma decode_fields:
  assumes "ChatRequest_ok ftext (question req)"
  shows "rereads (OObj (cache_fields ftext keyID req)) dec_ChatRequest zero_ChatRequest (question req)"
  using assms unfolding rereads_def dec_ChatRequest_def dec_struct_fields ChatRequest_ok_def question_def zero_ChatRequest_def cache_fields_def
    normalizeMessages_def
  by (simp add: reread_simps reread_messages del: settle.simps(2) case_map_option split del: if_split cong: if_cong option.case_cong)

lemma decode_key:
  "dec_field ''key_id'' dec_string (jfields (cache_fields ftext keyID req)) [] = Some keyID"
  unfolding cache_fields_def by (simp add: reread_simps split del: if_split cong: if_cong option.case_cong)


text \<open>A reader of members whose names differ does not see their order.\<close>

lemma short_mset_eq: "mset xs = mset ys \<Longrightarrow> length xs \<le> 1 \<Longrightarrow> xs = ys"
  by (cases xs) auto

lemma obj_values_perm:
  assumes "mset kvs = mset kvs'" and "distinct (map (json_fold \<circ> fst) kvs)"
  shows "obj_values name kvs = obj_values name kvs'"
proof -
  let ?P = "\<lambda>kv. json_fold (fst kv) = json_fold name"
  have "length (filter ?P kvs) \<le> 1" using assms(2) by (induction kvs) (auto simp: filter_empty_conv image_iff)
  moreover have "mset (filter ?P kvs) = mset (filter ?P kvs')" using assms(1) by simp
  ultimately have "filter ?P kvs = filter ?P kvs'" by (intro short_mset_eq)
  then show ?thesis by (simp add: obj_values_def case_prod_unfold)
qed

lemma dec_field_cong: "(\<And>n. obj_values n kvs = obj_values n kvs') \<Longrightarrow> dec_field name d kvs = dec_field name d kvs'"
  by (simp add: fun_eq_iff dec_field_def)

lemma sorted_fields:
  "obj_values n (jfields (sort_key fst (cache_fields ftext keyID req))) = obj_values n (jfields (cache_fields ftext keyID req))"
proof (rule obj_values_perm)
  have "distinct (map (json_fold \<circ> fst) (cache_fields ftext keyID req))"
    using cache_fields_distinct cache_fields_fold by metis
  then have "distinct (map (json_fold \<circ> fst) (sort_key fst (cache_fields ftext keyID req)))"
    by (metis mset_map mset_sort mset_eq_imp_distinct_iff)
  then show "distinct (map (json_fold \<circ> fst) (jfields (sort_key fst (cache_fields ftext keyID req))))"
    by (simp add: jfields_def comp_def case_prod_unfold)
qed (simp add: jfields_def)

text \<open>What can be read from the text: the caller and the question.\<close>

definition stable_list :: "fields \<Rightarrow> jout" where
  "stable_list m = OArr (map (\<lambda>(k, v). OObj [(''key'', OStr k), (''value'', v)]) (sort_key fst m))"

lemma stable_list_canon: "canon (OObj m) \<Longrightarrow> canon (stable_list m)"
  by (auto simp: stable_list_def)

lemma stable_text:
  assumes "canon (OObj m)"
  shows "stableJSON m = marshal_text (stable_list m)" and "json_parse (stableJSON m) = Some (jval_of (settle (stable_list m)))"
  using marshal_canon [OF stable_list_canon [OF assms]]
  by (simp_all add: stableJSON_def stable_list_def marshal_or_nil_def)

lemma stable_list_inj:
  assumes "canon (OObj m)" "canon (OObj m')" "stableJSON m = stableJSON m'"
  shows "jfields (sort_key fst m) = jfields (sort_key fst m')"
proof -
  have "jval_of (settle (stable_list m)) = jval_of (settle (stable_list m'))"
    using stable_text(2) [OF assms(1)] stable_text(2) [OF assms(2)] assms(3) by simp
  then have "settle (stable_list m) = settle (stable_list m')"
    using jout_of_jval_of canon_settle [OF stable_list_canon [OF assms(1)]] canon_settle [OF stable_list_canon [OF assms(2)]] by metis
  moreover have "settle (stable_list m) =
      OArr (map (\<lambda>(k, v). OObj [(''key'', OStr k), (''value'', v)]) (map (\<lambda>(k, v). (k, settle v)) (sort_key fst m)))" for m
    by (simp add: stable_list_def comp_def case_prod_unfold)
  moreover have "inj (\<lambda>(k, v). OObj [(''key'', OStr k), (''value'', v)])" by (simp add: inj_def)
  ultimately have "map (\<lambda>(k, v). (k, settle v)) (sort_key fst m) = map (\<lambda>(k, v). (k, settle v)) (sort_key fst m')"
    by (simp only: jout.inject inj_map_eq_map)
  then have "map (\<lambda>(k, v). (k, jval_of v)) (map (\<lambda>(k, v). (k, settle v)) (sort_key fst m)) =
      map (\<lambda>(k, v). (k, jval_of v)) (map (\<lambda>(k, v). (k, settle v)) (sort_key fst m'))" by simp
  then show ?thesis by (simp add: jfields_def comp_def case_prod_unfold)
qed

definition asks :: "(float64 \<Rightarrow> bytes) \<Rightarrow> string \<Rightarrow> ChatRequest \<Rightarrow> bool" where
  "asks ftext keyID req \<longleftrightarrow> utf8_valid keyID \<and> ChatRequest_ok ftext (question req)"

lemma cache_data_inj:
  assumes "asks ftext keyID req" "asks ftext keyID' req'" "cache_data ftext keyID req = cache_data ftext keyID' req'"
  shows "keyID = keyID' \<and> question req = question req'"
proof -
  let ?m = "cache_fields ftext keyID req" and ?m' = "cache_fields ftext keyID' req'"
  have "canon (OObj ?m)" "canon (OObj ?m')" using assms(1,2) cache_fields_canon unfolding asks_def by blast+
  with assms(3) have "jfields (sort_key fst ?m) = jfields (sort_key fst ?m')"
    unfolding cache_data_def by (rule_tac stable_list_inj)
  then have v: "obj_values n (jfields ?m) = obj_values n (jfields ?m')" for n
    using sorted_fields by metis
  have "Some keyID = Some keyID'"
    using decode_key [of ftext keyID req] decode_key [of ftext keyID' req'] dec_field_cong [of "jfields ?m" "jfields ?m'", OF v] by metis
  moreover have "dec_ChatRequest (jval_of (settle (OObj ?m))) zero_ChatRequest = dec_ChatRequest (jval_of (settle (OObj ?m'))) zero_ChatRequest"
    unfolding dec_ChatRequest_def dec_struct_fields dec_field_cong [of "jfields ?m" "jfields ?m'", OF v] by (rule refl)
  then have "Some (question req) = Some (question req')"
    using decode_fields [of ftext req keyID] decode_fields [of ftext req' keyID'] assms(1,2) unfolding rereads_def asks_def by simp
  ultimately show ?thesis by simp
qed


lemma hex_nibble_inj:
  assumes "hex_nibble a = hex_nibble b" "a < 16" "b < 16"
  shows "a = b"
proof -
  have n: "byte (hex_nibble k) = (if k < 10 then 0x30 + k else 0x57 + k)" if "k < 16" for k
    using that by (simp add: hex_nibble_def)
  have "(if a < 10 then 0x30 + a else 0x57 + a) = (if b < 10 then 0x30 + b else 0x57 + b)"
    using n [OF assms(2)] n [OF assms(3)] assms(1) by metis
  then show ?thesis by (cases "a < 10"; cases "b < 10") simp_all
qed

lemma hex_inj: "hex_EncodeToString s = hex_EncodeToString t \<Longrightarrow> s = t"
proof (induction s arbitrary: t)
  case Nil
  then show ?case by (cases t) (simp_all add: hex_EncodeToString_def)
next
  case (Cons c s)
  then obtain d t' where t: "t = d # t'" by (cases t) (auto simp: hex_EncodeToString_def)
  have n: "byte x div 16 < 16" "byte x mod 16 < 16" for x using byte_less [of x] by (simp_all add: less_mult_imp_div_less del: byte_less)
  have e: "hex_EncodeToString (x # xs) = hex_nibble (byte x div 16) # hex_nibble (byte x mod 16) # hex_EncodeToString xs" for x xs
    by (simp add: hex_EncodeToString_def byte_def)
  have "byte c div 16 = byte d div 16" "byte c mod 16 = byte d mod 16" "s = t'"
    using Cons n hex_nibble_inj unfolding t e by auto
  then have "byte c = byte d" by (metis div_mult_mod_eq)
  then show ?case using t \<open>s = t'\<close> by (simp add: char_eq_byte)
qed


text \<open>Requests that differ in the user only.\<close>

definition ex_question :: ChatRequest where
  "ex_question = zero_ChatRequest\<lparr>req_Model := ''gpt-4o'', req_Seed := Some 7\<rparr>"


end
