(* ===== verification/Server.thy ===== *)
theory Server
  imports Sse Cache_Key Rate_Limit
begin

text \<open>
  The HTTP layer (\<open>internal/server\<close>): responses, the middleware chain, and the handlers of the OpenAI-format API
  (\<open>proxy.go\<close>, \<open>embeddings.go\<close>, \<open>models.go\<close>, \<open>health.go\<close>).

  As in the code, the services a handler calls are the fields of \<open>Deps\<close>; here they are functions on a world
  that holds their state. The rate limiters are those of theory \<open>Rate_Limit\<close>; their registry and the request
  metadata are the rest of the state of the server. A handler returns or panics.

  What a request meets on its way is in \<open>env\<close>: \<open>ev_now i\<close> is the reading of the clock at the \<open>i\<close>-th place that reads
  it, \<open>ev_uuid\<close> the fresh id (none: the generator fails and \<open>uuid.Must\<close> panics), \<open>ev_sched\<close> what the \<open>select\<close> of the
  stream loop takes.
\<close>

section \<open>Dependencies and state\<close>

record 'w Cache =
  ca_Get :: "string \<Rightarrow> 'w \<Rightarrow> bytes option \<times> 'w"
  ca_Set :: "string \<Rightarrow> bytes \<Rightarrow> duration \<Rightarrow> 'w \<Rightarrow> 'w"
  ca_Purge :: "'w \<Rightarrow> 'w"

record 'w QuotaChecker =
  qc_Check :: "string \<Rightarrow> float64 \<Rightarrow> 'w \<Rightarrow> bool \<times> 'w"
  qc_Consume :: "string \<Rightarrow> float64 \<Rightarrow> 'w \<Rightarrow> 'w"

record 'w Deps =
  d_Auth :: "Request \<Rightarrow> 'w \<Rightarrow> (goerror + Identity) \<times> 'w"
  d_ChatCompletion :: "ChatRequest \<Rightarrow> 'w \<Rightarrow> (goerror + ChatResponse) \<times> ChatRequest \<times> 'w"
  d_ChatCompletionStream :: "ChatRequest \<Rightarrow> 'w \<Rightarrow> (goerror + StreamChunk list) \<times> ChatRequest \<times> 'w"
  d_Embeddings :: "EmbeddingRequest \<Rightarrow> 'w \<Rightarrow> (goerror + EmbeddingResponse) \<times> EmbeddingRequest \<times> 'w"
  d_ListModels :: "'w \<Rightarrow> (goerror + string list) \<times> 'w"
  d_CacheTTL :: "(string \<Rightarrow> 'w \<Rightarrow> duration \<times> 'w) option"
  d_Usage :: "(UsageRecord \<Rightarrow> 'w \<Rightarrow> 'w) option"
  d_TokenCounter :: "(string \<Rightarrow> Message list \<Rightarrow> int) option"
  d_Cache :: "'w Cache option"
  d_Quota :: "'w QuotaChecker option"
  d_ReadyCheck :: "('w \<Rightarrow> goerror option) option"
  d_Metrics :: bool
  d_DefaultRPM :: int
  d_DefaultTPM :: int

record 'w server =
  sv_limiters :: "limiter_Registry option"
  sv_meta :: meta_store
  sv_world :: 'w

datatype sel = SelRecv | SelTick | SelDone

record env =
  ev_now :: "nat \<Rightarrow> gotime"
  ev_uuid :: "string option"
  ev_sched :: "sel list"
  ev_ftext :: "float64 \<Rightarrow> bytes"

datatype outcome = Returned | Panicked string

type_synonym 'w handler = "Request \<Rightarrow> 'w server \<Rightarrow> ResponseWriter \<Rightarrow> outcome \<times> 'w server \<times> ResponseWriter"

definition in_world :: "('w \<Rightarrow> 'a \<times> 'w) \<Rightarrow> 'w server \<Rightarrow> 'a \<times> 'w server" where
  "in_world f s = (case f (sv_world s) of (x, wd) \<Rightarrow> (x, s\<lparr>sv_world := wd\<rparr>))"

definition identity_of :: "Request \<Rightarrow> 'w server \<Rightarrow> Identity option" where
  "identity_of r s = IdentityFromContext (sv_meta s) (rq_ctx r)"

section \<open>Responses\<close>

definition jsonCT :: "string list" where
  "jsonCT = [''application/json'']"

definition writeJSON :: "int \<Rightarrow> jout \<Rightarrow> ResponseWriter \<Rightarrow> ResponseWriter" where
  "writeJSON status v w =
     (case json_marshal v of
        None \<Rightarrow> w
      | Some data \<Rightarrow> Write data (WriteHeader status (set_header ''Content-Type'' jsonCT w)))"

definition errorResponse :: "string \<Rightarrow> jout" where
  "errorResponse msg = OObj [(''error'', OObj [(''message'', OStr msg), (''type'', OStr ''invalid_request_error'')])]"

definition errorStatus :: "goerror \<Rightarrow> int" where
  "errorStatus err =
     (if errors_Is err (Sentinel ErrUnauthorized) \<or> errors_Is err (Sentinel ErrKeyExpired) then 401
      else if errors_Is err (Sentinel ErrForbidden) \<or> errors_Is err (Sentinel ErrModelNotAllowed) \<or> errors_Is err (Sentinel ErrKeyBlocked) then 403
      else if errors_Is err (Sentinel ErrNotFound) then 404
      else if errors_Is err (Sentinel ErrRateLimited) then 429
      else if errors_Is err (Sentinel ErrConflict) then 409
      else if errors_Is err (Sentinel ErrBadRequest) then 400
      else 500)"

definition writeUpstreamError :: "goerror \<Rightarrow> ResponseWriter \<Rightarrow> ResponseWriter" where
  "writeUpstreamError err w =
     (let status = errorStatus err in writeJSON status (errorResponse (http_StatusText status)) w)"

definition maxRequestBody :: nat where
  "maxRequestBody = 4 * 2 ^ 20"

definition decodeRequestBody :: "'a decoder \<Rightarrow> 'a \<Rightarrow> Request \<Rightarrow> ResponseWriter \<Rightarrow> 'a option \<times> ResponseWriter" where
  "decodeRequestBody d zero r w =
     (case read_limited maxRequestBody r of
        Inl err \<Rightarrow> (None, writeJSON 400 (errorResponse ''invalid request body'') w)
      | Inr body \<Rightarrow>
          (case json_Unmarshal body d zero of
             Inl err \<Rightarrow> (None, writeJSON 400 (errorResponse ''invalid request body'') w)
           | Inr v \<Rightarrow> (Some v, w)))"

section \<open>Middleware\<close>

definition securityHeaders :: "'w handler \<Rightarrow> 'w handler" where
  "securityHeaders next r s w =
     next r s (set_header ''X-Frame-Options'' [''DENY''] (set_header ''X-Content-Type-Options'' [''nosniff''] w))"

definition recovery :: "'w handler \<Rightarrow> 'w handler" where
  "recovery next r s w =
     (case next r s w of
        (Panicked e, s, w) \<Rightarrow> (Returned, s, writeJSON 500 (errorResponse ''internal server error'') w)
      | (Returned, s, w) \<Rightarrow> (Returned, s, w))"

definition maxRequestIDLen :: nat where
  "maxRequestIDLen = 128"

definition token_char :: "char \<Rightarrow> bool" where
  "token_char c \<longleftrightarrow>
     (let n = byte c in
      0x61 \<le> n \<and> n \<le> 0x7A \<or> 0x41 \<le> n \<and> n \<le> 0x5A \<or> 0x30 \<le> n \<and> n \<le> 0x39 \<or> c = CHR ''.'' \<or> c = CHR ''_'' \<or> c = CHR ''-'')"

definition isValidToken :: "string \<Rightarrow> nat \<Rightarrow> bool" where
  "isValidToken s maxLen = (if length s = 0 \<or> length s > maxLen then False else list_all token_char s)"

definition isValidRequestID :: "string \<Rightarrow> bool" where
  "isValidRequestID s = isValidToken s maxRequestIDLen"

definition request_id :: "env \<Rightarrow> Request \<Rightarrow> string option" where
  "request_id ev r =
     (case rq_Header r ''X-Request-Id'' of
        Some (v # _) \<Rightarrow> if isValidRequestID v then Some v else ev_uuid ev
      | _ \<Rightarrow> ev_uuid ev)"

definition requestID :: "env \<Rightarrow> 'w handler \<Rightarrow> 'w handler" where
  "requestID ev next r s w =
     (case request_id ev r of
        None \<Rightarrow> (Panicked ''uuid'', s, w)
      | Some i \<Rightarrow>
          (case ContextWithRequestID (sv_meta s) i of
             (ms, ctx) \<Rightarrow> next (r\<lparr>rq_ctx := ctx\<rparr>) (s\<lparr>sv_meta := ms\<rparr>) (set_header ''X-Request-Id'' [i] w)))"

definition authenticate :: "'w Deps \<Rightarrow> 'w handler \<Rightarrow> 'w handler" where
  "authenticate dp next r s w =
     (case in_world (d_Auth dp r) s of
        (Inl err, s) \<Rightarrow> (Returned, s, writeJSON (errorStatus err) (errorResponse (error_text err)) w)
      | (Inr identity, s) \<Rightarrow>
          (case ContextWithIdentity (sv_meta s) (rq_ctx r) identity of
             (ms, ctx) \<Rightarrow> next (r\<lparr>rq_ctx := ctx\<rparr>) (s\<lparr>sv_meta := ms\<rparr>) w))"

text \<open>The effect of the metrics middleware on a response: it looks up the text of the status in a table of 600 entries after the
  handler has returned. What it counts is in \<open>Observability\<close>.\<close>

definition metricsMiddleware :: "'w handler \<Rightarrow> 'w handler" where
  "metricsMiddleware next r s w =
     (case next r s w of
        (Panicked e, s, w) \<Rightarrow> (Panicked e, s, w)
      | (Returned, s, w) \<Rightarrow>
          (if 0 \<le> rw_status w \<and> rw_status w < 600 then (Returned, s, w) else (Panicked ''index out of range'', s, w)))"

definition requirePerm :: "Permission \<Rightarrow> 'w handler \<Rightarrow> 'w handler" where
  "requirePerm perm next r s w =
     (case identity_of r s of
        None \<Rightarrow> (Returned, s, writeJSON 401 (errorResponse ''unauthorized'') w)
      | Some identity \<Rightarrow>
          if \<not> Can identity perm then (Returned, s, writeJSON 403 (errorResponse ''insufficient permissions'') w)
          else next r s w)"

section \<open>Rate limits and quotas\<close>

definition setRPMHeaders :: "Result \<Rightarrow> ResponseWriter \<Rightarrow> ResponseWriter" where
  "setRPMHeaders res w =
     (if res_Limit res = 0 then w
      else set_header ''X-Ratelimit-Remaining-Requests'' [int_text (res_Remaining res)]
             (set_header ''X-Ratelimit-Limit-Requests'' [int_text (res_Limit res)] w))"

definition setTPMHeaders :: "Result \<Rightarrow> ResponseWriter \<Rightarrow> ResponseWriter" where
  "setTPMHeaders res w =
     (if res_Limit res = 0 then w
      else set_header ''X-Ratelimit-Remaining-Tokens'' [int_text (res_Remaining res)]
             (set_header ''X-Ratelimit-Limit-Tokens'' [int_text (res_Limit res)] w))"

definition writeRateLimitError :: "Result \<Rightarrow> ResponseWriter \<Rightarrow> ResponseWriter" where
  "writeRateLimitError res w =
     (let w = (if res_RetryAfterSeconds res > 0
               then set_header ''Retry-After'' [int_text (trunc_int (res_RetryAfterSeconds res) + 1)] w else w)
      in writeJSON 429 (errorResponse ''rate limit exceeded'') w)"

text \<open>The limits of an identity, with the defaults of the configuration where it has none.\<close>

definition effective_limits :: "'w Deps \<Rightarrow> Identity \<Rightarrow> Limits" where
  "effective_limits dp i =
     \<lparr>lm_RPM = (if id_RPMLimit i = 0 then d_DefaultRPM dp else id_RPMLimit i),
      lm_TPM = (if id_TPMLimit i = 0 then d_DefaultTPM dp else id_TPMLimit i)\<rparr>"

text \<open>The limiter of an identity, if it has one; \<open>t\<close> is the place of the clock readings.\<close>

definition getLimiter :: "'w Deps \<Rightarrow> env \<Rightarrow> nat \<Rightarrow> Identity option \<Rightarrow> 'w server \<Rightarrow> nat option \<times> 'w server" where
  "getLimiter dp ev t ident s =
     (case (sv_limiters s, ident) of
        (Some reg, Some i) \<Rightarrow>
          (if id_KeyID i = [] then (None, s)
           else let limits = effective_limits dp i
                in if lm_RPM limits = 0 \<and> lm_TPM limits = 0 then (None, s)
                   else (case rl_GetOrCreate (id_KeyID i) (limits, ev_now ev (t + 1), ev_now ev (t + 2)) (ev_now ev t) reg of
                           (l, reg) \<Rightarrow> (Some l, s\<lparr>sv_limiters := Some reg\<rparr>)))
      | _ \<Rightarrow> (None, s))"

text \<open>An operation on the limiter at an address.\<close>

definition with_limiter :: "nat \<Rightarrow> (Limiter \<Rightarrow> 'a \<times> Limiter) \<Rightarrow> 'w server \<Rightarrow> 'a option \<times> 'w server" where
  "with_limiter l f s =
     (case sv_limiters s of
        None \<Rightarrow> (None, s)
      | Some reg \<Rightarrow> (case f (pm_obj reg l) of (x, lr) \<Rightarrow> (Some x, s\<lparr>sv_limiters := Some (pm_write l lr reg)\<rparr>)))"

definition quota_check :: "'w Deps \<Rightarrow> Identity \<Rightarrow> 'w server \<Rightarrow> bool \<times> 'w server" where
  "quota_check dp i s =
     (case d_Quota dp of
        None \<Rightarrow> (True, s)
      | Some q \<Rightarrow> if id_MaxBudget i > 0 then in_world (qc_Check q (id_KeyID i) (id_MaxBudget i)) s else (True, s))"

definition rpm_check :: "'w Deps \<Rightarrow> env \<Rightarrow> Identity \<Rightarrow> 'w server \<Rightarrow> Result option \<times> 'w server" where
  "rpm_check dp ev i s =
     (case getLimiter dp ev 0 (Some i) s of
        (None, s) \<Rightarrow> (None, s)
      | (Some l, s) \<Rightarrow> with_limiter l (\<lambda>lr. AllowRPM lr (ev_now ev 3)) s)"

definition rateLimit :: "'w Deps \<Rightarrow> env \<Rightarrow> 'w handler \<Rightarrow> 'w handler" where
  "rateLimit dp ev next r s w =
     (case identity_of r s of
        None \<Rightarrow> next r s w
      | Some i \<Rightarrow>
          if id_KeyID i = [] then next r s w
          else (case quota_check dp i s of
                  (False, s) \<Rightarrow> (Returned, s, writeJSON 429 (errorResponse ''quota exceeded'') w)
                | (True, s) \<Rightarrow>
                    (case rpm_check dp ev i s of
                       (None, s) \<Rightarrow> next r s w
                     | (Some res, s) \<Rightarrow>
                         if \<not> res_Allowed res then (Returned, s, writeRateLimitError res (setRPMHeaders res w))
                         else next r s (setRPMHeaders res w))))"

definition tpm_check :: "'w Deps \<Rightarrow> env \<Rightarrow> Identity option \<Rightarrow> int \<Rightarrow> 'w server \<Rightarrow> Result option \<times> 'w server" where
  "tpm_check dp ev ident estimated s =
     (case getLimiter dp ev 4 ident s of
        (None, s) \<Rightarrow> (None, s)
      | (Some l, s) \<Rightarrow> with_limiter l (\<lambda>lr. ConsumeTPM lr estimated (ev_now ev 7)) s)"

definition consumeTPM ::
  "'w Deps \<Rightarrow> env \<Rightarrow> Identity option \<Rightarrow> int \<Rightarrow> 'w server \<Rightarrow> ResponseWriter \<Rightarrow> bool \<times> 'w server \<times> ResponseWriter" where
  "consumeTPM dp ev ident estimated s w =
     (case tpm_check dp ev ident estimated s of
        (None, s) \<Rightarrow> (True, s, w)
      | (Some res, s) \<Rightarrow>
          if \<not> res_Allowed res then (False, s, writeRateLimitError res (setTPMHeaders res w))
          else (True, s, setTPMHeaders res w))"

definition adjustTPM :: "'w Deps \<Rightarrow> env \<Rightarrow> Identity option \<Rightarrow> int \<Rightarrow> Usage option \<Rightarrow> 'w server \<Rightarrow> 'w server" where
  "adjustTPM dp ev ident estimated usage s =
     (case usage of
        None \<Rightarrow> s
      | Some u \<Rightarrow>
          (case getLimiter dp ev 8 ident s of
             (None, s) \<Rightarrow> s
           | (Some l, s) \<Rightarrow>
               snd (with_limiter l (\<lambda>lr. ((), AdjustTPM lr (wrap64 (estimated - TotalTokens u)))) s)))"


section \<open>Usage and cache\<close>

definition estimateCost :: "string \<Rightarrow> Usage option \<Rightarrow> float64" where
  "estimateCost model usage = (case usage of None \<Rightarrow> 0 | Some u \<Rightarrow> of_int (TotalTokens u) * (1 / 100000))"

text \<open>The cost is estimated, and charged, for identities with a budget only.\<close>

definition usage_cost :: "'w Deps \<Rightarrow> Identity option \<Rightarrow> string \<Rightarrow> Usage option \<Rightarrow> float64 option" where
  "usage_cost dp ident model usage =
     (case (d_Quota dp, ident, usage) of
        (Some q, Some i, Some u) \<Rightarrow> if id_MaxBudget i > 0 then Some (estimateCost model usage) else None
      | _ \<Rightarrow> None)"

definition usage_record ::
  "'w Deps \<Rightarrow> string \<Rightarrow> gotime \<Rightarrow> Identity option \<Rightarrow> string \<Rightarrow> Usage option \<Rightarrow> duration \<Rightarrow> int \<Rightarrow> bool \<Rightarrow> UsageRecord" where
  "usage_record dp rid now ident model usage elapsed status cached =
     \<lparr>ur_ID = [],
      ur_KeyID = (case ident of Some i \<Rightarrow> id_KeyID i | None \<Rightarrow> []), ur_UserID = (case ident of Some i \<Rightarrow> id_UserID i | None \<Rightarrow> []),
      ur_TeamID = (case ident of Some i \<Rightarrow> id_TeamID i | None \<Rightarrow> []), ur_OrgID = (case ident of Some i \<Rightarrow> id_OrgID i | None \<Rightarrow> []),
      ur_CallerJWTSub = [], ur_CallerService = [], ur_Model = model, ur_ProviderID = [],
      ur_PromptTokens = (case usage of Some u \<Rightarrow> PromptTokens u | None \<Rightarrow> 0),
      ur_CompletionTokens = (case usage of Some u \<Rightarrow> CompletionTokens u | None \<Rightarrow> 0),
      ur_TotalTokens = (case usage of Some u \<Rightarrow> TotalTokens u | None \<Rightarrow> 0),
      ur_CostUSD = (case usage_cost dp ident model usage of Some c \<Rightarrow> c | None \<Rightarrow> 0),
      ur_Cached = cached, ur_LatencyMs = trunc_int (of_int elapsed / 1000000), ur_StatusCode = status, ur_RequestID = rid,
      ur_CreatedAt = now\<rparr>"

definition recordUsage ::
  "'w Deps \<Rightarrow> env \<Rightarrow> Request \<Rightarrow> Identity option \<Rightarrow> string \<Rightarrow> Usage option \<Rightarrow> duration \<Rightarrow> int \<Rightarrow> bool \<Rightarrow> 'w server \<Rightarrow> 'w server" where
  "recordUsage dp ev r ident model usage elapsed status cached s =
     (case d_Usage dp of
        None \<Rightarrow> s
      | Some record_usage \<Rightarrow>
          (let entry = usage_record dp (RequestIDFromContext (sv_meta s) (rq_ctx r)) (ev_now ev 11) ident model usage elapsed status cached;
               s = (case (usage_cost dp ident model usage, d_Quota dp, ident) of
                      (Some cost, Some q, Some i) \<Rightarrow> s\<lparr>sv_world := qc_Consume q (id_KeyID i) cost (sv_world s)\<rparr>
                    | _ \<Rightarrow> s)
           in s\<lparr>sv_world := record_usage entry (sv_world s)\<rparr>))"

definition server_cacheTTL :: "'w Deps \<Rightarrow> ChatRequest \<Rightarrow> 'w server \<Rightarrow> duration \<times> 'w server" where
  "server_cacheTTL dp req s =
     (case d_CacheTTL dp of
        None \<Rightarrow> (5 * 60 * second, s)
      | Some ttl \<Rightarrow> (case in_world (ttl (req_Model req)) s of (t, s) \<Rightarrow> (if t > 0 then t else 5 * 60 * second, s)))"

section \<open>Streams\<close>

definition finishStream ::
  "'w Deps \<Rightarrow> env \<Rightarrow> Request \<Rightarrow> ChatRequest \<Rightarrow> Identity option \<Rightarrow> int \<Rightarrow> Usage option \<Rightarrow> int \<Rightarrow> 'w server \<Rightarrow> 'w server" where
  "finishStream dp ev r req ident estimated usage status s =
     recordUsage dp ev r ident (req_Model req) usage (time_Sub (ev_now ev 13) (ev_now ev 12)) status False
       (adjustTPM dp ev ident estimated usage s)"

text \<open>A chunk, or none if the channel is closed; the answer says whether the stream goes on, and with which usage.\<close>

definition processStreamChunk ::
  "'w Deps \<Rightarrow> env \<Rightarrow> Request \<Rightarrow> StreamChunk option \<Rightarrow> ChatRequest \<Rightarrow> Identity option \<Rightarrow> int \<Rightarrow> Usage option
     \<Rightarrow> 'w server \<Rightarrow> ResponseWriter \<Rightarrow> (Usage option \<times> bool) \<times> 'w server \<times> ResponseWriter" where
  "processStreamChunk dp ev r chunk req ident estimated usage s w =
     (case chunk of
        None \<Rightarrow> ((usage, False), finishStream dp ev r req ident estimated usage 200 s, Flush (writeSSEDone w))
      | Some c \<Rightarrow>
          (case chunk_Err c of
             Some err \<Rightarrow>
               ((usage, False), finishStream dp ev r req ident estimated usage 502 s,
                Flush (writeSSEDone (writeSSEError ''upstream stream error'' w)))
           | None \<Rightarrow>
               (let usage = (case chunk_Usage c of Some u \<Rightarrow> Some u | None \<Rightarrow> usage)
                in if chunk_Done c
                   then ((usage, False), finishStream dp ev r req ident estimated usage 200 s, Flush (writeSSEDone w))
                   else ((usage, True), s, Flush (writeSSEData (chunk_Data c) w)))))"

text \<open>The loop: \<open>keepAlive\<close> says whether the ticker runs, which it does after the first chunk. When the given choices
  are used up, the loop receives.\<close>

function stream_loop ::
  "'w Deps \<Rightarrow> env \<Rightarrow> Request \<Rightarrow> ChatRequest \<Rightarrow> Identity option \<Rightarrow> int \<Rightarrow> bool \<Rightarrow> Usage option \<Rightarrow> sel list \<Rightarrow> StreamChunk list
     \<Rightarrow> 'w server \<Rightarrow> ResponseWriter \<Rightarrow> 'w server \<times> ResponseWriter" where
  "stream_loop dp ev r req ident estimated keepAlive usage sched ch s w =
     (case sched of
        SelDone # _ \<Rightarrow> (s, w)
      | SelTick # rest \<Rightarrow>
          stream_loop dp ev r req ident estimated keepAlive usage rest ch s (if keepAlive then Flush (writeSSEKeepAlive w) else w)
      | _ \<Rightarrow>
          (case ch of
             [] \<Rightarrow> snd (processStreamChunk dp ev r None req ident estimated usage s w)
           | c # cs \<Rightarrow>
               (case processStreamChunk dp ev r (Some c) req ident estimated usage s w of
                  ((usage, go), s, w) \<Rightarrow>
                    if go then stream_loop dp ev r req ident estimated True usage (tl sched) cs s w else (s, w))))"
  by pat_completeness auto
termination
  by (relation "measure (\<lambda>(dp, ev, r, req, ident, estimated, keepAlive, usage, sched, ch, s, w). length sched + length ch)") auto

declare stream_loop.simps [simp del]

definition handleChatCompletionStream ::
  "'w Deps \<Rightarrow> env \<Rightarrow> ChatRequest \<Rightarrow> Identity option \<Rightarrow> int \<Rightarrow> 'w handler" where
  "handleChatCompletionStream dp ev req ident estimated r s w =
     (case d_ChatCompletionStream dp req (sv_world s) of
        (Inl err, req, wd) \<Rightarrow> (Returned, s\<lparr>sv_world := wd\<rparr>, writeUpstreamError err w)
      | (Inr ch, req, wd) \<Rightarrow>
          (case stream_loop dp ev r req ident estimated False None (ev_sched ev) ch (s\<lparr>sv_world := wd\<rparr>) (Flush (writeSSEHeaders w)) of
             (s, w) \<Rightarrow> (Returned, s, w)))"

section \<open>Handlers\<close>

definition model_allowed :: "Identity option \<Rightarrow> string \<Rightarrow> bool" where
  "model_allowed ident model \<longleftrightarrow> (case ident of None \<Rightarrow> True | Some i \<Rightarrow> IsModelAllowed i model)"

definition estimate :: "'w Deps \<Rightarrow> ChatRequest \<Rightarrow> int" where
  "estimate dp req = (case d_TokenCounter dp of None \<Rightarrow> 100 | Some f \<Rightarrow> f (req_Model req) (req_Messages req))"

definition cache_lookup :: "'w Deps \<Rightarrow> env \<Rightarrow> Identity option \<Rightarrow> ChatRequest \<Rightarrow> 'w server \<Rightarrow> bytes option \<times> 'w server" where
  "cache_lookup dp ev ident req s =
     (case (d_Cache dp, ident) of
        (Some c, Some i) \<Rightarrow>
          if \<not> req_Stream req \<and> isCacheable req then in_world (ca_Get c (cacheKey (ev_ftext ev) (id_KeyID i) req)) s
          else (None, s)
      | _ \<Rightarrow> (None, s))"

definition cache_store :: "'w Deps \<Rightarrow> env \<Rightarrow> Identity option \<Rightarrow> ChatRequest \<Rightarrow> ChatResponse \<Rightarrow> 'w server \<Rightarrow> 'w server" where
  "cache_store dp ev ident req resp s =
     (case (d_Cache dp, ident) of
        (Some c, Some i) \<Rightarrow>
          if isCacheable req
          then (case json_marshal (enc_ChatResponse resp) of
                  None \<Rightarrow> s
                | Some data \<Rightarrow>
                    (case server_cacheTTL dp req s of
                       (ttl, s) \<Rightarrow> s\<lparr>sv_world := ca_Set c (cacheKey (ev_ftext ev) (id_KeyID i) req) data ttl (sv_world s)\<rparr>))
          else s
      | _ \<Rightarrow> s)"

definition handleChatCompletion :: "'w Deps \<Rightarrow> env \<Rightarrow> 'w handler" where
  "handleChatCompletion dp ev r s w =
     (case decodeRequestBody dec_ChatRequest zero_ChatRequest r w of
        (None, w) \<Rightarrow> (Returned, s, w)
      | (Some req, w) \<Rightarrow>
          (let ident = identity_of r s
           in if \<not> model_allowed ident (req_Model req) then (Returned, s, writeJSON 403 (errorResponse ''model not allowed'') w)
              else let estimated = estimate dp req
                   in (case consumeTPM dp ev ident estimated s w of
                         (False, s, w) \<Rightarrow> (Returned, s, w)
                       | (True, s, w) \<Rightarrow>
                           (case cache_lookup dp ev ident req s of
                              (Some data, s) \<Rightarrow>
                                (Returned, recordUsage dp ev r ident (req_Model req) None 0 200 True s,
                                 Write data (WriteHeader 200 (set_header ''Content-Type'' jsonCT w)))
                            | (None, s) \<Rightarrow>
                                if req_Stream req then handleChatCompletionStream dp ev req ident estimated r s w
                                else (case d_ChatCompletion dp req (sv_world s) of
                                        (Inl err, req, wd) \<Rightarrow> (Returned, s\<lparr>sv_world := wd\<rparr>, writeUpstreamError err w)
                                      | (Inr resp, req, wd) \<Rightarrow>
                                          (let s = adjustTPM dp ev ident estimated (resp_Usage resp) (s\<lparr>sv_world := wd\<rparr>);
                                               s = cache_store dp ev ident req resp s;
                                               s = recordUsage dp ev r ident (req_Model req) (resp_Usage resp)
                                                     (time_Sub (ev_now ev 13) (ev_now ev 12)) 200 False s
                                           in (Returned, s, writeJSON 200 (enc_ChatResponse resp) w)))))))"

definition handleEmbeddings :: "'w Deps \<Rightarrow> env \<Rightarrow> 'w handler" where
  "handleEmbeddings dp ev r s w =
     (case decodeRequestBody dec_EmbeddingRequest zero_EmbeddingRequest r w of
        (None, w) \<Rightarrow> (Returned, s, w)
      | (Some req, w) \<Rightarrow>
          (let ident = identity_of r s
           in if \<not> model_allowed ident (emb_Model req) then (Returned, s, writeJSON 403 (errorResponse ''model not allowed'') w)
              else (case consumeTPM dp ev ident 100 s w of
                      (False, s, w) \<Rightarrow> (Returned, s, w)
                    | (True, s, w) \<Rightarrow>
                        (case d_Embeddings dp req (sv_world s) of
                           (Inl err, req, wd) \<Rightarrow> (Returned, s\<lparr>sv_world := wd\<rparr>, writeUpstreamError err w)
                         | (Inr resp, req, wd) \<Rightarrow>
                             (let s = adjustTPM dp ev ident 100 (embr_Usage resp) (s\<lparr>sv_world := wd\<rparr>);
                                  s = recordUsage dp ev r ident (emb_Model req) (embr_Usage resp)
                                        (time_Sub (ev_now ev 13) (ev_now ev 12)) 200 False s
                              in (Returned, s, writeJSON 200 (enc_EmbeddingResponse resp) w))))))"

definition enc_modelEntry :: "int \<Rightarrow> string \<Rightarrow> jout" where
  "enc_modelEntry now m =
     OObj [(''id'', OStr m), (''object'', OStr ''model''), (''created'', enc_int now), (''owned_by'', OStr ''system'')]"

definition handleListModels :: "'w Deps \<Rightarrow> env \<Rightarrow> 'w handler" where
  "handleListModels dp ev r s w =
     (case in_world (d_ListModels dp) s of
        (Inl err, s) \<Rightarrow> (Returned, s, writeUpstreamError err w)
      | (Inr models, s) \<Rightarrow>
          (Returned, s, writeJSON 200 (OObj [(''object'', OStr ''list''),
             (''data'', OArr (map (enc_modelEntry (time_Unix (ev_now ev 12))) models))]) w))"

definition plain :: "int \<Rightarrow> bytes \<Rightarrow> ResponseWriter \<Rightarrow> ResponseWriter" where
  "plain status body w = Write body (WriteHeader status (set_header ''Content-Type'' [''text/plain''] w))"

definition handleHealthz :: "'w handler" where
  "handleHealthz r s w = (Returned, s, plain 200 ''ok'' w)"

definition handleReadyz :: "'w Deps \<Rightarrow> 'w handler" where
  "handleReadyz dp r s w =
     (case d_ReadyCheck dp of
        Some check \<Rightarrow>
          (case check (sv_world s) of
             Some err \<Rightarrow> (Returned, s, plain 503 ''not ready'' w)
           | None \<Rightarrow> (Returned, s, plain 200 ''ok'' w))
      | None \<Rightarrow> (Returned, s, plain 200 ''ok'' w))"

text \<open>The chains of \<open>New\<close>. Logging and tracing do not change requests or responses and are left out here (see
  \<open>Observability\<close>); the metrics middleware is there only if metrics are configured.\<close>

definition observed :: "'w Deps \<Rightarrow> 'w handler \<Rightarrow> 'w handler" where
  "observed dp next = (if d_Metrics dp then metricsMiddleware next else next)"

definition probe_api :: "'w handler \<Rightarrow> 'w handler" where
  "probe_api h = securityHeaders (recovery h)"

definition group_api :: "'w Deps \<Rightarrow> env \<Rightarrow> 'w handler \<Rightarrow> 'w handler" where
  "group_api dp ev h = securityHeaders (recovery (requestID ev (observed dp h)))"

definition client_api :: "'w Deps \<Rightarrow> env \<Rightarrow> 'w handler \<Rightarrow> 'w handler" where
  "client_api dp ev h = group_api dp ev (authenticate dp (rateLimit dp ev h))"

end
