(* ===== verification/Admin.thy ===== *)
theory Admin
  imports Server Key_Store Usage_Store
begin

text \<open>
  The admin API (\<open>internal/server/admin.go\<close>, and its routes in \<open>server.go\<close>): providers, keys, routes, cache and usage over
  the store of theories \<open>Sql_Store\<close> and \<open>Usage_Store\<close>.

  The store is a part of the world, reached through \<open>Store\<close>. What a handler meets besides is in \<open>admin_env\<close>: \<open>ae_flt i\<close> is
  the error of the driver at the \<open>i\<close>-th statement, \<open>ae_id\<close> the parameter \<open>{id}\<close> that the router takes from the path,
  the plans the order in which the engine visits rows, \<open>ae_ttext\<close> the text of a time in the zone it carries.
  A slice that is not nil although it is empty is told apart from a nil slice where the response shows the
  difference.
\<close>

section \<open>State\<close>

record 'w Store =
  st_db :: "'w \<Rightarrow> db"
  st_set_db :: "db \<Rightarrow> 'w \<Rightarrow> 'w"
  st_usage :: "'w \<Rightarrow> usage_db"

record 'w Admin =
  ad_Store :: "'w Store"
  ad_KeyInvalidator :: "(string \<Rightarrow> 'w \<Rightarrow> 'w) option"

record admin_env =
  ae_flt :: "nat \<Rightarrow> goerror option"
  ae_id :: string
  ae_random :: "goerror + bytes"
  ae_uuid :: "string option"
  ae_now :: gotime
  ae_plan_keys :: "key_row list \<Rightarrow> key_row list"
  ae_plan_providers :: "provider_row list \<Rightarrow> provider_row list"
  ae_plan_routes :: "route_row list \<Rightarrow> route_row list"
  ae_plan_usage :: "usage_row list \<Rightarrow> usage_row list"
  ae_plan_rollups :: "UsageRollup list \<Rightarrow> UsageRollup list"
  ae_ftext :: "float64 \<Rightarrow> bytes"
  ae_ttext :: "gotime \<Rightarrow> string"

definition the_db :: "'w Admin \<Rightarrow> 'w server \<Rightarrow> db" where
  "the_db ad s = st_db (ad_Store ad) (sv_world s)"

definition put_db :: "'w Admin \<Rightarrow> db \<Rightarrow> 'w server \<Rightarrow> 'w server" where
  "put_db ad d s = s\<lparr>sv_world := st_set_db (ad_Store ad) d (sv_world s)\<rparr>"

definition the_usage :: "'w Admin \<Rightarrow> 'w server \<Rightarrow> usage_db" where
  "the_usage ad s = st_usage (ad_Store ad) (sv_world s)"

section \<open>Queries\<close>

text \<open>\<open>url.ParseQuery\<close>: pairs that do not decode are skipped.\<close>

fun QueryUnescape :: "string \<Rightarrow> string option" where
  "QueryUnescape [] = Some []"
| "QueryUnescape (c # cs) =
     (if c = CHR ''%'' then
        (case cs of
           a # b # rest \<Rightarrow>
             (case (hex_val a, hex_val b) of
                (Some m, Some n) \<Rightarrow> map_option (\<lambda>s. char_of (16 * m + n) # s) (QueryUnescape rest)
              | _ \<Rightarrow> None)
         | _ \<Rightarrow> None)
      else map_option (\<lambda>s. (if c = CHR ''+'' then CHR '' '' else c) # s) (QueryUnescape cs))"

definition query_pair :: "string \<Rightarrow> (string \<times> string) list" where
  "query_pair kv =
     (if kv = [] \<or> CHR '';'' \<in> set kv then []
      else case strings_Cut kv (CHR ''='') of
        (k, v, _) \<Rightarrow> (case (QueryUnescape k, QueryUnescape v) of (Some k, Some v) \<Rightarrow> [(k, v)] | _ \<Rightarrow> []))"

function ParseQuery :: "string \<Rightarrow> (string \<times> string) list" where
  "ParseQuery q =
     (if q = [] then [] else case strings_Cut q (CHR ''&'') of (kv, rest, _) \<Rightarrow> query_pair kv @ ParseQuery rest)"
  by pat_completeness auto
termination
  by (relation "measure length") (auto dest: strings_Cut_length [OF sym])

declare ParseQuery.simps [simp del]

definition Query_Get :: "Request \<Rightarrow> string \<Rightarrow> string" where
  "Query_Get r key = (case map_of (ParseQuery (rq_RawQuery r)) key of Some v \<Rightarrow> v | None \<Rightarrow> '''')"

text \<open>\<open>strconv.Atoi\<close> where the source drops the error: 0 for text that is not a number, the nearest bound for a number out
  of range.\<close>

definition atoi :: "string \<Rightarrow> int" where
  "atoi s =
     (let ds = (if s \<noteq> [] \<and> (hd s = CHR ''-'' \<or> hd s = CHR ''+'') then tl s else s);
          n = (if s \<noteq> [] \<and> hd s = CHR ''-'' then - digits_val ds else digits_val ds)
      in if ds = [] \<or> \<not> list_all is_digit ds then 0 else max (- (2 ^ 63)) (min (2 ^ 63 - 1) n))"

definition parsePagination :: "Request \<Rightarrow> int \<times> int" where
  "parsePagination r =
     (let offset = atoi (Query_Get r ''offset'');
          limit = atoi (Query_Get r ''limit'');
          limit = (if limit \<le> 0 \<or> limit > 100 then 50 else limit);
          offset = (if offset < 0 then 0 else offset)
      in (offset, limit))"

section \<open>Requests and responses\<close>

definition maxAdminBody :: nat where
  "maxAdminBody = 2 ^ 20"

text \<open>\<open>json.NewDecoder(...).Decode\<close> stops at the end of the first value: an object is complete at its brace, another value
  when something follows it or the body ends.\<close>

definition value_closed :: "bytes \<Rightarrow> bool" where
  "value_closed data =
     (case parse_value (2 * length data + 2) data of
        Some (v, rest) \<Rightarrow> rest \<noteq> [] \<or> (case jnode v of JObj _ \<Rightarrow> True | JArr _ \<Rightarrow> True | _ \<Rightarrow> False)
      | None \<Rightarrow> False)"

definition decodeJSON :: "'a decoder \<Rightarrow> 'a \<Rightarrow> Request \<Rightarrow> ResponseWriter \<Rightarrow> 'a option \<times> ResponseWriter" where
  "decodeJSON d zero r w =
     (let data = take maxAdminBody (rq_Body r);
          whole = (length (rq_Body r) \<le> maxAdminBody \<and> rq_BodyErr r = None)
      in case json_Decode data d zero of
           Inl err \<Rightarrow> (None, writeJSON 400 (errorResponse ''invalid request body'') w)
         | Inr v \<Rightarrow>
             if whole \<or> value_closed data then (Some v, w)
             else (None, writeJSON 400 (errorResponse ''invalid request body'') w))"

definition writeAdminError :: "goerror \<Rightarrow> ResponseWriter \<Rightarrow> ResponseWriter" where
  "writeAdminError err w =
     (let status = errorStatus err
      in if errors_Is err (Sentinel ErrNotFound) then writeJSON status (errorResponse ''not found'') w
         else if errors_Is err (Sentinel ErrConflict) then writeJSON status (errorResponse ''conflict'') w
         else writeJSON status (errorResponse ''internal error'') w)"

definition enc_listResponse :: "jout list \<Rightarrow> int \<Rightarrow> int \<Rightarrow> int \<Rightarrow> jout" where
  "enc_listResponse data offset limit tot =
     OObj [(''data'', OArr data),
       (''pagination'', OObj [(''offset'', enc_int offset), (''limit'', enc_int limit), (''total'', enc_int tot)])]"

text \<open>The organisation of the caller, unless the query names another one. Without an identity the dereference panics.\<close>

definition resolveOrgID :: "Identity \<Rightarrow> Request \<Rightarrow> ResponseWriter \<Rightarrow> string option \<times> ResponseWriter" where
  "resolveOrgID identity r w =
     (let orgID = Query_Get r ''org_id'';
          orgID = (if orgID = '''' then id_OrgID identity else orgID)
      in if orgID \<noteq> id_OrgID identity
         then (None, writeJSON 403 (errorResponse ''cannot access resources outside your organization'') w)
         else (Some orgID, w))"

definition parseSinceUntil :: "Request \<Rightarrow> ResponseWriter \<Rightarrow> (string \<times> string) option \<times> ResponseWriter" where
  "parseSinceUntil r w =
     (let since = Query_Get r ''since''; until = Query_Get r ''until''
      in if since \<noteq> '''' \<and> time_Parse since = None then (None, writeJSON 400 (errorResponse ''invalid since format, use RFC3339'') w)
         else if until \<noteq> '''' \<and> time_Parse until = None then (None, writeJSON 400 (errorResponse ''invalid until format, use RFC3339'') w)
         else (Some (since, until), w))"

definition parseExpiresAt :: "string option \<Rightarrow> ResponseWriter \<Rightarrow> gotime option option \<times> ResponseWriter" where
  "parseExpiresAt raw w =
     (case raw of
        None \<Rightarrow> (Some None, w)
      | Some s \<Rightarrow>
          (case time_Parse s of
             None \<Rightarrow> (None, writeJSON 400 (errorResponse ''invalid expires_at format'') w)
           | Some t \<Rightarrow> (Some (Some t), w)))"


section \<open>JSON of the admin types\<close>

text \<open>A nil slice without \<open>omitempty\<close> is \<open>null\<close>.\<close>

definition enc_ProviderConfig :: "bool \<Rightarrow> ProviderConfig \<Rightarrow> jout" where
  "enc_ProviderConfig nil p =
     OObj [(''id'', OStr (pc_ID p)), (''name'', OStr (pc_Name p)), (''type'', OStr (pc_Type p)), (''base_url'', OStr (pc_BaseURL p)),
       (''models'', if nil \<and> pc_Models p = [] then ONull else OArr (map OStr (pc_Models p))),
       (''priority'', enc_int (pc_Priority p)), (''weight'', enc_int (pc_Weight p)), (''enabled'', OBool (pc_Enabled p)),
       (''max_rps'', enc_int (pc_MaxRPS p)), (''timeout_ms'', enc_int (pc_TimeoutMs p))]"

definition zero_ProviderConfig :: ProviderConfig where
  "zero_ProviderConfig =
     \<lparr>pc_ID = [], pc_Name = [], pc_Type = [], pc_BaseURL = [], pc_APIKeyEnc = [], pc_Models = [], pc_Priority = 0, pc_Weight = 0,
      pc_Enabled = False, pc_MaxRPS = 0, pc_TimeoutMs = 0\<rparr>"

text \<open>The decoded provider, and whether its slice of models is nil. The field \<open>APIKeyEnc\<close> is not read.\<close>

definition dec_ProviderConfig :: "(ProviderConfig \<times> bool) decoder" where
  "dec_ProviderConfig = dec_struct (\<lambda>kvs (p, nil). do {
     i \<leftarrow> dec_field ''id'' dec_string kvs (pc_ID p);
     name \<leftarrow> dec_field ''name'' dec_string kvs (pc_Name p);
     typ \<leftarrow> dec_field ''type'' dec_string kvs (pc_Type p);
     url \<leftarrow> dec_field ''base_url'' dec_string kvs (pc_BaseURL p);
     models \<leftarrow> dec_field ''models'' (dec_ptr (dec_list dec_string '''') []) kvs (if nil then None else Some (pc_Models p));
     priority \<leftarrow> dec_field ''priority'' dec_int kvs (pc_Priority p);
     weight \<leftarrow> dec_field ''weight'' dec_int kvs (pc_Weight p);
     enabled \<leftarrow> dec_field ''enabled'' dec_bool kvs (pc_Enabled p);
     rps \<leftarrow> dec_field ''max_rps'' dec_int kvs (pc_MaxRPS p);
     timeout \<leftarrow> dec_field ''timeout_ms'' dec_int kvs (pc_TimeoutMs p);
     Some (\<lparr>pc_ID = i, pc_Name = name, pc_Type = typ, pc_BaseURL = url, pc_APIKeyEnc = pc_APIKeyEnc p,
       pc_Models = (case models of Some ms \<Rightarrow> ms | None \<Rightarrow> []), pc_Priority = priority, pc_Weight = weight, pc_Enabled = enabled,
       pc_MaxRPS = rps, pc_TimeoutMs = timeout\<rparr>, models = None) })"

text \<open>A raw message that is empty but not nil, as the store returns one for a route without targets, cannot be written: it
  stands here as a blank, which is no JSON either.\<close>

definition enc_Route :: "bool \<Rightarrow> Route \<Rightarrow> jout" where
  "enc_Route nil r =
     OObj [(''id'', OStr (rt_ID r)), (''model_alias'', OStr (rt_ModelAlias r)),
       (''targets'', if rt_Targets r = [] \<and> \<not> nil then ORaw '' '' else ORaw (rt_Targets r)),
       (''strategy'', OStr (rt_Strategy r)), (''cache_ttl_s'', enc_int (rt_CacheTTLs r))]"

definition zero_Route :: Route where
  "zero_Route = \<lparr>rt_ID = [], rt_ModelAlias = [], rt_Targets = [], rt_Strategy = [], rt_CacheTTLs = 0\<rparr>"

definition dec_Route :: "Route decoder" where
  "dec_Route = dec_struct (\<lambda>kvs r. do {
     i \<leftarrow> dec_field ''id'' dec_string kvs (rt_ID r);
     alias \<leftarrow> dec_field ''model_alias'' dec_string kvs (rt_ModelAlias r);
     targets \<leftarrow> dec_field ''targets'' dec_raw kvs (rt_Targets r);
     strategy \<leftarrow> dec_field ''strategy'' dec_string kvs (rt_Strategy r);
     ttl \<leftarrow> dec_field ''cache_ttl_s'' dec_int kvs (rt_CacheTTLs r);
     Some \<lparr>rt_ID = i, rt_ModelAlias = alias, rt_Targets = targets, rt_Strategy = strategy, rt_CacheTTLs = ttl\<rparr> })"

definition key_fields :: "admin_env \<Rightarrow> APIKey \<Rightarrow> fields" where
  "key_fields ae k =
     [(''id'', OStr (key_ID k)), (''key_prefix'', OStr (key_Prefix k))] @ omit_str ''user_id'' (key_UserID k) @
     omit_str ''team_id'' (key_TeamID k) @ [(''org_id'', OStr (key_OrgID k)), (''role'', OStr (key_Role k))] @
     (if key_AllowedModels k = [] then [] else [(''allowed_models'', OArr (map OStr (key_AllowedModels k)))]) @
     omit_nil ''rpm_limit'' enc_int (key_RPMLimit k) @ omit_nil ''tpm_limit'' enc_int (key_TPMLimit k) @
     omit_nil ''max_budget'' (enc_float (ae_ftext ae)) (key_MaxBudget k) @
     omit_nil ''expires_at'' (\<lambda>t. OStr (ae_ttext ae t)) (key_ExpiresAt k) @ [(''blocked'', OBool (key_Blocked k))] @
     omit_nil ''last_used_at'' (\<lambda>t. OStr (ae_ttext ae t)) (key_LastUsedAt k) @ [(''created_at'', OStr (ae_ttext ae (key_CreatedAt k)))]"

definition enc_APIKey :: "admin_env \<Rightarrow> APIKey \<Rightarrow> jout" where
  "enc_APIKey ae k = OObj (key_fields ae k)"

definition enc_keyCreateResponse :: "admin_env \<Rightarrow> APIKey \<Rightarrow> string \<Rightarrow> jout" where
  "enc_keyCreateResponse ae k plaintext = OObj (key_fields ae k @ [(''key'', OStr plaintext)])"

record keyCreateRequest =
  kc_OrgID :: string
  kc_UserID :: string
  kc_TeamID :: string
  kc_Role :: string
  kc_AllowedModels :: "string list"
  kc_RPMLimit :: "int option"
  kc_TPMLimit :: "int option"
  kc_MaxBudget :: "float64 option"
  kc_ExpiresAt :: "string option"

definition zero_keyCreateRequest :: keyCreateRequest where
  "zero_keyCreateRequest =
     \<lparr>kc_OrgID = [], kc_UserID = [], kc_TeamID = [], kc_Role = [], kc_AllowedModels = [], kc_RPMLimit = None, kc_TPMLimit = None,
      kc_MaxBudget = None, kc_ExpiresAt = None\<rparr>"

definition dec_keyCreateRequest :: "keyCreateRequest decoder" where
  "dec_keyCreateRequest = dec_struct (\<lambda>kvs q. do {
     org \<leftarrow> dec_field ''org_id'' dec_string kvs (kc_OrgID q);
     user \<leftarrow> dec_field ''user_id'' dec_string kvs (kc_UserID q);
     team \<leftarrow> dec_field ''team_id'' dec_string kvs (kc_TeamID q);
     role \<leftarrow> dec_field ''role'' dec_string kvs (kc_Role q);
     models \<leftarrow> dec_field ''allowed_models'' (dec_list dec_string '''') kvs (kc_AllowedModels q);
     rpm \<leftarrow> dec_field ''rpm_limit'' (dec_ptr dec_int 0) kvs (kc_RPMLimit q);
     tpm \<leftarrow> dec_field ''tpm_limit'' (dec_ptr dec_int 0) kvs (kc_TPMLimit q);
     budget \<leftarrow> dec_field ''max_budget'' (dec_ptr dec_float 0) kvs (kc_MaxBudget q);
     expires \<leftarrow> dec_field ''expires_at'' (dec_ptr dec_string '''') kvs (kc_ExpiresAt q);
     Some \<lparr>kc_OrgID = org, kc_UserID = user, kc_TeamID = team, kc_Role = role, kc_AllowedModels = models, kc_RPMLimit = rpm,
       kc_TPMLimit = tpm, kc_MaxBudget = budget, kc_ExpiresAt = expires\<rparr> })"

text \<open>The update of a key; an absent field is nil.\<close>

record keyUpdate =
  ku_Role :: "string option"
  ku_AllowedModels :: "string list option"
  ku_RPMLimit :: "int option"
  ku_TPMLimit :: "int option"
  ku_MaxBudget :: "float64 option"
  ku_ExpiresAt :: "string option"
  ku_Blocked :: "bool option"

definition zero_keyUpdate :: keyUpdate where
  "zero_keyUpdate = \<lparr>ku_Role = None, ku_AllowedModels = None, ku_RPMLimit = None, ku_TPMLimit = None, ku_MaxBudget = None,
     ku_ExpiresAt = None, ku_Blocked = None\<rparr>"

definition dec_keyUpdate :: "keyUpdate decoder" where
  "dec_keyUpdate = dec_struct (\<lambda>kvs q. do {
     role \<leftarrow> dec_field ''role'' (dec_ptr dec_string '''') kvs (ku_Role q);
     models \<leftarrow> dec_field ''allowed_models'' (dec_ptr (dec_list dec_string '''') []) kvs (ku_AllowedModels q);
     rpm \<leftarrow> dec_field ''rpm_limit'' (dec_ptr dec_int 0) kvs (ku_RPMLimit q);
     tpm \<leftarrow> dec_field ''tpm_limit'' (dec_ptr dec_int 0) kvs (ku_TPMLimit q);
     budget \<leftarrow> dec_field ''max_budget'' (dec_ptr dec_float 0) kvs (ku_MaxBudget q);
     expires \<leftarrow> dec_field ''expires_at'' (dec_ptr dec_string '''') kvs (ku_ExpiresAt q);
     blocked \<leftarrow> dec_field ''blocked'' (dec_ptr dec_bool False) kvs (ku_Blocked q);
     Some \<lparr>ku_Role = role, ku_AllowedModels = models, ku_RPMLimit = rpm, ku_TPMLimit = tpm, ku_MaxBudget = budget,
       ku_ExpiresAt = expires, ku_Blocked = blocked\<rparr> })"

definition enc_UsageRecord :: "admin_env \<Rightarrow> UsageRecord \<Rightarrow> jout" where
  "enc_UsageRecord ae u =
     OObj ([(''id'', OStr (ur_ID u)), (''key_id'', OStr (ur_KeyID u))] @ omit_str ''user_id'' (ur_UserID u) @
       omit_str ''team_id'' (ur_TeamID u) @ [(''org_id'', OStr (ur_OrgID u))] @ omit_str ''caller_jwt_sub'' (ur_CallerJWTSub u) @
       omit_str ''caller_service'' (ur_CallerService u) @
       [(''model'', OStr (ur_Model u)), (''provider_id'', OStr (ur_ProviderID u)), (''prompt_tokens'', enc_int (ur_PromptTokens u)),
        (''completion_tokens'', enc_int (ur_CompletionTokens u)), (''total_tokens'', enc_int (ur_TotalTokens u))] @
       (if ur_CostUSD u = 0 then [] else [(''cost_usd'', enc_float (ae_ftext ae) (ur_CostUSD u))]) @
       [(''cached'', OBool (ur_Cached u)), (''latency_ms'', enc_int (ur_LatencyMs u)), (''status_code'', enc_int (ur_StatusCode u)),
        (''request_id'', OStr (ur_RequestID u)), (''created_at'', OStr (ae_ttext ae (ur_CreatedAt u)))])"

definition enc_UsageRollup :: "admin_env \<Rightarrow> UsageRollup \<Rightarrow> jout" where
  "enc_UsageRollup ae u =
     OObj [(''org_id'', OStr (ro_OrgID u)), (''key_id'', OStr (ro_KeyID u)), (''model'', OStr (ro_Model u)),
       (''period'', OStr (ro_Period u)), (''bucket'', OStr (ro_Bucket u)), (''request_count'', enc_int (ro_RequestCount u)),
       (''prompt_tokens'', enc_int (ro_PromptTokens u)), (''completion_tokens'', enc_int (ro_CompletionTokens u)),
       (''total_tokens'', enc_int (ro_TotalTokens u)), (''cost_usd'', enc_float (ae_ftext ae) (ro_CostUSD u)),
       (''cached_count'', enc_int (ro_CachedCount u))]"


section \<open>Providers\<close>

definition handleListProviders :: "'w Admin \<Rightarrow> admin_env \<Rightarrow> 'w handler" where
  "handleListProviders ad ae r s w =
     (case ListProviders (ae_flt ae 0) (ae_plan_providers ae) (the_db ad s) of
        Inl err \<Rightarrow> (Returned, s, writeJSON 500 (errorResponse ''failed to list providers'') w)
      | Inr ps \<Rightarrow>
          (Returned, s, writeJSON 200
             (enc_listResponse (map (enc_ProviderConfig True) ps) 0 (int (length ps)) (fst (CountProviders (ae_flt ae 1) (the_db ad s)))) w))"

definition handleCreateProvider :: "'w Admin \<Rightarrow> admin_env \<Rightarrow> 'w handler" where
  "handleCreateProvider ad ae r s w =
     (case decodeJSON dec_ProviderConfig (zero_ProviderConfig, True) r w of
        (None, w) \<Rightarrow> (Returned, s, w)
      | (Some (p, nil), w) \<Rightarrow>
          (let p = p\<lparr>pc_APIKeyEnc := ''''\<rparr>
           in if pc_Name p = '''' then (Returned, s, writeJSON 400 (errorResponse ''name is required'') w)
              else (let p = (if pc_ID p = '''' then p\<lparr>pc_ID := pc_Name p\<rparr> else p)
                    in case CreateProvider (ae_flt ae 0) p (the_db ad s) of
                         (Some err, d) \<Rightarrow> (Returned, put_db ad d s, writeAdminError err w)
                       | (None, d) \<Rightarrow>
                           (Returned, put_db ad d s,
                            writeJSON 201 (enc_ProviderConfig nil p) (set_header ''Location'' [''/admin/v1/providers/'' @ pc_ID p] w)))))"

definition handleGetProvider :: "'w Admin \<Rightarrow> admin_env \<Rightarrow> 'w handler" where
  "handleGetProvider ad ae r s w =
     (case GetProvider (ae_flt ae 0) (ae_id ae) (the_db ad s) of
        Inl err \<Rightarrow> (Returned, s, writeAdminError err w)
      | Inr p \<Rightarrow> (Returned, s, writeJSON 200 (enc_ProviderConfig True p) w))"

definition handleUpdateProvider :: "'w Admin \<Rightarrow> admin_env \<Rightarrow> 'w handler" where
  "handleUpdateProvider ad ae r s w =
     (case decodeJSON dec_ProviderConfig (zero_ProviderConfig, True) r w of
        (None, w) \<Rightarrow> (Returned, s, w)
      | (Some (p, nil), w) \<Rightarrow>
          (let p = p\<lparr>pc_APIKeyEnc := '''', pc_ID := ae_id ae\<rparr>
           in case UpdateProvider (ae_flt ae 0) p (the_db ad s) of
                (Some err, d) \<Rightarrow> (Returned, put_db ad d s, writeAdminError err w)
              | (None, d) \<Rightarrow> (Returned, put_db ad d s, writeJSON 200 (enc_ProviderConfig nil p) w)))"

definition handleDeleteProvider :: "'w Admin \<Rightarrow> admin_env \<Rightarrow> 'w handler" where
  "handleDeleteProvider ad ae r s w =
     (case DeleteProvider (ae_flt ae 0) (ae_id ae) (the_db ad s) of
        (Some err, d) \<Rightarrow> (Returned, put_db ad d s, writeAdminError err w)
      | (None, d) \<Rightarrow> (Returned, put_db ad d s, WriteHeader 204 w))"

section \<open>Keys\<close>

definition handleListKeys :: "'w Admin \<Rightarrow> admin_env \<Rightarrow> 'w handler" where
  "handleListKeys ad ae r s w =
     (case identity_of r s of
        None \<Rightarrow> (Panicked ''nil pointer dereference'', s, w)
      | Some identity \<Rightarrow>
          (case resolveOrgID identity r w of
             (None, w) \<Rightarrow> (Returned, s, w)
           | (Some orgID, w) \<Rightarrow>
               (case parsePagination r of
                  (offset, limit) \<Rightarrow>
                    (case ListKeys (ae_flt ae 0) (ae_plan_keys ae) orgID offset limit (the_db ad s) of
                       Inl err \<Rightarrow> (Returned, s, writeJSON 500 (errorResponse ''failed to list keys'') w)
                     | Inr keys \<Rightarrow>
                         (Returned, s, writeJSON 200
                            (enc_listResponse (map (enc_APIKey ae) keys) offset limit (fst (CountKeys (ae_flt ae 1) orgID (the_db ad s)))) w)))))"

definition key_opts :: "keyCreateRequest \<Rightarrow> string \<Rightarrow> gotime option \<Rightarrow> CreateKeyOpts" where
  "key_opts q org expiresAt =
     \<lparr>ck_OrgID = org, ck_UserID = kc_UserID q, ck_TeamID = kc_TeamID q, ck_Name = '''', ck_Role = kc_Role q,
      ck_AllowedModels = kc_AllowedModels q, ck_RPMLimit = kc_RPMLimit q, ck_TPMLimit = kc_TPMLimit q, ck_MaxBudget = kc_MaxBudget q,
      ck_ExpiresAt = expiresAt\<rparr>"

text \<open>\<open>uuid.Must\<close> panics after the random bytes have been read.\<close>

definition handleCreateKey :: "'w Admin \<Rightarrow> admin_env \<Rightarrow> 'w handler" where
  "handleCreateKey ad ae r s w =
     (case decodeJSON dec_keyCreateRequest zero_keyCreateRequest r w of
        (None, w) \<Rightarrow> (Returned, s, w)
      | (Some q, w) \<Rightarrow>
          if kc_Role q \<noteq> '''' \<and> \<not> ValidRole (kc_Role q) then (Returned, s, writeJSON 400 (errorResponse ''invalid role'') w)
          else (case identity_of r s of
                  None \<Rightarrow> (Panicked ''nil pointer dereference'', s, w)
                | Some identity \<Rightarrow>
                    (let org = (if kc_OrgID q = '''' then id_OrgID identity else kc_OrgID q)
                     in if org \<noteq> id_OrgID identity
                        then (Returned, s, writeJSON 403 (errorResponse ''cannot create keys outside your organization'') w)
                        else (case parseExpiresAt (kc_ExpiresAt q) w of
                                (None, w) \<Rightarrow> (Returned, s, w)
                              | (Some expiresAt, w) \<Rightarrow>
                                  if isl (ae_random ae) \<or> ae_uuid ae \<noteq> None
                                  then (case km_CreateKey (st_CreateKey (ae_flt ae 0)) (ae_random ae) (the (ae_uuid ae)) (ae_now ae)
                                               (key_opts q org expiresAt) (the_db ad s) of
                                          (Inl err, d) \<Rightarrow> (Returned, put_db ad d s, writeAdminError err w)
                                        | (Inr (plaintext, key), d) \<Rightarrow>
                                            (Returned, put_db ad d s,
                                             writeJSON 201 (enc_keyCreateResponse ae key plaintext)
                                               (set_header ''Location'' [''/admin/v1/keys/'' @ key_ID key] w)))
                                  else (Panicked ''uuid'', s, w)))))"

text \<open>A key of another organisation is answered like one that does not exist.\<close>

definition with_own_key :: "'w Admin \<Rightarrow> admin_env \<Rightarrow> (APIKey \<Rightarrow> 'w handler) \<Rightarrow> 'w handler" where
  "with_own_key ad ae next r s w =
     (case GetKey (ae_flt ae 0) (ae_id ae) (the_db ad s) of
        Inl err \<Rightarrow> (Returned, s, writeAdminError err w)
      | Inr key \<Rightarrow>
          (case identity_of r s of
             None \<Rightarrow> (Panicked ''nil pointer dereference'', s, w)
           | Some identity \<Rightarrow>
               if key_OrgID key \<noteq> id_OrgID identity then (Returned, s, writeJSON 404 (errorResponse ''not found'') w)
               else next key r s w))"

definition handleGetKey :: "'w Admin \<Rightarrow> admin_env \<Rightarrow> 'w handler" where
  "handleGetKey ad ae = with_own_key ad ae (\<lambda>key r s w. (Returned, s, writeJSON 200 (enc_APIKey ae key) w))"

definition updated_key :: "keyUpdate \<Rightarrow> gotime option \<Rightarrow> APIKey \<Rightarrow> APIKey" where
  "updated_key u expiresAt k =
     k\<lparr>key_Role := (case ku_Role u of Some x \<Rightarrow> x | None \<Rightarrow> key_Role k),
       key_AllowedModels := (case ku_AllowedModels u of Some x \<Rightarrow> x | None \<Rightarrow> key_AllowedModels k),
       key_RPMLimit := (case ku_RPMLimit u of Some x \<Rightarrow> Some x | None \<Rightarrow> key_RPMLimit k),
       key_TPMLimit := (case ku_TPMLimit u of Some x \<Rightarrow> Some x | None \<Rightarrow> key_TPMLimit k),
       key_MaxBudget := (case ku_MaxBudget u of Some x \<Rightarrow> Some x | None \<Rightarrow> key_MaxBudget k),
       key_ExpiresAt := (case ku_ExpiresAt u of Some _ \<Rightarrow> expiresAt | None \<Rightarrow> key_ExpiresAt k),
       key_Blocked := (case ku_Blocked u of Some x \<Rightarrow> x | None \<Rightarrow> key_Blocked k)\<rparr>"

definition invalidate :: "'w Admin \<Rightarrow> string \<Rightarrow> 'w server \<Rightarrow> 'w server" where
  "invalidate ad i s = (case ad_KeyInvalidator ad of None \<Rightarrow> s | Some f \<Rightarrow> s\<lparr>sv_world := f i (sv_world s)\<rparr>)"

definition handleUpdateKey :: "'w Admin \<Rightarrow> admin_env \<Rightarrow> 'w handler" where
  "handleUpdateKey ad ae = with_own_key ad ae (\<lambda>existing r s w.
     case decodeJSON dec_keyUpdate zero_keyUpdate r w of
       (None, w) \<Rightarrow> (Returned, s, w)
     | (Some u, w) \<Rightarrow>
         if (case ku_Role u of Some role \<Rightarrow> \<not> ValidRole role | None \<Rightarrow> False)
         then (Returned, s, writeJSON 400 (errorResponse ''invalid role'') w)
         else (case parseExpiresAt (ku_ExpiresAt u) w of
                 (None, w) \<Rightarrow> (Returned, s, w)
               | (Some expiresAt, w) \<Rightarrow>
                   (let key = updated_key u expiresAt existing
                    in case UpdateKey (ae_flt ae 1) key (the_db ad s) of
                         (Some err, d) \<Rightarrow> (Returned, put_db ad d s, writeAdminError err w)
                       | (None, d) \<Rightarrow> (Returned, invalidate ad (ae_id ae) (put_db ad d s), writeJSON 200 (enc_APIKey ae key) w))))"

definition handleDeleteKey :: "'w Admin \<Rightarrow> admin_env \<Rightarrow> 'w handler" where
  "handleDeleteKey ad ae = with_own_key ad ae (\<lambda>key r s w.
     case st_DeleteKey (ae_flt ae 1) (ae_id ae) (the_db ad s) of
       (Some err, d) \<Rightarrow> (Returned, put_db ad d s, writeAdminError err w)
     | (None, d) \<Rightarrow> (Returned, invalidate ad (ae_id ae) (put_db ad d s), WriteHeader 204 w))"

section \<open>Routes\<close>

definition handleListRoutes :: "'w Admin \<Rightarrow> admin_env \<Rightarrow> 'w handler" where
  "handleListRoutes ad ae r s w =
     (case ListRoutes (ae_flt ae 0) (ae_plan_routes ae) (the_db ad s) of
        Inl err \<Rightarrow> (Returned, s, writeJSON 500 (errorResponse ''failed to list routes'') w)
      | Inr rs \<Rightarrow>
          (Returned, s, writeJSON 200
             (enc_listResponse (map (enc_Route False) rs) 0 (int (length rs)) (fst (CountRoutes (ae_flt ae 1) (the_db ad s)))) w))"

definition handleCreateRoute :: "'w Admin \<Rightarrow> admin_env \<Rightarrow> 'w handler" where
  "handleCreateRoute ad ae r s w =
     (case decodeJSON dec_Route zero_Route r w of
        (None, w) \<Rightarrow> (Returned, s, w)
      | (Some rt, w) \<Rightarrow>
          if rt_ModelAlias rt = '''' then (Returned, s, writeJSON 400 (errorResponse ''model_alias is required'') w)
          else if rt_ID rt = '''' \<and> ae_uuid ae = None then (Panicked ''uuid'', s, w)
          else (let rt = (if rt_ID rt = '''' then rt\<lparr>rt_ID := the (ae_uuid ae)\<rparr> else rt);
                    rt = (if rt_Strategy rt = '''' then rt\<lparr>rt_Strategy := ''priority''\<rparr> else rt)
                in case CreateRoute (ae_flt ae 0) rt (the_db ad s) of
                     (Some err, d) \<Rightarrow> (Returned, put_db ad d s, writeAdminError err w)
                   | (None, d) \<Rightarrow>
                       (Returned, put_db ad d s,
                        writeJSON 201 (enc_Route True rt) (set_header ''Location'' [''/admin/v1/routes/'' @ rt_ID rt] w))))"

definition handleGetRoute :: "'w Admin \<Rightarrow> admin_env \<Rightarrow> 'w handler" where
  "handleGetRoute ad ae r s w =
     (case GetRoute (ae_flt ae 0) (ae_id ae) (the_db ad s) of
        Inl err \<Rightarrow> (Returned, s, writeAdminError err w)
      | Inr rt \<Rightarrow> (Returned, s, writeJSON 200 (enc_Route False rt) w))"

definition handleUpdateRoute :: "'w Admin \<Rightarrow> admin_env \<Rightarrow> 'w handler" where
  "handleUpdateRoute ad ae r s w =
     (case decodeJSON dec_Route zero_Route r w of
        (None, w) \<Rightarrow> (Returned, s, w)
      | (Some rt, w) \<Rightarrow>
          (let rt = rt\<lparr>rt_ID := ae_id ae\<rparr>
           in case UpdateRoute (ae_flt ae 0) rt (the_db ad s) of
                (Some err, d) \<Rightarrow> (Returned, put_db ad d s, writeAdminError err w)
              | (None, d) \<Rightarrow> (Returned, put_db ad d s, writeJSON 200 (enc_Route True rt) w)))"

definition handleDeleteRoute :: "'w Admin \<Rightarrow> admin_env \<Rightarrow> 'w handler" where
  "handleDeleteRoute ad ae r s w =
     (case DeleteRoute (ae_flt ae 0) (ae_id ae) (the_db ad s) of
        (Some err, d) \<Rightarrow> (Returned, put_db ad d s, writeAdminError err w)
      | (None, d) \<Rightarrow> (Returned, put_db ad d s, WriteHeader 204 w))"


section \<open>Cache and usage\<close>

definition handleCachePurge :: "'w Deps \<Rightarrow> 'w handler" where
  "handleCachePurge dp r s w =
     (case d_Cache dp of
        None \<Rightarrow> (Returned, s, WriteHeader 204 w)
      | Some c \<Rightarrow> (Returned, s\<lparr>sv_world := ca_Purge c (sv_world s)\<rparr>, WriteHeader 204 w))"

definition handleQueryUsage :: "'w Admin \<Rightarrow> admin_env \<Rightarrow> 'w handler" where
  "handleQueryUsage ad ae r s w =
     (case identity_of r s of
        None \<Rightarrow> (Panicked ''nil pointer dereference'', s, w)
      | Some identity \<Rightarrow>
          (case resolveOrgID identity r w of
             (None, w) \<Rightarrow> (Returned, s, w)
           | (Some orgID, w) \<Rightarrow>
               (case parseSinceUntil r w of
                  (None, w) \<Rightarrow> (Returned, s, w)
                | (Some (since, until), w) \<Rightarrow>
                    (case parsePagination r of
                       (offset, limit) \<Rightarrow>
                         (let f = \<lparr>uf_OrgID = orgID, uf_KeyID = Query_Get r ''key_id'', uf_Model = Query_Get r ''model'',
                                   uf_Since = since, uf_Until = until, uf_Offset = offset, uf_Limit = limit\<rparr>
                          in case QueryUsage (ae_flt ae 0) (ae_plan_usage ae) f (the_usage ad s) of
                               Inl err \<Rightarrow> (Returned, s, writeJSON 500 (errorResponse ''failed to query usage'') w)
                             | Inr records \<Rightarrow>
                                 (Returned, s, writeJSON 200
                                    (enc_listResponse (map (enc_UsageRecord ae) records) offset limit
                                       (fst (CountUsage (ae_flt ae 1) f (the_usage ad s)))) w))))))"

definition handleUsageSummary :: "'w Admin \<Rightarrow> admin_env \<Rightarrow> 'w handler" where
  "handleUsageSummary ad ae r s w =
     (case identity_of r s of
        None \<Rightarrow> (Panicked ''nil pointer dereference'', s, w)
      | Some identity \<Rightarrow>
          (case resolveOrgID identity r w of
             (None, w) \<Rightarrow> (Returned, s, w)
           | (Some orgID, w) \<Rightarrow>
               (case parseSinceUntil r w of
                  (None, w) \<Rightarrow> (Returned, s, w)
                | (Some (since, until), w) \<Rightarrow>
                    (case QueryRollups (ae_flt ae 0) (ae_plan_rollups ae)
                            \<lparr>rf_OrgID = orgID, rf_KeyID = Query_Get r ''key_id'', rf_Model = Query_Get r ''model'',
                             rf_Period = Query_Get r ''period'', rf_Since = since, rf_Until = until\<rparr> (the_usage ad s) of
                       Inl err \<Rightarrow> (Returned, s, writeJSON 500 (errorResponse ''failed to query rollups'') w)
                     | Inr rollups \<Rightarrow> (Returned, s, writeJSON 200 (OObj [(''data'', OArr (map (enc_UsageRollup ae) rollups))]) w)))))"

section \<open>The routes of the admin API\<close>

text \<open>An endpoint is a method and a pattern of the router under \<open>/admin/v1\<close>.\<close>

datatype endpoint =
    ListProvidersEP | CreateProviderEP | GetProviderEP | UpdateProviderEP | DeleteProviderEP | CachePurgeEP
  | ListKeysEP | CreateKeyEP | GetKeyEP | UpdateKeyEP | DeleteKeyEP
  | ListRoutesEP | CreateRouteEP | GetRouteEP | UpdateRouteEP | DeleteRouteEP
  | QueryUsageEP | UsageSummaryEP

fun endpoint_pattern :: "endpoint \<Rightarrow> string \<times> string" where
  "endpoint_pattern ListProvidersEP = (''GET'', ''/providers'')"
| "endpoint_pattern CreateProviderEP = (''POST'', ''/providers'')"
| "endpoint_pattern GetProviderEP = (''GET'', ''/providers/{id}'')"
| "endpoint_pattern UpdateProviderEP = (''PUT'', ''/providers/{id}'')"
| "endpoint_pattern DeleteProviderEP = (''DELETE'', ''/providers/{id}'')"
| "endpoint_pattern CachePurgeEP = (''POST'', ''/cache/purge'')"
| "endpoint_pattern ListKeysEP = (''GET'', ''/keys'')"
| "endpoint_pattern CreateKeyEP = (''POST'', ''/keys'')"
| "endpoint_pattern GetKeyEP = (''GET'', ''/keys/{id}'')"
| "endpoint_pattern UpdateKeyEP = (''PUT'', ''/keys/{id}'')"
| "endpoint_pattern DeleteKeyEP = (''DELETE'', ''/keys/{id}'')"
| "endpoint_pattern ListRoutesEP = (''GET'', ''/routes'')"
| "endpoint_pattern CreateRouteEP = (''POST'', ''/routes'')"
| "endpoint_pattern GetRouteEP = (''GET'', ''/routes/{id}'')"
| "endpoint_pattern UpdateRouteEP = (''PUT'', ''/routes/{id}'')"
| "endpoint_pattern DeleteRouteEP = (''DELETE'', ''/routes/{id}'')"
| "endpoint_pattern QueryUsageEP = (''GET'', ''/usage'')"
| "endpoint_pattern UsageSummaryEP = (''GET'', ''/usage/summary'')"

text \<open>The permission of the group in which the router registers an endpoint, and its handler.\<close>

definition endpoint_perm :: "endpoint \<Rightarrow> Permission" where
  "endpoint_perm e =
     (if e \<in> {ListProvidersEP, CreateProviderEP, GetProviderEP, UpdateProviderEP, DeleteProviderEP, CachePurgeEP} then PermManageProviders
      else if e \<in> {ListKeysEP, CreateKeyEP, GetKeyEP, UpdateKeyEP, DeleteKeyEP} then PermManageAllKeys
      else if e \<in> {ListRoutesEP, CreateRouteEP, GetRouteEP, UpdateRouteEP, DeleteRouteEP} then PermManageRoutes
      else PermViewAllUsage)"

fun endpoint_handler :: "'w Deps \<Rightarrow> 'w Admin \<Rightarrow> admin_env \<Rightarrow> endpoint \<Rightarrow> 'w handler" where
  "endpoint_handler dp ad ae ListProvidersEP = handleListProviders ad ae"
| "endpoint_handler dp ad ae CreateProviderEP = handleCreateProvider ad ae"
| "endpoint_handler dp ad ae GetProviderEP = handleGetProvider ad ae"
| "endpoint_handler dp ad ae UpdateProviderEP = handleUpdateProvider ad ae"
| "endpoint_handler dp ad ae DeleteProviderEP = handleDeleteProvider ad ae"
| "endpoint_handler dp ad ae CachePurgeEP = handleCachePurge dp"
| "endpoint_handler dp ad ae ListKeysEP = handleListKeys ad ae"
| "endpoint_handler dp ad ae CreateKeyEP = handleCreateKey ad ae"
| "endpoint_handler dp ad ae GetKeyEP = handleGetKey ad ae"
| "endpoint_handler dp ad ae UpdateKeyEP = handleUpdateKey ad ae"
| "endpoint_handler dp ad ae DeleteKeyEP = handleDeleteKey ad ae"
| "endpoint_handler dp ad ae ListRoutesEP = handleListRoutes ad ae"
| "endpoint_handler dp ad ae CreateRouteEP = handleCreateRoute ad ae"
| "endpoint_handler dp ad ae GetRouteEP = handleGetRoute ad ae"
| "endpoint_handler dp ad ae UpdateRouteEP = handleUpdateRoute ad ae"
| "endpoint_handler dp ad ae DeleteRouteEP = handleDeleteRoute ad ae"
| "endpoint_handler dp ad ae QueryUsageEP = handleQueryUsage ad ae"
| "endpoint_handler dp ad ae UsageSummaryEP = handleUsageSummary ad ae"

definition admin_api :: "'w Deps \<Rightarrow> env \<Rightarrow> 'w Admin \<Rightarrow> admin_env \<Rightarrow> endpoint \<Rightarrow> 'w handler" where
  "admin_api dp ev ad ae e =
     group_api dp ev (authenticate dp (requirePerm (endpoint_perm e) (endpoint_handler dp ad ae e)))"

end
