(* ===== verification/Server_Props.thy ===== *)
theory Server_Props
  imports Server
begin

text \<open>
  Properties of the request path of the server: which requests reach the services behind it, what an admitted
  request gets, and that a relayed stream reads back as the chunks of the provider.
\<close>

section \<open>Admission\<close>

text \<open>The conditions under which a request may reach a provider, in the order in which they are tested: a request id, an
  accepted key, budget left, a request token, a body that decodes, an allowed model, tokens for the estimate. The
  answer is the identity, the decoded request, and the state in which the rest of the handler starts.\<close>

definition identify :: "env \<Rightarrow> Request \<Rightarrow> 'w server \<Rightarrow> (Request \<times> 'w server) option" where
  "identify ev r s =
     (case request_id ev r of
        None \<Rightarrow> None
      | Some i \<Rightarrow> (case ContextWithRequestID (sv_meta s) i of (ms, ctx) \<Rightarrow> Some (r\<lparr>rq_ctx := ctx\<rparr>, s\<lparr>sv_meta := ms\<rparr>)))"

definition accept :: "'w Deps \<Rightarrow> Request \<times> 'w server \<Rightarrow> (Identity \<times> Request \<times> 'w server) option" where
  "accept dp = (\<lambda>(r, s).
     case d_Auth dp r (sv_world s) of
       (Inl err, _) \<Rightarrow> None
     | (Inr i, wd) \<Rightarrow>
         (case ContextWithIdentity (sv_meta s) (rq_ctx r) i of
            (ms, ctx) \<Rightarrow> Some (i, r\<lparr>rq_ctx := ctx\<rparr>, s\<lparr>sv_world := wd, sv_meta := ms\<rparr>)))"

definition within_limits :: "'w Deps \<Rightarrow> env \<Rightarrow> Identity \<Rightarrow> 'w server \<Rightarrow> 'w server option" where
  "within_limits dp ev i s =
     (if id_KeyID i = [] then Some s
      else case quota_check dp i s of
        (False, _) \<Rightarrow> None
      | (True, s) \<Rightarrow>
          (case rpm_check dp ev i s of
             (Some res, s) \<Rightarrow> if res_Allowed res then Some s else None
           | (None, s) \<Rightarrow> Some s))"

definition readable :: "'a decoder \<Rightarrow> 'a \<Rightarrow> Request \<Rightarrow> 'a option" where
  "readable d zero r =
     (case read_limited maxRequestBody r of
        Inl _ \<Rightarrow> None
      | Inr body \<Rightarrow> (case json_Unmarshal body d zero of Inl _ \<Rightarrow> None | Inr v \<Rightarrow> Some v))"

definition within_tokens :: "'w Deps \<Rightarrow> env \<Rightarrow> Identity \<Rightarrow> int \<Rightarrow> 'w server \<Rightarrow> 'w server option" where
  "within_tokens dp ev i n s =
     (case tpm_check dp ev (Some i) n s of
        (Some res, s) \<Rightarrow> if res_Allowed res then Some s else None
      | (None, s) \<Rightarrow> Some s)"

definition admitted ::
  "'w Deps \<Rightarrow> env \<Rightarrow> 'a decoder \<Rightarrow> 'a \<Rightarrow> ('a \<Rightarrow> string) \<Rightarrow> ('a \<Rightarrow> int) \<Rightarrow> Request \<Rightarrow> 'w server
     \<Rightarrow> (Identity \<times> 'a \<times> Request \<times> 'w server) option" where
  "admitted dp ev d zero model est r s = do {
     rs \<leftarrow> identify ev r s;
     (i, r, s) \<leftarrow> accept dp rs;
     s \<leftarrow> within_limits dp ev i s;
     q \<leftarrow> readable d zero r;
     s \<leftarrow> (if IsModelAllowed i (model q) then within_tokens dp ev i (est q) s else None);
     Some (i, q, r, s) }"


section \<open>Refusals\<close>

text \<open>A response that is not started yet, and what a refusal leaves: a status of an error, and nothing done by the
  services that the tests do not ask.\<close>

definition fresh :: "ResponseWriter \<Rightarrow> bool" where
  "fresh w \<longleftrightarrow> rw_sent w = None \<and> rw_body w = []"

definition refused :: "('w \<Rightarrow> bool) \<Rightarrow> outcome \<times> 'w server \<times> ResponseWriter \<Rightarrow> bool" where
  "refused P res \<longleftrightarrow> fst res = Returned \<and> P (sv_world (fst (snd res))) \<and> 400 \<le> rw_status (snd (snd res)) \<and> rw_status (snd (snd res)) \<le> 500"

definition tests_keep :: "('w \<Rightarrow> bool) \<Rightarrow> 'w Deps \<Rightarrow> bool" where
  "tests_keep P dp \<longleftrightarrow>
     (\<forall>r wd. P wd \<longrightarrow> P (snd (d_Auth dp r wd))) \<and>
     (\<forall>q k b wd. d_Quota dp = Some q \<longrightarrow> P wd \<longrightarrow> P (snd (qc_Check q k b wd)))"

lemma fresh_set_header [simp]: "fresh (set_header k vs w) = fresh w"
  by (simp add: fresh_def set_header_def)

lemma fresh_limit_headers [simp]: "fresh (setRPMHeaders res w) = fresh w" "fresh (setTPMHeaders res w) = fresh w"
  by (simp_all add: setRPMHeaders_def setTPMHeaders_def)

lemma marshal_error: "json_marshal (errorResponse m) = Some (marshal_text (errorResponse m))"
  by (simp add: json_marshal_def errorResponse_def del: marshal_text.simps)

lemma status_error:
  assumes "fresh w" "400 \<le> st"
  shows "rw_status (writeJSON st (errorResponse m) w) = st"
proof -
  have "rw_sent (WriteHeader st (set_header k vs w)) = Some (st, rw_Header (set_header k vs w))" for k vs
    using assms by (simp add: WriteHeader_def fresh_def set_header_def)
  then show ?thesis
    by (simp add: writeJSON_def marshal_error rw_status_def Write_def WriteHeader_sent Let_def split: option.split)
qed

lemma errorStatus_range: "400 \<le> errorStatus err \<and> errorStatus err \<le> 500"
  by (simp add: errorStatus_def)

lemma status_rate_limit: "fresh w \<Longrightarrow> rw_status (writeRateLimitError res w) = 429"
  by (simp add: writeRateLimitError_def status_error)

lemma refused_error: "fresh w \<Longrightarrow> 400 \<le> st \<Longrightarrow> st \<le> 500 \<Longrightarrow> P (sv_world s) \<Longrightarrow> refused P (Returned, s, writeJSON st (errorResponse m) w)"
  by (simp add: refused_def status_error)

text \<open>The tests one by one: refused, or passed on with the state and identity as specified.\<close>

lemma limiter_ops_keep:
  "getLimiter dp ev t ident s = (l, s') \<Longrightarrow> sv_meta s' = sv_meta s \<and> sv_world s' = sv_world s"
  "with_limiter a f s = (x, s') \<Longrightarrow> sv_meta s' = sv_meta s \<and> sv_world s' = sv_world s"
  by (auto simp: getLimiter_def with_limiter_def Let_def split: option.splits if_splits prod.splits)

lemma checks_keep:
  "rpm_check dp ev i s = (x, s') \<Longrightarrow> sv_meta s' = sv_meta s \<and> sv_world s' = sv_world s"
  "tpm_check dp ev ident n s = (x, s') \<Longrightarrow> sv_meta s' = sv_meta s \<and> sv_world s' = sv_world s"
  unfolding rpm_check_def tpm_check_def
  by (auto split: option.splits prod.splits dest!: limiter_ops_keep)

lemma quota_keep:
  assumes "tests_keep P dp" "P (sv_world s)" "quota_check dp i s = (b, s')"
  shows "P (sv_world s') \<and> sv_meta s' = sv_meta s"
  using assms unfolding quota_check_def tests_keep_def in_world_def
  by (auto split: option.splits if_splits prod.splits) (metis snd_conv)

lemma limits_gate:
  assumes "tests_keep P dp" "P (sv_world s)" "identity_of r s = Some i" "fresh w"
  shows "within_limits dp ev i s = None \<Longrightarrow> refused P (rateLimit dp ev next r s w)"
    and "within_limits dp ev i s = Some s' \<Longrightarrow>
      P (sv_world s') \<and> sv_meta s' = sv_meta s \<and> (\<exists>w'. fresh w' \<and> rateLimit dp ev next r s w = next r s' w')"
proof -
  obtain b s1 where q: "quota_check dp i s = (b, s1)" by fastforce
  obtain x s2 where c: "rpm_check dp ev i s1 = (x, s2)" by fastforce
  note keep = quota_keep [OF assms(1,2) q] checks_keep(1) [OF c]
  show "refused P (rateLimit dp ev next r s w)" if "within_limits dp ev i s = None"
    using that assms(3,4) q c keep
    by (auto simp: within_limits_def rateLimit_def refused_def status_error status_rate_limit split: if_splits bool.splits option.splits)
  let ?w = "if id_KeyID i = [] then w else case x of Some res \<Rightarrow> setRPMHeaders res w | None \<Rightarrow> w"
  assume ok: "within_limits dp ev i s = Some s'"
  then have "rateLimit dp ev next r s w = next r s' ?w" "fresh ?w" "P (sv_world s') \<and> sv_meta s' = sv_meta s"
    using assms(2-4) q c keep by (auto simp: within_limits_def rateLimit_def split: if_splits bool.splits option.splits)
  then show "P (sv_world s') \<and> sv_meta s' = sv_meta s \<and> (\<exists>w'. fresh w' \<and> rateLimit dp ev next r s w = next r s' w')" by blast
qed


lemma ContextWithIdentity_sound: "ContextWithIdentity ms ctx i = (ms', ctx') \<Longrightarrow> IdentityFromContext ms' ctx' = Some i"
  by (auto simp: ContextWithIdentity_def IdentityFromContext_def metaFromContext_def nth_list_update split: option.splits if_splits)

lemma accept_gate:
  assumes "tests_keep P dp" "P (sv_world s)" "fresh w"
  shows "accept dp (r, s) = None \<Longrightarrow> refused P (authenticate dp next r s w)"
    and "accept dp (r, s) = Some (i, r', s') \<Longrightarrow>
      P (sv_world s') \<and> identity_of r' s' = Some i \<and> rq_Body r' = rq_Body r \<and> rq_BodyErr r' = rq_BodyErr r \<and>
      authenticate dp next r s w = next r' s' w"
proof -
  obtain a wd where a: "d_Auth dp r (sv_world s) = (a, wd)" by fastforce
  have keep: "P wd" using assms(1,2) a unfolding tests_keep_def by (metis snd_conv)
  show "refused P (authenticate dp next r s w)" if "accept dp (r, s) = None"
    using that a keep assms(3) errorStatus_range
    by (auto simp: accept_def authenticate_def in_world_def intro!: refused_error split: sum.splits prod.splits)
  show "P (sv_world s') \<and> identity_of r' s' = Some i \<and> rq_Body r' = rq_Body r \<and> rq_BodyErr r' = rq_BodyErr r \<and>
      authenticate dp next r s w = next r' s' w" if "accept dp (r, s) = Some (i, r', s')"
  proof -
    obtain ms ctx where c: "ContextWithIdentity (sv_meta s) (rq_ctx r) i = (ms, ctx)" by fastforce
    have "a = Inr i" "r' = r\<lparr>rq_ctx := ctx\<rparr>" "s' = s\<lparr>sv_world := wd, sv_meta := ms\<rparr>"
      using that a c by (auto simp: accept_def split: sum.splits prod.splits)
    then show ?thesis using a c keep ContextWithIdentity_sound [OF c]
      by (simp add: authenticate_def in_world_def identity_of_def)
  qed
qed

lemma body_gate:
  assumes "fresh w"
  shows "readable d zero r = None \<Longrightarrow> \<exists>w'. decodeRequestBody d zero r w = (None, w') \<and> rw_status w' = 400"
    and "readable d zero r = Some q \<Longrightarrow> decodeRequestBody d zero r w = (Some q, w)"
  using assms by (auto simp: readable_def decodeRequestBody_def status_error split: sum.splits)

lemma tokens_gate:
  assumes "P (sv_world s)" "fresh w"
  shows "within_tokens dp ev i n s = None \<Longrightarrow>
      \<exists>s' w'. consumeTPM dp ev (Some i) n s w = (False, s', w') \<and> P (sv_world s') \<and> rw_status w' = 429"
    and "within_tokens dp ev i n s = Some s' \<Longrightarrow>
      P (sv_world s') \<and> sv_meta s' = sv_meta s \<and> (\<exists>w'. fresh w' \<and> consumeTPM dp ev (Some i) n s w = (True, s', w'))"
proof -
  obtain x s1 where c: "tpm_check dp ev (Some i) n s = (x, s1)" by fastforce
  note keep = checks_keep(2) [OF c]
  show "\<exists>s' w'. consumeTPM dp ev (Some i) n s w = (False, s', w') \<and> P (sv_world s') \<and> rw_status w' = 429" if "within_tokens dp ev i n s = None"
    using that c keep assms by (auto simp: within_tokens_def consumeTPM_def status_rate_limit split: option.splits if_splits)
  show "P (sv_world s') \<and> sv_meta s' = sv_meta s \<and> (\<exists>w'. fresh w' \<and> consumeTPM dp ev (Some i) n s w = (True, s', w'))"
    if "within_tokens dp ev i n s = Some s'"
    using that c keep assms by (auto simp: within_tokens_def consumeTPM_def split: option.splits if_splits)
qed


text \<open>A handler that decodes a body, tests the model and takes tokens before it does its work.\<close>

definition gated :: "'w Deps \<Rightarrow> env \<Rightarrow> 'a decoder \<Rightarrow> 'a \<Rightarrow> ('a \<Rightarrow> string) \<Rightarrow> ('a \<Rightarrow> int)
     \<Rightarrow> (Identity option \<Rightarrow> 'a \<Rightarrow> 'w handler) \<Rightarrow> 'w handler" where
  "gated dp ev d zero model est work r s w =
     (case decodeRequestBody d zero r w of
        (None, w) \<Rightarrow> (Returned, s, w)
      | (Some q, w) \<Rightarrow>
          (let ident = identity_of r s
           in if \<not> model_allowed ident (model q) then (Returned, s, writeJSON 403 (errorResponse ''model not allowed'') w)
              else (case consumeTPM dp ev ident (est q) s w of
                      (False, s, w) \<Rightarrow> (Returned, s, w)
                    | (True, s, w) \<Rightarrow> work ident q r s w)))"

lemma gated_cases:
  assumes "P (sv_world s)" "identity_of r s = Some i" "fresh w"
  shows "readable d zero r = None \<Longrightarrow> refused P (gated dp ev d zero model est work r s w)"
    and "readable d zero r = Some q \<Longrightarrow> \<not> IsModelAllowed i (model q) \<Longrightarrow> refused P (gated dp ev d zero model est work r s w)"
    and "readable d zero r = Some q \<Longrightarrow> IsModelAllowed i (model q) \<Longrightarrow> within_tokens dp ev i (est q) s = None \<Longrightarrow>
      refused P (gated dp ev d zero model est work r s w)"
    and "readable d zero r = Some q \<Longrightarrow> IsModelAllowed i (model q) \<Longrightarrow> within_tokens dp ev i (est q) s = Some s' \<Longrightarrow>
      \<exists>w'. fresh w' \<and> gated dp ev d zero model est work r s w = work (Some i) q r s' w'"
proof -
  show "refused P (gated dp ev d zero model est work r s w)" if "readable d zero r = None"
    using body_gate(1) [OF assms(3) that] assms(1) by (auto simp: gated_def refused_def)
next
  assume "readable d zero r = Some q"
  note q = body_gate(2) [OF assms(3) this]
  show "refused P (gated dp ev d zero model est work r s w)" if "\<not> IsModelAllowed i (model q)"
    using that q assms by (simp add: gated_def model_allowed_def refused_error)
  show "refused P (gated dp ev d zero model est work r s w)" if "IsModelAllowed i (model q)" "within_tokens dp ev i (est q) s = None"
    using that q assms(1,2) tokens_gate(1) [where P = P, OF assms(1,3) that(2)] by (auto simp: gated_def model_allowed_def refused_def)
  show "\<exists>w'. fresh w' \<and> gated dp ev d zero model est work r s w = work (Some i) q r s' w'"
    if allowed: "IsModelAllowed i (model q)" and tokens: "within_tokens dp ev i (est q) s = Some s'"
  proof -
    obtain w' where "fresh w'" "consumeTPM dp ev (Some i) (est q) s w = (True, s', w')"
      using tokens_gate(2) [where P = P, OF assms(1,3) tokens] by blast
    then show ?thesis using allowed q assms(2) by (auto simp: gated_def model_allowed_def)
  qed
qed

text \<open>What the chain does with the response of a handler.\<close>

lemma group_returns:
  assumes "identify ev r s = Some (r1, s1)"
  shows "group_api dp ev h r s w =
    (case observed dp h r1 s1
            (set_header ''X-Request-Id'' [the (request_id ev r)] (set_header ''X-Frame-Options'' [''DENY''] (set_header ''X-Content-Type-Options'' [''nosniff''] w))) of
       (Panicked e, s, w) \<Rightarrow> (Returned, s, writeJSON 500 (errorResponse ''internal server error'') w)
     | (Returned, s, w) \<Rightarrow> (Returned, s, w))"
  using assms by (auto simp: group_api_def securityHeaders_def recovery_def requestID_def identify_def split: option.splits prod.splits)

lemma observed_small:
  "next r s w = (Returned, s', w') \<Longrightarrow> 0 \<le> rw_status w' \<Longrightarrow> rw_status w' < 600 \<Longrightarrow> observed dp next r s w = (Returned, s', w')"
  by (simp add: observed_def metricsMiddleware_def)

lemma group_refused:
  assumes "identify ev r s = Some (r1, s1)" and "\<And>w. fresh w \<Longrightarrow> refused P (h r1 s1 w)" and "fresh w"
  shows "refused P (group_api dp ev h r s w)"
proof -
  let ?w = "set_header ''X-Request-Id'' [the (request_id ev r)] (set_header ''X-Frame-Options'' [''DENY''] (set_header ''X-Content-Type-Options'' [''nosniff''] w))"
  obtain out s' w' where h: "h r1 s1 ?w = (out, s', w')" by (cases "h r1 s1 ?w")
  have ok: "refused P (out, s', w')" using assms(2) [of ?w] assms(3) h by simp
  then have "observed dp h r1 s1 ?w = (Returned, s', w')" using h by (intro observed_small) (auto simp: refused_def)
  then show ?thesis using ok group_returns [OF assms(1), of dp h w] by (simp add: refused_def)
qed

text \<open>Without a request id (the generator fails) the request is answered with 500.\<close>

lemma group_unidentified: "identify ev r s = None \<Longrightarrow> fresh w \<Longrightarrow> P (sv_world s) \<Longrightarrow> refused P (group_api dp ev h r s w)"
  by (auto simp: identify_def group_api_def securityHeaders_def recovery_def requestID_def split: option.splits prod.splits intro!: refused_error)

lemma past_accept:
  assumes "tests_keep P dp" "P (sv_world s)" "fresh w" "accept dp (r, s) = Some (i, r', s')" "within_limits dp ev i s' = Some s''"
  shows "\<exists>w'. fresh w' \<and> P (sv_world s'') \<and> identity_of r' s'' = Some i \<and> authenticate dp (rateLimit dp ev h) r s w = h r' s'' w'"
proof -
  note a = accept_gate(2) [OF assms(1-4)]
  have "P (sv_world s')" "identity_of r' s' = Some i" using a by blast+
  from limits_gate(2) [OF assms(1) this assms(3,5), of h] this(2) a show ?thesis by (auto simp: identity_of_def)
qed

lemma tests_refuse:
  assumes "tests_keep P dp" "P (sv_world s)" "fresh w"
    and "accept dp (r, s) \<bind> (\<lambda>(i, r, s). within_limits dp ev i s \<bind> (\<lambda>s. readable d zero r \<bind> (\<lambda>q.
        if IsModelAllowed i (model q) then within_tokens dp ev i (est q) s else None))) = None"
  shows "refused P (authenticate dp (rateLimit dp ev (gated dp ev d zero model est work)) r s w)"
proof (cases "accept dp (r, s)")
  case None
  then show ?thesis by (rule accept_gate(1) [OF assms(1-3)])
next
  case (Some x)
  then obtain i r' s' where acc: "accept dp (r, s) = Some (i, r', s')" by (cases x) simp
  note a = accept_gate(2) [OF assms(1-3) acc]
  show ?thesis
  proof (cases "within_limits dp ev i s'")
    case None
    then show ?thesis using a limits_gate(1) [OF assms(1) _ _ assms(3) None] by simp
  next
    case (Some s'')
    obtain w' where w': "fresh w'" "P (sv_world s'')" "identity_of r' s'' = Some i"
      "authenticate dp (rateLimit dp ev (gated dp ev d zero model est work)) r s w = gated dp ev d zero model est work r' s'' w'"
      using past_accept [OF assms(1-3) acc Some] by blast
    then show ?thesis
      using assms(4) acc Some gated_cases(1-3) [where P = P, OF w'(2,3,1), of d zero]
      by (cases "readable d zero r'") (auto split: if_splits)
  qed
qed

lemma admitted_None:
  assumes "tests_keep P dp" "P (sv_world s)" "fresh w" "admitted dp ev d zero model est r s = None"
  shows "refused P (client_api dp ev (gated dp ev d zero model est work) r s w)"
proof (cases "identify ev r s")
  case None
  then show ?thesis unfolding client_api_def using assms(2,3) by (intro group_unidentified)
next
  case (Some rs)
  then obtain r1 s1 where id: "identify ev r s = Some (r1, s1)" by (cases rs) simp
  have "P (sv_world s1)" using id assms(2) by (auto simp: identify_def split: option.splits prod.splits)
  moreover have "accept dp (r1, s1) \<bind> (\<lambda>(i, r, s). within_limits dp ev i s \<bind> (\<lambda>s. readable d zero r \<bind> (\<lambda>q.
        if IsModelAllowed i (model q) then within_tokens dp ev i (est q) s else None))) = None"
    using assms(4) id
    by (cases "accept dp (r1, s1)") (auto simp: admitted_def split: option.splits if_splits simp: Option.bind_eq_None_conv bind_split)
  ultimately show ?thesis
    unfolding client_api_def using tests_refuse [OF assms(1)] by (intro group_refused [OF id _ assms(3)])
qed

lemma admitted_Some:
  assumes "fresh w" "admitted dp ev d zero model est r s = Some (i, q, r', s')"
  shows "\<exists>w'. fresh w' \<and> (\<forall>s'' w''. work (Some i) q r' s' w' = (Returned, s'', w'') \<longrightarrow> 0 \<le> rw_status w'' \<longrightarrow> rw_status w'' < 600 \<longrightarrow>
    client_api dp ev (gated dp ev d zero model est work) r s w = (Returned, s'', w''))"
proof -
  let ?h = "gated dp ev d zero model est work"
  obtain r1 s1 s2 s3 where id: "identify ev r s = Some (r1, s1)" and acc: "accept dp (r1, s1) = Some (i, r', s2)"
    and lim: "within_limits dp ev i s2 = Some s3" and q: "readable d zero r' = Some q" "IsModelAllowed i (model q)" "within_tokens dp ev i (est q) s3 = Some s'"
    using assms(2) by (auto simp: admitted_def bind_eq_Some_conv split: if_splits)
  let ?w = "set_header ''X-Request-Id'' [the (request_id ev r)] (set_header ''X-Frame-Options'' [''DENY''] (set_header ''X-Content-Type-Options'' [''nosniff''] w))"
  have T: "tests_keep (\<lambda>_. True) dp" by (simp add: tests_keep_def)
  obtain w3 where w3: "fresh w3" "identity_of r' s3 = Some i" "authenticate dp (rateLimit dp ev ?h) r1 s1 ?w = ?h r' s3 w3"
    using past_accept [OF T TrueI _ acc lim, of ?w ?h] assms(1) by auto
  obtain w4 where "fresh w4" "?h r' s3 w3 = work (Some i) q r' s' w4"
    using gated_cases(4) [where P = "\<lambda>_. True" and model = model and est = est and work = work, OF TrueI w3(2,1) q] by blast
  then have "observed dp (authenticate dp (rateLimit dp ev ?h)) r1 s1 ?w = (Returned, s'', w'')"
    if "work (Some i) q r' s' w4 = (Returned, s'', w'')" "0 \<le> rw_status w''" "rw_status w'' < 600" for s'' w''
    using that w3(3) by (intro observed_small) auto
  then show ?thesis using \<open>fresh w4\<close> group_returns [OF id, of dp "authenticate dp (rateLimit dp ev ?h)" w] by (intro exI [of _ w4]) (auto simp: client_api_def)
qed

text \<open>The handlers of chat completions and embeddings have this form.\<close>

definition chat_work :: "'w Deps \<Rightarrow> env \<Rightarrow> Identity option \<Rightarrow> ChatRequest \<Rightarrow> 'w handler" where
  "chat_work dp ev ident req r s w =
     (case cache_lookup dp ev ident req s of
        (Some data, s) \<Rightarrow>
          (Returned, recordUsage dp ev r ident (req_Model req) None 0 200 True s,
           Write data (WriteHeader 200 (set_header ''Content-Type'' jsonCT w)))
      | (None, s) \<Rightarrow>
          if req_Stream req then handleChatCompletionStream dp ev req ident (estimate dp req) r s w
          else (case d_ChatCompletion dp req (sv_world s) of
                  (Inl err, req, wd) \<Rightarrow> (Returned, s\<lparr>sv_world := wd\<rparr>, writeUpstreamError err w)
                | (Inr resp, req', wd) \<Rightarrow>
                    (Returned,
                     recordUsage dp ev r ident (req_Model req') (resp_Usage resp) (time_Sub (ev_now ev 13) (ev_now ev 12)) 200 False
                       (cache_store dp ev ident req' resp (adjustTPM dp ev ident (estimate dp req) (resp_Usage resp) (s\<lparr>sv_world := wd\<rparr>))),
                     writeJSON 200 (enc_ChatResponse resp) w)))"

lemma chat_gated: "handleChatCompletion dp ev = gated dp ev dec_ChatRequest zero_ChatRequest req_Model (estimate dp) (chat_work dp ev)"
  unfolding fun_eq_iff handleChatCompletion_def gated_def chat_work_def Let_def by simp

lemma embeddings_gated:
  "\<exists>work. handleEmbeddings dp ev = gated dp ev dec_EmbeddingRequest zero_EmbeddingRequest emb_Model (\<lambda>_. 100) work"
  by (rule exI [of _ "\<lambda>ident req r s w. case d_Embeddings dp req (sv_world s) of
      (Inl err, req, wd) \<Rightarrow> (Returned, s\<lparr>sv_world := wd\<rparr>, writeUpstreamError err w)
    | (Inr resp, req, wd) \<Rightarrow>
        (Returned, recordUsage dp ev r ident (emb_Model req) (embr_Usage resp) (time_Sub (ev_now ev 13) (ev_now ev 12)) 200 False
           (adjustTPM dp ev ident 100 (embr_Usage resp) (s\<lparr>sv_world := wd\<rparr>)), writeJSON 200 (enc_EmbeddingResponse resp) w)"])
    (simp only: fun_eq_iff handleEmbeddings_def gated_def Let_def simp_thms)


section \<open>Answers\<close>

lemma writeJSON_fresh:
  assumes "fresh w" "json_marshal v = Some data"
  shows "rw_status (writeJSON 200 v w) = 200 \<and> rw_body (writeJSON 200 v w) = data"
  using assms by (simp add: writeJSON_def fresh_def Write_def WriteHeader_def set_header_def rw_status_def body_allowed_def Let_def)

text \<open>What the replay of an answer relies on: the cache finds what was set, and the services that admit and account for
  requests leave its entries alone.\<close>

definition cache_ok :: "'w Deps \<Rightarrow> 'w Cache \<Rightarrow> bool" where
  "cache_ok dp c \<longleftrightarrow>
     (\<forall>k d ttl wd. fst (ca_Get c k (ca_Set c k d ttl wd)) = Some d) \<and>
     (\<forall>k d. tests_keep (\<lambda>wd. fst (ca_Get c k wd) = Some d) dp \<and>
        (\<forall>f e wd. d_Usage dp = Some f \<longrightarrow> fst (ca_Get c k wd) = Some d \<longrightarrow> fst (ca_Get c k (f e wd)) = Some d) \<and>
        (\<forall>q key cost wd. d_Quota dp = Some q \<longrightarrow> fst (ca_Get c k wd) = Some d \<longrightarrow> fst (ca_Get c k (qc_Consume q key cost wd)) = Some d))"

lemma admitted_keeps:
  assumes "tests_keep P dp" "P (sv_world s)" "admitted dp ev d zero model est r s = Some (i, q, r', s')"
  shows "P (sv_world s')"
proof -
  obtain r1 s1 s2 s3 where id: "identify ev r s = Some (r1, s1)" and acc: "accept dp (r1, s1) = Some (i, r', s2)"
    and lim: "within_limits dp ev i s2 = Some s3" and tok: "within_tokens dp ev i (est q) s3 = Some s'"
    using assms(3) by (auto simp: admitted_def bind_eq_Some_conv split: if_splits)
  have w: "fresh new_writer" by (simp add: fresh_def new_writer_def)
  have "P (sv_world s1)" using id assms(2) by (auto simp: identify_def split: option.splits prod.splits)
  note a = accept_gate(2) [OF assms(1) this w acc]
  then have "P (sv_world s3)" using limits_gate(2) [OF assms(1) _ _ w lim] by blast
  then show ?thesis using tokens_gate(2) [where P = P, OF _ w tok] by blast
qed

lemma stored:
  assumes "cache_ok dp c" "d_Cache dp = Some c" "isCacheable q" "json_marshal (enc_ChatResponse resp) = Some data"
  shows "fst (ca_Get c (cacheKey (ev_ftext ev) (id_KeyID i) q) (sv_world (cache_store dp ev (Some i) q resp s))) = Some data"
  using assms by (auto simp: cache_store_def cache_ok_def split: prod.splits)

lemma recorded:
  assumes "cache_ok dp c" "fst (ca_Get c k (sv_world s)) = Some data"
  shows "fst (ca_Get c k (sv_world (recordUsage dp ev r ident m u el st b s))) = Some data"
  using assms by (auto simp: recordUsage_def cache_ok_def Let_def split: option.splits)

lemma chat_miss:
  assumes "fresh w" "admitted dp ev dec_ChatRequest zero_ChatRequest req_Model (estimate dp) r s = Some (i, q, r1, s1)"
    and "\<not> req_Stream q" "cache_lookup dp ev (Some i) q s1 = (None, s2)"
    and "d_ChatCompletion dp q (sv_world s2) = (Inr resp, q', wd)" "json_marshal (enc_ChatResponse resp) = Some data"
  shows "\<exists>w'. rw_status w' = 200 \<and> rw_body w' = data \<and> client_api dp ev (handleChatCompletion dp ev) r s w =
    (Returned, recordUsage dp ev r1 (Some i) (req_Model q') (resp_Usage resp) (time_Sub (ev_now ev 13) (ev_now ev 12)) 200 False
       (cache_store dp ev (Some i) q' resp (adjustTPM dp ev (Some i) (estimate dp q) (resp_Usage resp) (s2\<lparr>sv_world := wd\<rparr>))), w')"
proof -
  obtain w1 where w1: "fresh w1" "\<And>s'' w''. chat_work dp ev (Some i) q r1 s1 w1 = (Returned, s'', w'') \<Longrightarrow> 0 \<le> rw_status w'' \<Longrightarrow>
      rw_status w'' < 600 \<Longrightarrow> client_api dp ev (handleChatCompletion dp ev) r s w = (Returned, s'', w'')"
    using admitted_Some [OF assms(1,2), of "chat_work dp ev"] unfolding chat_gated by blast
  then show ?thesis using assms(3-6) writeJSON_fresh [OF w1(1) assms(6)] by (simp add: chat_work_def)
qed

lemma chat_hit:
  assumes "fresh w" "admitted dp ev dec_ChatRequest zero_ChatRequest req_Model (estimate dp) r s = Some (i, q, r1, s1)"
    and "cache_lookup dp ev (Some i) q s1 = (Some data, s2)"
  shows "\<exists>w'. rw_status w' = 200 \<and> rw_body w' = data \<and>
    client_api dp ev (handleChatCompletion dp ev) r s w = (Returned, recordUsage dp ev r1 (Some i) (req_Model q) None 0 200 True s2, w')"
proof -
  obtain w1 where w1: "fresh w1" "\<And>s'' w''. chat_work dp ev (Some i) q r1 s1 w1 = (Returned, s'', w'') \<Longrightarrow> 0 \<le> rw_status w'' \<Longrightarrow>
      rw_status w'' < 600 \<Longrightarrow> client_api dp ev (handleChatCompletion dp ev) r s w = (Returned, s'', w'')"
    using admitted_Some [OF assms(1,2), of "chat_work dp ev"] unfolding chat_gated by blast
  let ?w = "Write data (WriteHeader 200 (set_header ''Content-Type'' jsonCT w1))"
  have "rw_status ?w = 200" "rw_body ?w = data"
    using w1(1) by (simp_all add: fresh_def Write_def WriteHeader_def set_header_def rw_status_def body_allowed_def Let_def)
  then show ?thesis using w1(2) [of _ ?w] assms(3) by (simp add: chat_work_def)
qed


section \<open>Streams\<close>

text \<open>The chunks that are relayed, the end of the stream, and the usage that is accounted for: the last one reported.\<close>

definition live :: "StreamChunk \<Rightarrow> bool" where
  "live c \<longleftrightarrow> chunk_Err c = None \<and> \<not> chunk_Done c"

definition broken :: "StreamChunk list \<Rightarrow> bool" where
  "broken ch \<longleftrightarrow> (case dropWhile live ch of c # _ \<Rightarrow> chunk_Err c \<noteq> None | [] \<Rightarrow> False)"

definition reported :: "StreamChunk \<Rightarrow> Usage option \<Rightarrow> Usage option" where
  "reported c u = (case chunk_Usage c of Some v \<Rightarrow> Some v | None \<Rightarrow> u)"

definition final_usage :: "StreamChunk list \<Rightarrow> Usage option \<Rightarrow> Usage option" where
  "final_usage ch u = fold reported (takeWhile live ch @ (if broken ch then [] else take 1 (dropWhile live ch))) u"

definition error_frame :: bytes where
  "error_frame = ''event: error'' @ nl # ''data: {'' @ quote ''error'' @ '':{'' @ quote ''message'' @ '':'' @ quote ''upstream stream error'' @
     '','' @ quote ''type'' @ '':'' @ quote ''stream_error'' @ ''}}'' @ [nl, nl]"

definition relays :: "StreamChunk list \<Rightarrow> bytes \<Rightarrow> bool" where
  "relays ch text \<longleftrightarrow> (\<exists>fs. text = concat (map frame_text fs) @ (if broken ch then error_frame else []) @ sseDone \<and>
     concat (map frame_data fs) = map chunk_Data (takeWhile live ch))"

lemma relays_keepalive: "relays ch text \<Longrightarrow> relays ch (sseKeepAlive @ text)"
  unfolding relays_def by (elim exE conjE) (rule exI [of _ "KeepAlive # _"], simp)

lemma relays_data: "live c \<Longrightarrow> relays ch text \<Longrightarrow> relays (c # ch) (sseDataPrefix @ chunk_Data c @ sseNewline @ text)"
  unfolding relays_def by (elim exE conjE) (rule exI [of _ "Data (chunk_Data c) # _"], simp add: broken_def)

lemma Write_200: "rw_sent w = Some (200, h) \<Longrightarrow> Write data w = w\<lparr>rw_body := rw_body w @ data\<rparr>"
  by (simp add: Write_sent body_allowed_def)

lemma error_text_frame:
  assumes "rw_sent w = Some (200, h)"
  shows "writeSSEError ''upstream stream error'' w = w\<lparr>rw_body := rw_body w @ error_frame\<rparr>"
proof -
  have "quote ''upstream stream error'' = ch_quote # ''upstream stream error'' @ [ch_quote]" by code_simp
  then show ?thesis using assms by (simp add: writeSSEError_def error_frame_def Write_200 sseNewline_def)
qed

lemma stream_step:
  assumes "rw_sent w = Some (200, h)"
  shows "processStreamChunk dp ev r None req ident est u s w =
      ((u, False), finishStream dp ev r req ident est u 200 s, w\<lparr>rw_body := rw_body w @ sseDone, rw_flushed := length (rw_body w @ sseDone)\<rparr>)"
    and "live c \<Longrightarrow> processStreamChunk dp ev r (Some c) req ident est u s w =
      ((reported c u, True), s, w\<lparr>rw_body := rw_body w @ sseDataPrefix @ chunk_Data c @ sseNewline,
         rw_flushed := length (rw_body w @ sseDataPrefix @ chunk_Data c @ sseNewline)\<rparr>)"
    and "\<not> live c \<Longrightarrow> processStreamChunk dp ev r (Some c) req ident est u s w =
      ((final_usage (c # ch) u, False), finishStream dp ev r req ident est (final_usage (c # ch) u) (if broken (c # ch) then 502 else 200) s,
       w\<lparr>rw_body := rw_body w @ (if broken (c # ch) then error_frame else []) @ sseDone,
         rw_flushed := length (rw_body w @ (if broken (c # ch) then error_frame else []) @ sseDone)\<rparr>)"
  using assms
  by (auto simp: processStreamChunk_def writeSSEDone_def writeSSEData_def error_text_frame Write_200 Flush_sent reported_def live_def broken_def final_usage_def
      Let_def split: option.splits)

lemma final_usage_live: "live c \<Longrightarrow> final_usage (c # ch) u = final_usage ch (reported c u)"
  by (simp add: final_usage_def broken_def)

lemma no_chunks: "final_usage [] u = u" "broken [] = False"
  by (simp_all add: final_usage_def broken_def)

lemma stream_loop_relays:
  assumes "SelDone \<notin> set sched" "rw_sent w = Some (200, h)"
  shows "\<exists>w' text. stream_loop dp ev r req ident est ka u sched ch s w =
      (finishStream dp ev r req ident est (final_usage ch u) (if broken ch then 502 else 200) s, w') \<and>
    rw_sent w' = rw_sent w \<and> rw_body w' = rw_body w @ text \<and> relays ch text \<and> rw_flushed w' = length (rw_body w')"
  using assms
proof (induction "length sched + length ch" arbitrary: ka u sched ch w rule: less_induct)
  case less
  show ?case
  proof (cases "\<exists>rest. sched = SelTick # rest")
    case True
    then obtain rest where sched: "sched = SelTick # rest" by blast
    let ?w = "if ka then Flush (writeSSEKeepAlive w) else w"
    have w: "rw_sent ?w = Some (200, h)" "rw_body ?w = rw_body w @ (if ka then sseKeepAlive else [])"
      using less.prems(2) by (auto simp: writeSSEKeepAlive_def Write_200 Flush_sent)
    have "stream_loop dp ev r req ident est ka u sched ch s w = stream_loop dp ev r req ident est ka u rest ch s ?w"
      by (subst stream_loop.simps) (simp add: sched)
    with less.hyps [of rest ch ?w ka u] w less.prems show ?thesis
      by (cases ka) (auto simp: sched intro: relays_keepalive)
  next
    case False
    then have recv: "stream_loop dp ev r req ident est ka u sched ch s w =
        (case ch of
           [] \<Rightarrow> snd (processStreamChunk dp ev r None req ident est u s w)
         | c # cs \<Rightarrow> (case processStreamChunk dp ev r (Some c) req ident est u s w of
              ((usage, go), s, w) \<Rightarrow> if go then stream_loop dp ev r req ident est True usage (tl sched) cs s w else (s, w)))"
      using less.prems(1) by (subst stream_loop.simps) (auto split: list.split sel.split)
    show ?thesis
    proof (cases "ch = [] \<or> \<not> live (hd ch)")
      case True
      have "relays ch ((if broken ch then error_frame else []) @ sseDone)"
        unfolding relays_def using True by (intro exI [of _ "[]"]) (cases ch; simp)
      with True less.prems(2) show ?thesis
        unfolding recv by (cases ch) (simp_all add: stream_step(1) [OF less.prems(2)] stream_step(3) [OF less.prems(2), where ch = "tl ch"] no_chunks)
    next
      case False
      then obtain c cs where ch: "ch = c # cs" "live c" by (cases ch) auto
      let ?w = "w\<lparr>rw_body := rw_body w @ sseDataPrefix @ chunk_Data c @ sseNewline,
         rw_flushed := length (rw_body w @ sseDataPrefix @ chunk_Data c @ sseNewline)\<rparr>"
      have "SelDone \<notin> set (tl sched)" "length (tl sched) + length cs < length sched + length ch"
        using less.prems(1) ch(1) by (cases sched; auto)+
      then obtain w' bt where w': "stream_loop dp ev r req ident est True (reported c u) (tl sched) cs s ?w =
          (finishStream dp ev r req ident est (final_usage cs (reported c u)) (if broken cs then 502 else 200) s, w')"
        "rw_sent w' = rw_sent ?w" "rw_body w' = rw_body ?w @ bt" "relays cs bt" "rw_flushed w' = length (rw_body w')"
        using less.hyps [of "tl sched" cs ?w True "reported c u"] less.prems(2) by auto
      have "broken (c # cs) = broken cs" using ch(2) by (simp add: broken_def)
      with recv w' relays_data [OF ch(2) w'(4)] show ?thesis
        by (auto simp: ch stream_step(2) [OF less.prems(2) ch(2)] final_usage_live)
    qed
  qed
qed

lemma relays_read:
  assumes "relays ch text" "\<not> broken ch" "\<forall>c \<in> set ch. payload_ok (chunk_Data c) \<and> chunk_Data c \<noteq> ''[DONE]''" "rs_Body resp = text"
  shows "ReadSSEStream gj (\<lambda>_. None) p resp = map (with_usage gj) (map chunk_Data (takeWhile live ch)) @ [done_chunk]"
proof -
  obtain fs where fs: "text = concat (map frame_text fs) @ sseDone @ []" "concat (map frame_data fs) = map chunk_Data (takeWhile live ch)"
    using assms(1,2) by (auto simp: relays_def)
  have d: "d \<in> chunk_Data ` set ch" if "Data d \<in> set fs" for d
  proof -
    have "d \<in> set (concat (map frame_data fs))" using that by force
    then show ?thesis unfolding fs(2) by (auto dest: set_takeWhileD)
  qed
  have "payload_ok d \<and> d \<noteq> ''[DONE]''" if "Data d \<in> set fs" for d using d [OF that] assms(3) by fastforce
  then have "frames_ok fs" unfolding frames_ok_def by blast
  then show ?thesis using ReadSSEStream_frames [of fs resp "[]"] fs assms(4) by simp
qed



section \<open>Examples\<close>

text \<open>A small gateway for the examples: the world is a cache and the number of calls to the provider; every request is
  of one identity.\<close>

type_synonym ex_world = "(string \<rightharpoonup> bytes) \<times> nat"

definition ex_server_cache :: "ex_world Cache" where
  "ex_server_cache = \<lparr>ca_Get = (\<lambda>k wd. (fst wd k, wd)), ca_Set = (\<lambda>k d ttl wd. ((fst wd)(k \<mapsto> d), snd wd)), ca_Purge = (\<lambda>wd. (Map.empty, snd wd))\<rparr>"

definition ex_identity :: "string list \<Rightarrow> Identity" where
  "ex_identity models =
     \<lparr>id_Subject = ''k1'', id_KeyID = ''k1'', id_UserID = [], id_TeamID = [], id_OrgID = ''o'', id_Role = ''member'', id_Perms = 1,
      id_AuthMethod = ''apikey'', id_RPMLimit = 0, id_TPMLimit = 0, id_MaxBudget = 0, id_AllowedModels = models\<rparr>"

definition ex_answer :: ChatResponse where
  "ex_answer = zero_ChatResponse\<lparr>resp_ID := ''r1'', resp_Model := ''gpt-4o''\<rparr>"

definition ex_chunk :: StreamChunk where
  "ex_chunk = \<lparr>chunk_Data = ''{}'', chunk_Usage = None, chunk_Done = False, chunk_Err = None\<rparr>"

definition ex_deps :: "string list \<Rightarrow> ex_world Deps" where
  "ex_deps models =
     \<lparr>d_Auth = (\<lambda>_ wd. (Inr (ex_identity models), wd)),
      d_ChatCompletion = (\<lambda>q wd. (Inr ex_answer, q, (fst wd, snd wd + 1))),
      d_ChatCompletionStream = (\<lambda>q wd. (Inr [ex_chunk, done_chunk], q, (fst wd, snd wd + 1))),
      d_Embeddings = (\<lambda>q wd. (Inl (Sentinel ErrProviderError), q, wd)), d_ListModels = (\<lambda>wd. (Inr [], wd)),
      d_CacheTTL = None, d_Usage = None, d_TokenCounter = None, d_Cache = Some ex_server_cache, d_Quota = None, d_ReadyCheck = None, d_Metrics = True,
      d_DefaultRPM = 0, d_DefaultTPM = 0\<rparr>"

definition ex_env :: env where
  "ex_env = \<lparr>ev_now = (\<lambda>_. 0), ev_uuid = Some ''u1'', ev_sched = [SelTick, SelRecv, SelTick], ev_ftext = (\<lambda>_. ''0'')\<rparr>"

definition ex_chat :: "bool \<Rightarrow> ChatRequest" where
  "ex_chat stream = ex_question\<lparr>req_Stream := stream\<rparr>"

definition ex_request :: "bool \<Rightarrow> Request" where
  "ex_request stream = \<lparr>rq_Method = ''POST'', rq_Path = ''/v1/chat/completions'', rq_RawQuery = [], rq_Header = Map.empty,
     rq_Body = marshal_text (enc_ChatRequest (\<lambda>_. ''0'') (ex_chat stream)), rq_BodyErr = None, rq_ctx = None\<rparr>"

definition ex_server :: "ex_world server" where
  "ex_server = \<lparr>sv_limiters = None, sv_meta = [], sv_world = (Map.empty, 0)\<rparr>"

lemma ex_chat_ok: "ChatRequest_ok (\<lambda>_. ''0'') (ex_chat stream)"
  by (simp add: ex_chat_def ChatRequest_ok_def ex_question_def zero_ChatRequest_def float_ok_def int_ok_def raw_ok_def in_int64_def utf8_valid_ascii byte_def
      number_ok_def scan_number_def scan_unsigned_def scan_int_def scan_frac_def scan_exp_def scan_digits_def is_digit_def
      parse_float_def number_val_def digits_val_def digit_val_def exp_val_def pow10_def)

lemma ex_readable:
  assumes "rq_Body r = rq_Body (ex_request stream)" "rq_BodyErr r = None"
  shows "readable dec_ChatRequest zero_ChatRequest r = Some (ex_chat stream)"
proof -
  have "length (rq_Body (ex_request True)) \<le> 100" "length (rq_Body (ex_request False)) \<le> 100" by code_simp+
  then have "length (rq_Body r) \<le> maxRequestBody" using assms(1) by (cases stream) (simp_all add: maxRequestBody_def)
  then show ?thesis
    using assms json_Unmarshal_rereads [OF canon_ChatRequest reread_ChatRequest, OF ex_chat_ok ex_chat_ok]
    by (simp add: readable_def read_limited_def ex_request_def)
qed

text \<open>The example request is admitted if its model is allowed, whatever the cache holds.\<close>

lemma ex_admitted:
  assumes "sv_limiters s = None"
  shows "\<exists>r' s'. sv_world s' = sv_world s \<and> sv_limiters s' = None \<and>
    admitted (ex_deps models) ex_env dec_ChatRequest zero_ChatRequest req_Model (estimate (ex_deps models)) (ex_request stream) s =
      (if IsModelAllowed (ex_identity models) ''gpt-4o'' then Some (ex_identity models, ex_chat stream, r', s') else None)"
proof -
  obtain r1 s1 where id: "identify ex_env (ex_request stream) s = Some (r1, s1)" "rq_Body r1 = rq_Body (ex_request stream)" "rq_BodyErr r1 = None"
    "sv_world s1 = sv_world s" "sv_limiters s1 = None"
    using assms by (auto simp: identify_def request_id_def ex_env_def ex_request_def ContextWithRequestID_def)
  obtain r2 s2 where acc: "accept (ex_deps models) (r1, s1) = Some (ex_identity models, r2, s2)" "rq_Body r2 = rq_Body r1"
    "rq_BodyErr r2 = None" "sv_world s2 = sv_world s1" "sv_limiters s2 = None"
    using id(3,5) by (cases "ContextWithIdentity (sv_meta s1) (rq_ctx r1) (ex_identity models)") (auto simp: accept_def ex_deps_def)
  have "within_limits (ex_deps models) ex_env (ex_identity models) s2 = Some s2" "within_tokens (ex_deps models) ex_env (ex_identity models) n s2 = Some s2" for n
    using acc(5) by (simp_all add: within_limits_def within_tokens_def quota_check_def rpm_check_def tpm_check_def getLimiter_def ex_deps_def)
  then show ?thesis using id acc ex_readable [of r2 stream] by (intro exI [of _ r2] exI [of _ s2]) (simp add: admitted_def ex_chat_def ex_question_def)
qed


section \<open>Properties\<close>

text \<open>
  C28. Nothing behind the server is reached by a request that fails a test. Unless the key is accepted, the budget not
  used up, a request token available, the body readable, the model allowed for the key and tokens available for the
  estimate, a chat completion or an embedding is answered with a status from 400 to 500, and no service but
  authentication and the budget check was asked: whatever these two preserve still holds, so no provider was
  called, no response cached and no usage recorded.
\<close>

theorem request_gates:
  assumes "tests_keep P dp" and "P (sv_world s)" and "fresh w"
  shows "(admitted dp ev dec_ChatRequest zero_ChatRequest req_Model (estimate dp) r s = None \<longrightarrow>
      refused P (client_api dp ev (handleChatCompletion dp ev) r s w)) \<and>
    (admitted dp ev dec_EmbeddingRequest zero_EmbeddingRequest emb_Model (\<lambda>_. 100) r s = None \<longrightarrow>
      refused P (client_api dp ev (handleEmbeddings dp ev) r s w))"
proof -
  obtain work where "handleEmbeddings dp ev = gated dp ev dec_EmbeddingRequest zero_EmbeddingRequest emb_Model (\<lambda>_. 100) work"
    using embeddings_gated by blast
  then show ?thesis
    by (auto simp: chat_gated intro: admitted_None [OF assms])
qed



theorem request_gates_witness:
  "refused (\<lambda>wd. snd wd = 0)
     (client_api (ex_deps [''gpt-4o-mini'']) ex_env (handleChatCompletion (ex_deps [''gpt-4o-mini'']) ex_env) (ex_request False) ex_server new_writer)"
proof -
  let ?dp = "ex_deps [''gpt-4o-mini'']"
  have "tests_keep (\<lambda>wd. snd wd = 0) ?dp" by (simp add: tests_keep_def ex_deps_def)
  moreover have "admitted ?dp ex_env dec_ChatRequest zero_ChatRequest req_Model (estimate ?dp) (ex_request False) ex_server = None"
    using ex_admitted [of ex_server "[''gpt-4o-mini'']" False] by (auto simp: IsModelAllowed_def ex_identity_def ex_chat_def ex_question_def ex_server_def)
  ultimately show ?thesis
    using request_gates [of "\<lambda>wd. snd wd = 0" ?dp ex_server new_writer ex_env "ex_request False"]
    by (simp add: ex_server_def new_writer_def fresh_def)
qed






text \<open>
  C30. A stream is relayed whole. Whatever the interleaving of chunks and keep-alive ticks while the client is there, an
  admitted streaming request ends, with status 200 and every byte flushed. The body is one frame for each chunk up
  to the end of the stream, in order, keep-alive comments in between, an error frame if the provider broke off,
  and the end mark; a client reading an unbroken stream gets the very chunks of the provider. The last usage
  reported is settled with the limiter and recorded, with status 502 for a broken stream.
\<close>

theorem stream_relayed:
  assumes "fresh w" and "admitted dp ev dec_ChatRequest zero_ChatRequest req_Model (estimate dp) r s = Some (i, q, r1, s1)"
    and "req_Stream q" and "d_ChatCompletionStream dp q (sv_world s1) = (Inr ch, q', wd)" and "SelDone \<notin> set (ev_sched ev)"
    and "\<forall>c \<in> set ch. payload_ok (chunk_Data c) \<and> chunk_Data c \<noteq> ''[DONE]''"
  shows "\<exists>w'. client_api dp ev (handleChatCompletion dp ev) r s w =
      (Returned, finishStream dp ev r1 q' (Some i) (estimate dp q) (final_usage ch None) (if broken ch then 502 else 200) (s1\<lparr>sv_world := wd\<rparr>), w') \<and>
    rw_status w' = 200 \<and> rw_flushed w' = length (rw_body w') \<and> relays ch (rw_body w') \<and>
    (\<not> broken ch \<longrightarrow> (\<forall>gj p resp. rs_Body resp = rw_body w' \<longrightarrow>
       ReadSSEStream gj (\<lambda>_. None) p resp = map (with_usage gj) (map chunk_Data (takeWhile live ch)) @ [done_chunk]))"
proof -
  obtain w1 where w1: "fresh w1" "\<And>s'' w''. chat_work dp ev (Some i) q r1 s1 w1 = (Returned, s'', w'') \<Longrightarrow> 0 \<le> rw_status w'' \<Longrightarrow>
      rw_status w'' < 600 \<Longrightarrow> client_api dp ev (handleChatCompletion dp ev) r s w = (Returned, s'', w'')"
    using admitted_Some [OF assms(1,2), of "chat_work dp ev"] unfolding chat_gated by blast
  let ?w = "Flush (writeSSEHeaders w1)"
  have h: "rw_sent ?w = Some (200, the (map_option snd (rw_sent ?w)))" "rw_body ?w = []"
    using w1(1) by (auto simp: fresh_def Flush_def writeSSEHeaders_def WriteHeader_def set_header_def Let_def)
  obtain w' bt where run: "stream_loop dp ev r1 q' (Some i) (estimate dp q) False None (ev_sched ev) ch (s1\<lparr>sv_world := wd\<rparr>) ?w =
      (finishStream dp ev r1 q' (Some i) (estimate dp q) (final_usage ch None) (if broken ch then 502 else 200) (s1\<lparr>sv_world := wd\<rparr>), w')"
    and w': "rw_sent w' = rw_sent ?w" "rw_body w' = bt" "relays ch bt" "rw_flushed w' = length (rw_body w')"
    using stream_loop_relays [OF assms(5) h(1)] h(2) by fastforce
  have "cache_lookup dp ev (Some i) q s1 = (None, s1)" using assms(3) by (simp add: cache_lookup_def split: option.split)
  then have work: "chat_work dp ev (Some i) q r1 s1 w1 =
      (Returned, finishStream dp ev r1 q' (Some i) (estimate dp q) (final_usage ch None) (if broken ch then 502 else 200) (s1\<lparr>sv_world := wd\<rparr>), w')"
    using assms(3,4) run by (simp add: chat_work_def handleChatCompletionStream_def)
  have st: "rw_status w' = 200" using w'(1) h(1) unfolding rw_status_def by (metis (mono_tags, lifting) case_prod_conv option.simps(5))
  have "ReadSSEStream gj (\<lambda>_. None) p resp = map (with_usage gj) (map chunk_Data (takeWhile live ch)) @ [done_chunk]"
    if "\<not> broken ch" "rs_Body resp = rw_body w'" for gj p resp
    using relays_read [OF w'(3) that(1) assms(6)] that(2) w'(2) by simp
  then show ?thesis using w1(2) [OF work] st w' by auto
qed


theorem stream_relayed_witness:
  "\<exists>s' w'. client_api (ex_deps []) ex_env (handleChatCompletion (ex_deps []) ex_env) (ex_request True) ex_server new_writer = (Returned, s', w') \<and>
     rw_status w' = 200 \<and> rw_flushed w' = length (rw_body w') \<and> relays [ex_chunk, done_chunk] (rw_body w')"
proof -
  let ?dp = "ex_deps []" and ?i = "ex_identity []"
  have w: "fresh new_writer" by (simp add: fresh_def new_writer_def)
  have ch: "\<forall>c \<in> set [ex_chunk, done_chunk]. payload_ok (chunk_Data c) \<and> chunk_Data c \<noteq> ''[DONE]''"
    by (simp add: ex_chunk_def done_chunk_def payload_ok_def maxLineSize_def)
  obtain r1 s1 where a: "admitted ?dp ex_env dec_ChatRequest zero_ChatRequest req_Model (estimate ?dp) (ex_request True) ex_server = Some (?i, ex_chat True, r1, s1)"
    using ex_admitted [of ex_server "[]" True] by (auto simp: ex_server_def IsModelAllowed_def ex_identity_def)
  have q: "req_Stream (ex_chat True)" "SelDone \<notin> set (ev_sched ex_env)"
    "d_ChatCompletionStream ?dp (ex_chat True) (sv_world s1) = (Inr [ex_chunk, done_chunk], ex_chat True, (fst (sv_world s1), snd (sv_world s1) + 1))"
    by (simp_all add: ex_chat_def ex_env_def ex_deps_def)
  from stream_relayed [OF w a q(1,3,2) ch] show ?thesis by blast
qed

end
