(* ===== verification/Admin_Props.thy ===== *)
theory Admin_Props
  imports Admin Server_Props
begin

text \<open>
  Properties of the admin API: which roles reach which endpoints, and that the key endpoints of one organisation neither
  read nor change the keys of another.
\<close>

section \<open>Roles\<close>

text \<open>Who may call an endpoint: administrators, and for usage also viewers.\<close>

definition may_call :: "endpoint \<Rightarrow> string set" where
  "may_call e = (if strings_HasPrefix (snd (endpoint_pattern e)) ''/usage'' then {''admin'', ''viewer''} else {''admin''})"

lemma role_can:
  assumes "id_Perms i = role_perms (id_Role i)"
  shows "Can i PermManageProviders \<longleftrightarrow> id_Role i = ''admin''" "Can i PermManageAllKeys \<longleftrightarrow> id_Role i = ''admin''"
    "Can i PermManageRoutes \<longleftrightarrow> id_Role i = ''admin''" "Can i PermViewAllUsage \<longleftrightarrow> id_Role i = ''admin'' \<or> id_Role i = ''viewer''"
  using assms
  by (auto simp: Can_def role_perms_def RolePermissions_def PermUseModels_def PermManageOwnKeys_def PermViewOwnUsage_def PermViewAllUsage_def
      PermManageAllKeys_def PermManageProviders_def PermManageRoutes_def PermManageOrgs_def)

lemma endpoint_roles:
  assumes "id_Perms i = role_perms (id_Role i)"
  shows "Can i (endpoint_perm e) \<longleftrightarrow> id_Role i \<in> may_call e"
  by (cases e) (simp_all add: endpoint_perm_def role_can [OF assms] may_call_def strings_HasPrefix_def)

lemma built_perms: "id_Perms (buildIdentity k) = role_perms (id_Role (buildIdentity k))"
  by (simp add: buildIdentity_def Let_def)

lemma perm_refused:
  assumes "identity_of r s = Some i" "\<not> Can i p" "fresh w" "P (sv_world s)"
  shows "refused P (requirePerm p h r s w)"
  using assms by (simp add: requirePerm_def refused_error)

lemma perm_granted: "identity_of r s = Some i \<Longrightarrow> Can i p \<Longrightarrow> requirePerm p h r s w = h r s w"
  by (simp add: requirePerm_def)



section \<open>Organisations\<close>

text \<open>A step of the store within an organisation: the keys of the others and all other tables stay as they are.\<close>

definition foreign_keys :: "string \<Rightarrow> db \<Rightarrow> key_row list" where
  "foreign_keys org d = filter (\<lambda>k. kr_org_id k \<noteq> org) (api_keys d)"

definition within_org :: "string \<Rightarrow> db \<Rightarrow> db \<Rightarrow> bool" where
  "within_org org d d' \<longleftrightarrow> db_ok d' \<and> foreign_keys org d' = foreign_keys org d \<and> d'\<lparr>api_keys := []\<rparr> = d\<lparr>api_keys := []\<rparr>"

lemma within_org_refl: "db_ok d \<Longrightarrow> within_org org d d"
  by (simp add: within_org_def)

lemma create_within:
  assumes "db_ok d" "key_OrgID k = org"
  shows "within_org org d (snd (st_CreateKey flt k d))"
proof -
  have "within_org org d d'" if "insert_key (key_values k m) d = Inr (n, d')" for m n d'
  proof -
    have "d' = d\<lparr>api_keys := api_keys d @ [key_values k m]\<rparr>" using that by (auto simp: insert_key_def split: if_splits)
    then show ?thesis using keys_keep_db_ok(1) [OF assms(1) that] assms(2) by (simp add: within_org_def foreign_keys_def key_values_def)
  qed
  then show ?thesis using exec_keeps(1) [of "within_org org d" d, OF within_org_refl [OF assms(1)]] within_org_refl [OF assms(1)]
    by (auto simp: st_CreateKey_def split: sum.split)
qed

text \<open>The key found under an id is the only row with that id.\<close>

lemma found_key:
  assumes "db_ok d" "GetKey flt i d = Inr k"
  shows "key_ID k = i" "r \<in> set (api_keys d) \<Longrightarrow> kr_id r = i \<Longrightarrow> kr_org_id r = key_OrgID k \<and> scanKey r = Inr k"
proof -
  obtain r0 rs where f: "filter (\<lambda>r. kr_id r = i) (api_keys d) = r0 # rs" "scanKey r0 = Inr k"
    using assms(2) by (auto simp: GetKey_def scan_one_def QueryRowContext_def split: option.splits list.splits)
  then have "r0 \<in> set (filter (\<lambda>r. kr_id r = i) (api_keys d))" by simp
  then have r0: "r0 \<in> set (api_keys d)" "kr_id r0 = i" by simp_all
  have org: "key_OrgID k = kr_org_id r0" using f(2) by (auto simp: scanKey_def split: sum.splits)
  show "key_ID k = i" using scanKey_ids [OF f(2)] r0(2) by simp
  show "kr_org_id r = key_OrgID k \<and> scanKey r = Inr k" if "r \<in> set (api_keys d)" "kr_id r = i"
  proof -
    have "distinct (map kr_id (api_keys d))" using assms(1) by (simp add: db_ok_def)
    then have "r = r0" using filter_unique [of kr_id "api_keys d" r] filter_unique [of kr_id "api_keys d" r0] that r0 by simp
    then show ?thesis using org f(2) by simp
  qed
qed

lemma filter_map_keep: "(\<And>x. x \<in> set xs \<Longrightarrow> P (f x) = P x \<and> (P x \<longrightarrow> f x = x)) \<Longrightarrow> filter P (map f xs) = filter P xs"
  by (induction xs) auto

lemma update_within:
  assumes "db_ok d" "GetKey flt' i d = Inr k0" "key_OrgID k0 = org" "key_ID k = i"
  shows "within_org org d (snd (UpdateKey flt k d))"
proof -
  have "within_org org d d'" if u: "update_key k m d = Inr (n, d')" for m n d'
  proof -
    have "d' = d\<lparr>api_keys := map (\<lambda>r. if kr_id r = i then set_key k m r else r) (api_keys d)\<rparr>"
      using u assms(4) by (auto simp: update_key_def Let_def)
    moreover have "filter (\<lambda>k. kr_org_id k \<noteq> org) (map (\<lambda>r. if kr_id r = i then set_key k m r else r) (api_keys d)) =
        filter (\<lambda>k. kr_org_id k \<noteq> org) (api_keys d)"
      using found_key(2) [OF assms(1,2)] assms(3) by (intro filter_map_keep) auto
    ultimately show ?thesis using keys_keep_db_ok(2) [OF assms(1) u] by (simp add: within_org_def foreign_keys_def)
  qed
  then show ?thesis using exec_keeps(2) [of "within_org org d" d, OF within_org_refl [OF assms(1)]] within_org_refl [OF assms(1)]
    by (auto simp: UpdateKey_def split: sum.split)
qed

lemma delete_within:
  assumes "db_ok d" "GetKey flt' i d = Inr k0" "key_OrgID k0 = org"
  shows "within_org org d (snd (st_DeleteKey flt i d))"
proof -
  have "within_org org d d'" if u: "delete_key i d = Inr (n, d')" for n d'
  proof -
    have "d' = d\<lparr>api_keys := filter (\<lambda>r. kr_id r \<noteq> i) (api_keys d)\<rparr>" using u by (auto simp: delete_key_def)
    moreover have "filter (\<lambda>k. kr_org_id k \<noteq> org) (filter (\<lambda>r. kr_id r \<noteq> i) (api_keys d)) = filter (\<lambda>k. kr_org_id k \<noteq> org) (api_keys d)"
      unfolding filter_filter using found_key(2) [OF assms(1,2)] assms(3) by (intro filter_cong) auto
    ultimately show ?thesis using keys_keep_db_ok(3) [OF assms(1) u] by (simp add: within_org_def foreign_keys_def)
  qed
  then show ?thesis using exec_keeps(2) [of "within_org org d" d, OF within_org_refl [OF assms(1)]] by (auto simp: st_DeleteKey_def)
qed


text \<open>The store is a part of the world of its own, and invalidating a cached key does not touch it.\<close>

definition store_ok :: "'w Admin \<Rightarrow> bool" where
  "store_ok ad \<longleftrightarrow> (\<forall>d wd. st_db (ad_Store ad) (st_set_db (ad_Store ad) d wd) = d) \<and>
     (\<forall>f i wd. ad_KeyInvalidator ad = Some f \<longrightarrow> st_db (ad_Store ad) (f i wd) = st_db (ad_Store ad) wd)"

lemma the_db_put: "store_ok ad \<Longrightarrow> the_db ad (put_db ad d s) = d" "store_ok ad \<Longrightarrow> the_db ad (invalidate ad i (put_db ad d s)) = d"
  by (simp_all add: store_ok_def the_db_def put_db_def invalidate_def split: option.split)

definition key_endpoints :: "endpoint set" where
  "key_endpoints = {ListKeysEP, CreateKeyEP, GetKeyEP, UpdateKeyEP, DeleteKeyEP}"

definition not_found :: "ResponseWriter \<Rightarrow> ResponseWriter" where
  "not_found w = writeJSON 404 (errorResponse ''not found'') w"

lemma create_handler_within:
  assumes "store_ok ad" "db_ok (the_db ad s)" "identity_of r s = Some i" "handleCreateKey ad ae r s w = (out, s', w')"
  shows "within_org (id_OrgID i) (the_db ad s) (the_db ad s')"
proof -
  have "within_org (id_OrgID i) (the_db ad s) (snd (km_CreateKey (st_CreateKey flt) raw u now (key_opts q (id_OrgID i) x) (the_db ad s)))" for flt raw u now q x
    using create_within [OF assms(2), of _ "id_OrgID i" flt] within_org_refl [OF assms(2)]
    by (auto simp: km_CreateKey_def new_key_def key_opts_def Let_def split: sum.split prod.splits option.splits dest: arg_cong [of _ _ snd])
       (metis (no_types, lifting) APIKey.select_convs(6) snd_conv)+
  then show ?thesis
    using assms(3,4) within_org_refl [OF assms(2)] the_db_put(1) [OF assms(1)]
    by (auto simp: handleCreateKey_def Let_def split: prod.splits option.splits if_splits sum.splits) (metis snd_conv)+
qed


lemma list_handler:
  assumes "identity_of r s = Some i"
  shows "\<exists>w'. handleListKeys ad ae r s w = (Returned, s, w') \<and>
    ((\<exists>ks off lim. (\<forall>k \<in> set ks. key_OrgID k = id_OrgID i) \<and>
       w' = writeJSON 200 (enc_listResponse (map (enc_APIKey ae) ks) off lim (fst (CountKeys (ae_flt ae 1) (id_OrgID i) (the_db ad s)))) w) \<or>
     (\<exists>st m. 400 \<le> st \<and> w' = writeJSON st (errorResponse m) w))"
proof -
  have own: "\<forall>k \<in> set ks. key_OrgID k = org" if "ListKeys flt plan org off lim d = Inr ks" for flt plan org off lim d ks
  proof -
    have scan: "\<forall>k \<in> set ks. \<exists>r \<in> set rows. scanKey r = Inr k" if "scan_rows scanKey rows = Inr ks" for rows ks
      using that by (induction rows arbitrary: ks) (auto split: sum.splits)
    have "set (limit_offset lim off (order_by_desc kr_created_at (filter (\<lambda>r. kr_org_id r = org) xs))) \<subseteq> {r. kr_org_id r = org}" for xs
      by (auto simp: limit_offset_def order_by_desc_def Let_def split: if_splits dest!: in_set_takeD in_set_dropD)
    then show ?thesis using that scan
      by (fastforce simp: ListKeys_def query_rows_def QueryContext_def scanKey_def split: option.splits sum.splits)
  qed
  consider "resolveOrgID i r w = (Some (id_OrgID i), w)" | m where "resolveOrgID i r w = (None, writeJSON 403 (errorResponse m) w)"
    by (fastforce simp: resolveOrgID_def Let_def)
  then show ?thesis
  proof cases
    case 1
    obtain off lim where pg: "parsePagination r = (off, lim)" by fastforce
    show ?thesis
    proof (cases "ListKeys (ae_flt ae 0) (ae_plan_keys ae) (id_OrgID i) off lim (the_db ad s)")
      case (Inl err)
      then have "handleListKeys ad ae r s w = (Returned, s, writeJSON 500 (errorResponse ''failed to list keys'') w)"
        using assms 1 pg by (simp add: handleListKeys_def)
      then show ?thesis by (intro exI conjI disjI2) auto
    next
      case (Inr ks)
      then have "handleListKeys ad ae r s w =
          (Returned, s, writeJSON 200 (enc_listResponse (map (enc_APIKey ae) ks) off lim (fst (CountKeys (ae_flt ae 1) (id_OrgID i) (the_db ad s)))) w)"
        using assms 1 pg by (simp add: handleListKeys_def)
      then show ?thesis using own [OF Inr] by (intro exI conjI disjI1) auto
    qed
  next
    case 2
    then have "handleListKeys ad ae r s w = (Returned, s, writeJSON 403 (errorResponse m) w)" using assms by (simp add: handleListKeys_def)
    then show ?thesis by (intro exI conjI disjI2) auto
  qed
qed

lemma own_key_missing:
  assumes "identity_of r s = Some i" "ae_flt ae 0 = None"
    and "\<forall>row \<in> set (api_keys (the_db ad s)). kr_id row = ae_id ae \<longrightarrow> kr_org_id row \<noteq> id_OrgID i \<and> (\<exists>k. scanKey row = Inr k)"
  shows "with_own_key ad ae next r s w = (Returned, s, not_found w)"
proof (cases "filter (\<lambda>r. kr_id r = ae_id ae) (api_keys (the_db ad s))")
  case Nil
  then show ?thesis using assms(2)
    by (simp add: with_own_key_def GetKey_def scan_one_def QueryRowContext_def notFoundErr_def writeAdminError_def not_found_def errorStatus_def ErrNoRows_def)
next
  case (Cons row rows)
  then have "row \<in> set (filter (\<lambda>r. kr_id r = ae_id ae) (api_keys (the_db ad s)))" by simp
  with assms(3) obtain k where k: "scanKey row = Inr k" "kr_org_id row \<noteq> id_OrgID i" by auto
  have "key_OrgID k = kr_org_id row" using k(1) by (auto simp: scanKey_def split: sum.splits)
  then show ?thesis using assms(1,2) k Cons
    by (simp add: with_own_key_def GetKey_def scan_one_def QueryRowContext_def not_found_def)
qed

lemma own_key_within:
  assumes "db_ok (the_db ad s)" "identity_of r s = Some i" "with_own_key ad ae next r s w = (out, s', w')"
    and "\<And>k. GetKey (ae_flt ae 0) (ae_id ae) (the_db ad s) = Inr k \<Longrightarrow> key_OrgID k = id_OrgID i \<Longrightarrow> next k r s w = (out, s', w') \<Longrightarrow>
      within_org (id_OrgID i) (the_db ad s) (the_db ad s')"
  shows "within_org (id_OrgID i) (the_db ad s) (the_db ad s')"
  using assms(2-4) within_org_refl [OF assms(1)] by (auto simp: with_own_key_def split: sum.splits if_splits)

lemma updated_key_ids [simp]: "key_ID (updated_key u x k) = key_ID k" "key_OrgID (updated_key u x k) = key_OrgID k"
  by (simp_all add: updated_key_def)

lemma update_handler_within:
  assumes "store_ok ad" "db_ok (the_db ad s)" "identity_of r s = Some i" "handleUpdateKey ad ae r s w = (out, s', w')"
  shows "within_org (id_OrgID i) (the_db ad s) (the_db ad s')"
proof (rule own_key_within [OF assms(2,3) assms(4) [unfolded handleUpdateKey_def]], goal_cases)
  case (1 k)
  have "within_org (id_OrgID i) (the_db ad s) (snd (UpdateKey (ae_flt ae 1) (updated_key u x k) (the_db ad s)))" for u x
    using update_within [OF assms(2) 1(1,2)] found_key(1) [OF assms(2) 1(1)] by simp
  then show ?case
    using 1(3) within_org_refl [OF assms(2)] the_db_put [OF assms(1)]
    by (auto simp: Let_def split: prod.splits option.splits if_splits) (metis snd_conv)+
qed

lemma delete_handler_within:
  assumes "store_ok ad" "db_ok (the_db ad s)" "identity_of r s = Some i" "handleDeleteKey ad ae r s w = (out, s', w')"
  shows "within_org (id_OrgID i) (the_db ad s) (the_db ad s')"
proof (rule own_key_within [OF assms(2,3) assms(4) [unfolded handleDeleteKey_def]], goal_cases)
  case (1 k)
  show ?case
    using 1(3) delete_within [OF assms(2) 1(1,2), of "ae_flt ae 1"] the_db_put [OF assms(1)]
    by (auto split: prod.splits option.splits)
qed


text \<open>
  C32. Organisations are separated. A call to a key endpoint by a caller of one organisation leaves the keys of all other
  organisations, and every other table, as they are, and the schema valid; a list shows and counts own keys
  only; and a key of another organisation is answered exactly like a key that does not exist, with nothing
  changed.
\<close>

theorem key_tenancy:
  assumes "store_ok ad" and "db_ok (the_db ad s)" and "identity_of r s = Some i" and "e \<in> key_endpoints"
    and "endpoint_handler dp ad ae e r s w = (out, s', w')"
  shows "within_org (id_OrgID i) (the_db ad s) (the_db ad s') \<and>
    (e = ListKeysEP \<longrightarrow> s' = s \<and>
      ((\<exists>ks off lim. (\<forall>k \<in> set ks. key_OrgID k = id_OrgID i) \<and>
         w' = writeJSON 200 (enc_listResponse (map (enc_APIKey ae) ks) off lim (fst (CountKeys (ae_flt ae 1) (id_OrgID i) (the_db ad s)))) w) \<or>
       (\<exists>st m. 400 \<le> st \<and> w' = writeJSON st (errorResponse m) w))) \<and>
    (e \<in> {GetKeyEP, UpdateKeyEP, DeleteKeyEP} \<longrightarrow> ae_flt ae 0 = None \<longrightarrow>
      (\<forall>row \<in> set (api_keys (the_db ad s)). kr_id row = ae_id ae \<longrightarrow> kr_org_id row \<noteq> id_OrgID i \<and> (\<exists>k. scanKey row = Inr k)) \<longrightarrow>
      out = Returned \<and> s' = s \<and> w' = writeJSON 404 (errorResponse ''not found'') w)"
proof -
  have "within_org (id_OrgID i) (the_db ad s) (the_db ad s')"
  proof (cases e)
    case ListKeysEP
    then show ?thesis using list_handler [OF assms(3), of ad ae w] assms(5) within_org_refl [OF assms(2)] by auto
  next
    case CreateKeyEP
    then show ?thesis using create_handler_within [OF assms(1-3)] assms(5) by auto
  next
    case GetKeyEP
    then show ?thesis using own_key_within [OF assms(2,3)] within_org_refl [OF assms(2)] assms(5) by (fastforce simp: handleGetKey_def)
  next
    case UpdateKeyEP
    then show ?thesis using update_handler_within [OF assms(1-3)] assms(5) by auto
  next
    case DeleteKeyEP
    then show ?thesis using delete_handler_within [OF assms(1-3)] assms(5) by auto
  qed (use assms(4) in \<open>auto simp: key_endpoints_def\<close>)
  moreover have "out = Returned \<and> s' = s \<and> w' = not_found w"
    if "e \<in> {GetKeyEP, UpdateKeyEP, DeleteKeyEP}" "ae_flt ae 0 = None"
      "\<forall>row \<in> set (api_keys (the_db ad s)). kr_id row = ae_id ae \<longrightarrow> kr_org_id row \<noteq> id_OrgID i \<and> (\<exists>k. scanKey row = Inr k)"
    using that(1) assms(5) by (auto simp: handleGetKey_def handleUpdateKey_def handleDeleteKey_def own_key_missing [OF assms(3) that(2,3)])
  moreover have "s' = s \<and> ((\<exists>ks off lim. (\<forall>k \<in> set ks. key_OrgID k = id_OrgID i) \<and>
      w' = writeJSON 200 (enc_listResponse (map (enc_APIKey ae) ks) off lim (fst (CountKeys (ae_flt ae 1) (id_OrgID i) (the_db ad s)))) w) \<or>
    (\<exists>st m. 400 \<le> st \<and> w' = writeJSON st (errorResponse m) w))" if e: "e = ListKeysEP"
  proof -
    have "handleListKeys ad ae r s w = (out, s', w')" using assms(5) e by simp
    with list_handler [OF assms(3), of ad ae w] show ?thesis by (elim exE conjE) (simp only: prod.inject simp_thms)
  qed
  ultimately show ?thesis unfolding not_found_def by blast
qed

section \<open>Examples\<close>

text \<open>A world that is the store, with a second organisation that has a key, and a caller with the given role.\<close>

definition ex_admin :: "db Admin" where
  "ex_admin = \<lparr>ad_Store = \<lparr>st_db = (\<lambda>d. d), st_set_db = (\<lambda>d _. d), st_usage = (\<lambda>_. \<lparr>usage_records = [], usage_rollups = []\<rparr>)\<rparr>,
     ad_KeyInvalidator = None\<rparr>"

definition ex_admin_env :: admin_env where
  "ex_admin_env = \<lparr>ae_flt = (\<lambda>_. None), ae_id = ''k2'', ae_random = Inr [], ae_uuid = Some ''u'', ae_now = 0, ae_plan_keys = (\<lambda>x. x),
     ae_plan_providers = (\<lambda>x. x), ae_plan_routes = (\<lambda>x. x), ae_plan_usage = (\<lambda>x. x), ae_plan_rollups = (\<lambda>x. x),
     ae_ftext = (\<lambda>_. ''0''), ae_ttext = time_Format\<rparr>"

definition ex_row :: key_row where
  "ex_row = \<lparr>kr_id = ''k2'', kr_key_hash = ''h2'', kr_key_prefix = ''gnd_x'', kr_user_id = None, kr_team_id = None, kr_org_id = ''other'',
     kr_role = ''member'', kr_allowed_models = None, kr_rpm_limit = None, kr_tpm_limit = None, kr_max_budget = None, kr_expires_at = None,
     kr_blocked = 0, kr_last_used_at = None, kr_created_at = []\<rparr>"

definition ex_two_orgs :: db where
  "ex_two_orgs =
     \<lparr>organizations = [\<lparr>og_id = ''default'', og_name = [], og_allowed_models = None, og_rpm_limit = None, og_tpm_limit = None,
          og_max_budget = None, og_created_at = []\<rparr>,
        \<lparr>og_id = ''other'', og_name = [], og_allowed_models = None, og_rpm_limit = None, og_tpm_limit = None, og_max_budget = None, og_created_at = []\<rparr>],
      teams = [], providers = [], api_keys = [ex_row], routes = []\<rparr>"

definition ex_caller :: "string \<Rightarrow> APIKey" where
  "ex_caller role =
     \<lparr>key_ID = ''k1'', key_Hash = ''h1'', key_Prefix = ''gnd_a'', key_UserID = [], key_TeamID = [], key_OrgID = ''default'', key_Role = role,
      key_AllowedModels = [], key_RPMLimit = None, key_TPMLimit = None, key_MaxBudget = None, key_ExpiresAt = None, key_Blocked = False,
      key_LastUsedAt = None, key_CreatedAt = 0\<rparr>"

definition ex_admin_deps :: "string \<Rightarrow> db Deps" where
  "ex_admin_deps role =
     \<lparr>d_Auth = (\<lambda>_ wd. (Inr (buildIdentity (ex_caller role)), wd)), d_ChatCompletion = (\<lambda>q wd. (Inr ex_answer, q, wd)),
      d_ChatCompletionStream = (\<lambda>q wd. (Inr [], q, wd)), d_Embeddings = (\<lambda>q wd. (Inl (Sentinel ErrProviderError), q, wd)),
      d_ListModels = (\<lambda>wd. (Inr [], wd)), d_CacheTTL = None, d_Usage = None, d_TokenCounter = None, d_Cache = None, d_Quota = None,
      d_ReadyCheck = None, d_Metrics = True, d_DefaultRPM = 0, d_DefaultTPM = 0\<rparr>"

definition ex_admin_server :: "string \<Rightarrow> db server" where
  "ex_admin_server role = \<lparr>sv_limiters = None, sv_meta = [\<lparr>meta_RequestID = [], meta_Identity = Some (buildIdentity (ex_caller role))\<rparr>], sv_world = ex_two_orgs\<rparr>"


theorem key_tenancy_witness:
  "snd (handleDeleteKey ex_admin ex_admin_env ((ex_request False)\<lparr>rq_ctx := Some 0\<rparr>) (ex_admin_server ''admin'') new_writer) =
     (ex_admin_server ''admin'', writeJSON 404 (errorResponse ''not found'') new_writer)"
proof -
  let ?s = "ex_admin_server ''admin''" and ?r = "(ex_request False)\<lparr>rq_ctx := Some 0\<rparr>"
  have st: "store_ok ex_admin" "db_ok (the_db ex_admin ?s)"
    by (simp_all add: store_ok_def ex_admin_def the_db_def ex_admin_server_def db_ok_def ex_two_orgs_def ex_row_def)
  have i: "identity_of ?r ?s = Some (buildIdentity (ex_caller ''admin''))"
    by (simp add: identity_of_def ex_admin_server_def IdentityFromContext_def metaFromContext_def)
  have e: "DeleteKeyEP \<in> key_endpoints" by (simp add: key_endpoints_def)
  obtain out s' w' where h: "endpoint_handler (ex_admin_deps ''admin'') ex_admin ex_admin_env DeleteKeyEP ?r ?s new_writer = (out, s', w')"
    by (cases "endpoint_handler (ex_admin_deps ''admin'') ex_admin ex_admin_env DeleteKeyEP ?r ?s new_writer") 
  have "\<forall>row \<in> set (api_keys (the_db ex_admin ?s)). kr_id row = ae_id ex_admin_env \<longrightarrow>
      kr_org_id row \<noteq> id_OrgID (buildIdentity (ex_caller ''admin'')) \<and> (\<exists>k. scanKey row = Inr k)"
    by (simp add: the_db_def ex_admin_def ex_admin_server_def ex_two_orgs_def ex_row_def scanKey_def unmarshalStringSlice_def buildIdentity_def
        ex_caller_def Let_def)
  moreover have "ae_flt ex_admin_env 0 = None" by (simp add: ex_admin_env_def)
  ultimately show ?thesis using key_tenancy [OF st i e h] h by simp
qed


section \<open>Routes without targets\<close>

text \<open>A route that was created without targets can be stored, but neither it nor any list of routes that contains it can be
  read again: nothing is written, which the client sees as an empty response with status 200.\<close>

lemma blank_no_json: "json_marshal (enc_Route False rt) = None" if "rt_Targets rt = []"
proof -
  have "json_parse '' '' = None" by code_simp
  then show ?thesis using that by (simp add: json_marshal_def enc_Route_def)
qed

lemma route_without_targets:
  assumes "GetRoute (ae_flt ae 0) (ae_id ae) (the_db ad s) = Inr rt" "rt_Targets rt = []"
  shows "handleGetRoute ad ae r s w = (Returned, s, w)"
  using assms blank_no_json [OF assms(2)] by (simp add: handleGetRoute_def writeJSON_def)

lemma routes_without_targets:
  assumes "ListRoutes (ae_flt ae 0) (ae_plan_routes ae) (the_db ad s) = Inr rts" "rt \<in> set rts" "rt_Targets rt = []"
  shows "handleListRoutes ad ae r s w = (Returned, s, w)"
proof -
  have "\<not> raws_ok (enc_Route False rt)" using blank_no_json [OF assms(3)] by (simp add: json_marshal_def split: if_splits)
  then have "json_marshal (enc_listResponse (map (enc_Route False) rts) off lim n) = None" for off lim n
    using assms(2) by (auto simp: json_marshal_def enc_listResponse_def)
  then show ?thesis using assms(1) by (simp add: handleListRoutes_def writeJSON_def)
qed

end
