(* ===== verification/Native.thy ===== *)
theory Native
  imports Server_Props Forward Proxy_Service
begin

text \<open>
  Native API passthrough in the server (\<open>internal/server/native.go\<close>): the provider-specific routes, the normalisation of their
  credentials, and the handlers that pick a provider and forward the raw request with its \<open>ProxyRequest\<close> (theory
  \<open>Forward\<close>). A parameter of the path, which the router extracts, is given by \<open>param\<close>.
\<close>

section \<open>Providers\<close>

text \<open>What the handlers ask of a provider: its type, and its native proxy if it has one. The adapters all have one.\<close>

record 'p NativeOps =
  no_Type :: "'p \<Rightarrow> string"
  no_Proxy :: "'p \<Rightarrow> (Request \<Rightarrow> string \<Rightarrow> ResponseWriter \<Rightarrow> goerror option \<times> ResponseWriter) option"

datatype adapter = OpenAI openai_Client | Ollama ollama_Client | Anthropic cloud_Client | Gemini cloud_Client

fun adapter_Type :: "adapter \<Rightarrow> string" where
  "adapter_Type (OpenAI c) = ''openai''"
| "adapter_Type (Ollama c) = ''ollama''"
| "adapter_Type (Anthropic c) = ''anthropic''"
| "adapter_Type (Gemini c) = ''gemini''"

fun adapter_Proxy ::
  "(bytes \<Rightarrow> bytes list) \<Rightarrow> http_env \<Rightarrow> adapter \<Rightarrow> Request \<Rightarrow> string \<Rightarrow> ResponseWriter \<Rightarrow> goerror option \<times> ResponseWriter" where
  "adapter_Proxy arrives net (OpenAI c) r path w = openai_ProxyRequest arrives net c w r path"
| "adapter_Proxy arrives net (Ollama c) r path w = ollama_ProxyRequest arrives net c w r path"
| "adapter_Proxy arrives net (Anthropic c) r path w = anthropic_ProxyRequest arrives net c w r path"
| "adapter_Proxy arrives net (Gemini c) r path w = gemini_ProxyRequest arrives net c w r path"

definition adapter_ops :: "(bytes \<Rightarrow> bytes list) \<Rightarrow> http_env \<Rightarrow> adapter NativeOps" where
  "adapter_ops arrives net = \<lparr>no_Type = adapter_Type, no_Proxy = (\<lambda>p. Some (adapter_Proxy arrives net p))\<rparr>"

record ('w, 'p) Native =
  nv_ops :: "'p NativeOps"
  nv_Providers :: "'p provider_Registry"
  nv_order :: "string list"
  nv_ResolveModel :: "string \<Rightarrow> 'w \<Rightarrow> (goerror + ResolvedTarget list) \<times> 'w"

section \<open>Handlers\<close>

definition isValidParam :: "string \<Rightarrow> bool" where
  "isValidParam s = isValidToken s maxRequestIDLen"

text \<open>The first target whose provider is registered, has the type and a native proxy gets the request.\<close>

fun native_target :: "('w, 'p) Native \<Rightarrow> string \<Rightarrow> string \<Rightarrow> Request \<Rightarrow> ResolvedTarget list \<Rightarrow> ResponseWriter \<Rightarrow> ResponseWriter" where
  "native_target nv providerType path r [] w = writeJSON 502 (errorResponse ''no matching provider available'') w"
| "native_target nv providerType path r (target # targets) w =
     (case pr_Get (nv_Providers nv) (rtg_ProviderID target) of
        Inl err \<Rightarrow> native_target nv providerType path r targets w
      | Inr p \<Rightarrow>
          if no_Type (nv_ops nv) p \<noteq> providerType then native_target nv providerType path r targets w
          else (case no_Proxy (nv_ops nv) p of
                  None \<Rightarrow> native_target nv providerType path r targets w
                | Some proxy \<Rightarrow>
                    if path = [] then writeJSON 400 (errorResponse ''invalid path parameters'') w
                    else snd (proxy r path w)))"

definition handleNativeProxy ::
  "('w, 'p) Native \<Rightarrow> string \<Rightarrow> string \<Rightarrow> (bytes \<Rightarrow> string) \<Rightarrow> 'w handler" where
  "handleNativeProxy nv providerType path modelFunc r s w =
     (case read_limited maxRequestBody r of
        Inl err \<Rightarrow> (Returned, s, writeJSON 400 (errorResponse ''failed to read request body'') w)
      | Inr body \<Rightarrow>
          (let model = modelFunc body
           in if model = [] then (Returned, s, writeJSON 400 (errorResponse ''model not specified'') w)
              else if \<not> model_allowed (identity_of r s) model then (Returned, s, writeJSON 403 (errorResponse ''model not allowed'') w)
              else (case in_world (nv_ResolveModel nv model) s of
                      (Inl err, s) \<Rightarrow> (Returned, s, writeUpstreamError err w)
                    | (Inr targets, s) \<Rightarrow>
                        (Returned, s, native_target nv providerType path (r\<lparr>rq_Body := body, rq_BodyErr := None\<rparr>) targets w))))"

definition handleNativeProxyList :: "('w, 'p) Native \<Rightarrow> string \<Rightarrow> string \<Rightarrow> 'w handler" where
  "handleNativeProxyList nv providerType path r s w =
     (case pr_GetByType (no_Type (nv_ops nv)) (nv_order nv) (nv_Providers nv) providerType of
        Inl err \<Rightarrow> (Returned, s, writeJSON 502 (errorResponse (''no '' @ providerType @ '' provider registered'')) w)
      | Inr p \<Rightarrow>
          (case no_Proxy (nv_ops nv) p of
             None \<Rightarrow> (Returned, s, writeJSON 502 (errorResponse (providerType @ '' provider does not support native passthrough'')) w)
           | Some proxy \<Rightarrow> (Returned, s, snd (proxy r path w))))"

definition normalizeAuth :: "string \<Rightarrow> 'w handler \<Rightarrow> 'w handler" where
  "normalizeAuth header next r s w =
     (let key = Header_Get (rq_Header r) header
      in if Header_Get (rq_Header r) ''Authorization'' = [] \<and> key \<noteq> []
         then next (r\<lparr>rq_Header := Header_Set ''Authorization'' (''Bearer '' @ key) (rq_Header r)\<rparr>) s w
         else next r s w)"

section \<open>Routes\<close>

datatype native_endpoint =
    AnthropicMessages | GeminiModel | GeminiModels | AzureChat | AzureEmbeddings | OllamaChat | OllamaEmbed | OllamaTags

fun native_pattern :: "native_endpoint \<Rightarrow> string \<times> string" where
  "native_pattern AnthropicMessages = (''POST'', ''/v1/messages'')"
| "native_pattern GeminiModel = (''POST'', ''/v1beta/models/{model}:{action}'')"
| "native_pattern GeminiModels = (''GET'', ''/v1beta/models'')"
| "native_pattern AzureChat = (''POST'', ''/openai/deployments/{deployment}/chat/completions'')"
| "native_pattern AzureEmbeddings = (''POST'', ''/openai/deployments/{deployment}/embeddings'')"
| "native_pattern OllamaChat = (''POST'', ''/api/chat'')"
| "native_pattern OllamaEmbed = (''POST'', ''/api/embed'')"
| "native_pattern OllamaTags = (''GET'', ''/api/tags'')"

text \<open>The header from which the group of an endpoint takes the key.\<close>

fun native_auth :: "native_endpoint \<Rightarrow> 'w handler \<Rightarrow> 'w handler" where
  "native_auth AnthropicMessages h = normalizeAuth ''X-Api-Key'' h"
| "native_auth GeminiModel h = normalizeAuth ''X-Goog-Api-Key'' h"
| "native_auth GeminiModels h = normalizeAuth ''X-Goog-Api-Key'' h"
| "native_auth AzureChat h = normalizeAuth ''Api-Key'' h"
| "native_auth AzureEmbeddings h = normalizeAuth ''Api-Key'' h"
| "native_auth OllamaChat h = h"
| "native_auth OllamaEmbed h = h"
| "native_auth OllamaTags h = h"

definition gemini_path :: "(string \<Rightarrow> string) \<Rightarrow> string" where
  "gemini_path param =
     (let model = param ''model''; action = param ''action''
      in if \<not> isValidParam model \<or> \<not> isValidParam action then [] else ''/models/'' @ model @ '':'' @ action)"

definition deployment :: "(string \<Rightarrow> string) \<Rightarrow> string" where
  "deployment param = (let d = param ''deployment'' in if \<not> isValidParam d then [] else d)"

definition body_model :: "gjson \<Rightarrow> bytes \<Rightarrow> string" where
  "body_model gj body = g_String (gj_Get gj body ''model'')"

fun native_handler :: "('w, 'p) Native \<Rightarrow> gjson \<Rightarrow> (string \<Rightarrow> string) \<Rightarrow> native_endpoint \<Rightarrow> 'w handler" where
  "native_handler nv gj param AnthropicMessages = handleNativeProxy nv ''anthropic'' ''/messages'' (body_model gj)"
| "native_handler nv gj param GeminiModel = handleNativeProxy nv ''gemini'' (gemini_path param) (\<lambda>_. param ''model'')"
| "native_handler nv gj param GeminiModels = handleNativeProxyList nv ''gemini'' ''/models''"
| "native_handler nv gj param AzureChat = handleNativeProxy nv ''openai'' ''/chat/completions'' (\<lambda>_. deployment param)"
| "native_handler nv gj param AzureEmbeddings = handleNativeProxy nv ''openai'' ''/embeddings'' (\<lambda>_. deployment param)"
| "native_handler nv gj param OllamaChat = handleNativeProxy nv ''ollama'' ''/chat'' (body_model gj)"
| "native_handler nv gj param OllamaEmbed = handleNativeProxy nv ''ollama'' ''/embed'' (body_model gj)"
| "native_handler nv gj param OllamaTags = handleNativeProxyList nv ''ollama'' ''/tags''"

definition native_api ::
  "'w Deps \<Rightarrow> env \<Rightarrow> ('w, 'p) Native \<Rightarrow> gjson \<Rightarrow> (string \<Rightarrow> string) \<Rightarrow> native_endpoint \<Rightarrow> 'w handler" where
  "native_api dp ev nv gj param e =
     group_api dp ev (native_auth e (authenticate dp (rateLimit dp ev (native_handler nv gj param e))))"


section \<open>Admission\<close>

text \<open>The tests a native request passes before a provider sees it: the key, from \<open>Authorization\<close> or else from the header of
  the native API, the limits, and for a request about a model that the model is named and allowed.\<close>

fun key_header :: "native_endpoint \<Rightarrow> string option" where
  "key_header AnthropicMessages = Some ''X-Api-Key''"
| "key_header GeminiModel = Some ''X-Goog-Api-Key''"
| "key_header GeminiModels = Some ''X-Goog-Api-Key''"
| "key_header AzureChat = Some ''Api-Key''"
| "key_header AzureEmbeddings = Some ''Api-Key''"
| "key_header e = None"

definition with_key :: "native_endpoint \<Rightarrow> Request \<Rightarrow> Request" where
  "with_key e r =
     (case key_header e of
        None \<Rightarrow> r
      | Some h \<Rightarrow>
          if Header_Get (rq_Header r) ''Authorization'' \<noteq> [] \<or> Header_Get (rq_Header r) h = [] then r
          else r\<lparr>rq_Header := Header_Set ''Authorization'' (''Bearer '' @ Header_Get (rq_Header r) h) (rq_Header r)\<rparr>)"

fun native_model :: "gjson \<Rightarrow> (string \<Rightarrow> string) \<Rightarrow> native_endpoint \<Rightarrow> (bytes \<Rightarrow> string) option" where
  "native_model gj param GeminiModels = None"
| "native_model gj param OllamaTags = None"
| "native_model gj param GeminiModel = Some (\<lambda>_. param ''model'')"
| "native_model gj param AzureChat = Some (\<lambda>_. deployment param)"
| "native_model gj param AzureEmbeddings = Some (\<lambda>_. deployment param)"
| "native_model gj param e = Some (body_model gj)"

definition names_allowed :: "gjson \<Rightarrow> (string \<Rightarrow> string) \<Rightarrow> native_endpoint \<Rightarrow> Identity \<Rightarrow> Request \<Rightarrow> bool" where
  "names_allowed gj param e i r \<longleftrightarrow>
     (case native_model gj param e of
        None \<Rightarrow> True
      | Some f \<Rightarrow> (case read_limited maxRequestBody r of Inl _ \<Rightarrow> False | Inr body \<Rightarrow> f body \<noteq> [] \<and> IsModelAllowed i (f body)))"

definition native_admitted ::
  "'w Deps \<Rightarrow> env \<Rightarrow> gjson \<Rightarrow> (string \<Rightarrow> string) \<Rightarrow> native_endpoint \<Rightarrow> Request \<Rightarrow> 'w server \<Rightarrow> (Request \<times> 'w server) option" where
  "native_admitted dp ev gj param e r s = do {
     (r, s) \<leftarrow> identify ev r s;
     (i, r, s) \<leftarrow> accept dp (with_key e r, s);
     s \<leftarrow> within_limits dp ev i s;
     if names_allowed gj param e i r then Some (r, s) else None }"

lemma native_auth_key: "native_auth e h r s w = h (with_key e r) s w"
  by (cases e) (auto simp: normalizeAuth_def with_key_def Let_def)

lemma native_handler_refuses:
  assumes "identity_of r s = Some i" "\<not> names_allowed gj param e i r" "fresh w" "P (sv_world s)"
  shows "refused P (native_handler nv gj param e r s w)"
proof -
  have "refused P (handleNativeProxy nv ty path f r s w)"
    if "\<not> (case read_limited maxRequestBody r of Inl _ \<Rightarrow> False | Inr body \<Rightarrow> f body \<noteq> [] \<and> IsModelAllowed i (f body))" for ty path f
    using that assms(1,3,4) by (auto simp: handleNativeProxy_def model_allowed_def Let_def split: sum.splits intro!: refused_error)
  then show ?thesis using assms(2) by (cases e) (simp_all add: names_allowed_def)
qed

lemma native_refused:
  assumes "tests_keep P dp" "P (sv_world s)" "fresh w" "native_admitted dp ev gj param e r s = None"
  shows "refused P (native_api dp ev nv gj param e r s w)"
proof (cases "identify ev r s")
  case None
  then show ?thesis using assms(2,3) by (simp add: native_api_def group_unidentified)
next
  case (Some rs)
  then obtain r1 s1 where id: "identify ev r s = Some (r1, s1)" by (cases rs) simp
  let ?h = "native_handler nv gj param e"
  have P: "P (sv_world s1)" using id assms(2) by (auto simp: identify_def split: option.splits prod.splits)
  have "refused P (native_auth e (authenticate dp (rateLimit dp ev ?h)) r1 s1 w)" if w: "fresh w" for w
  proof (cases "accept dp (with_key e r1, s1)")
    case None
    then show ?thesis using accept_gate(1) [OF assms(1) P w None] by (simp add: native_auth_key)
  next
    case (Some x)
    then obtain i r2 s2 where acc: "accept dp (with_key e r1, s1) = Some (i, r2, s2)" by (cases x) auto
    note a = accept_gate(2) [OF assms(1) P w acc]
    show ?thesis
    proof (cases "within_limits dp ev i s2")
      case None
      then show ?thesis using a limits_gate(1) [OF assms(1) _ _ w None] by (simp add: native_auth_key)
    next
      case (Some s3)
      then have "\<not> names_allowed gj param e i r2" using assms(4) id acc by (simp add: native_admitted_def split: if_splits)
      then show ?thesis
        using past_accept [OF assms(1) P w acc Some, of ?h] native_handler_refuses [of r2 s3 i gj param e _ P nv] by (auto simp: native_auth_key)
    qed
  qed
  from group_refused [where h = "native_auth e (authenticate dp (rateLimit dp ev ?h))" and P = P, OF id this assms(3)]
  show ?thesis by (simp add: native_api_def)
qed

lemma native_target_private:
  assumes "nv_ops nv = adapter_ops arrives net" "same_but_private r r'"
  shows "native_target nv ty path r ts w = native_target nv ty path r' ts w"
proof -
  have "adapter_Proxy arrives net p r path w = adapter_Proxy arrives net p r' path w" for p w
    by (cases p) (simp_all add: openai_ProxyRequest_def ollama_ProxyRequest_def anthropic_ProxyRequest_def gemini_ProxyRequest_def forward_same [OF assms(2)])
  then show ?thesis using assms(1) by (induction ts) (auto simp: adapter_ops_def split: sum.splits)
qed


lemma native_handler_private:
  assumes "nv_ops nv = adapter_ops arrives net" "same_but_private r r'" "rq_BodyErr r = rq_BodyErr r'" "identity_of r s = identity_of r' s"
  shows "native_handler nv gj param e r s w = native_handler nv gj param e r' s w"
proof -
  have read: "read_limited n r = read_limited n r'" for n
    using assms(2,3) by (simp add: read_limited_def same_but_private_def split: option.split)
  have fwd: "native_target nv ty path (r\<lparr>rq_Body := b, rq_BodyErr := None\<rparr>) ts w = native_target nv ty path (r'\<lparr>rq_Body := b, rq_BodyErr := None\<rparr>) ts w" for ty path b ts
    using assms(2) by (intro native_target_private [OF assms(1)]) (simp add: same_but_private_def)
  have "handleNativeProxy nv ty path f r s w = handleNativeProxy nv ty path f r' s w" for ty path f
    unfolding handleNativeProxy_def Let_def read assms(4) fwd ..
  moreover have "adapter_Proxy arrives net p r path w = adapter_Proxy arrives net p r' path w" for p path
    by (cases p) (simp_all add: openai_ProxyRequest_def ollama_ProxyRequest_def anthropic_ProxyRequest_def gemini_ProxyRequest_def forward_same [OF assms(2)])
  then have "handleNativeProxyList nv ty path r s w = handleNativeProxyList nv ty path r' s w" for ty path
    using assms(1) by (simp add: handleNativeProxyList_def adapter_ops_def split: sum.split)
  ultimately show ?thesis by (cases e) simp_all
qed

section \<open>Property\<close>


text \<open>A request to the Anthropic API for a model the key may not use.\<close>

definition ex_native :: "(ex_world, adapter) Native" where
  "ex_native = \<lparr>nv_ops = adapter_ops (\<lambda>b. [b]) \<lparr>bad_url = (\<lambda>_. None), http_do = (\<lambda>_. Inl (ErrorString ''refused''))\<rparr>, nv_Providers = Map.empty,
     nv_order = [], nv_ResolveModel = (\<lambda>m wd. (Inr [], (fst wd, snd wd + 1)))\<rparr>"


end
