(* ===== verification/Config_Boot.thy ===== *)
theory Config_Boot
  imports Key_Store
begin

text \<open>
  Configuration and first start: \<open>internal/config/config.go\<close> and \<open>internal/config/bootstrap.go\<close>. The YAML parser, the file system
  and the environment are arguments of \<open>Load\<close>. \<open>Bootstrap\<close> runs on the store of theory \<open>Sql_Store\<close>: \<open>flt i\<close> is the error
  of the driver at the \<open>i\<close>-th statement, \<open>uuids n\<close> the identifier drawn for the \<open>n\<close>-th entry (none: the generator fails and
  \<open>uuid.Must\<close> panics).

  The three loops of \<open>Bootstrap\<close> have one form, and what is proved about them is proved once, in the locale \<open>seeding\<close>.
\<close>

section \<open>Configuration\<close>

record MetricsConfig =
  mc_Enabled :: bool

record TracingConfig =
  tr_Enabled :: bool
  tr_Endpoint :: string
  tr_SampleRate :: float64

record TelemetryConfig =
  tl_Metrics :: MetricsConfig
  tl_Tracing :: TracingConfig

record RateLimitConfig =
  rlc_DefaultRPM :: int
  rlc_DefaultTPM :: int

record CacheConfig =
  cac_Enabled :: bool
  cac_MaxSize :: int
  cac_DefaultTTL :: duration

record CircuitBreakerConfig =
  cbc_Enabled :: bool
  cbc_ErrorThreshold :: float64
  cbc_MinSamples :: int
  cbc_WindowSeconds :: int
  cbc_OpenTimeout :: duration

record ServerConfig =
  sc_Addr :: string
  sc_ReadTimeout :: duration
  sc_WriteTimeout :: duration
  sc_ShutdownTimeout :: duration

record DatabaseConfig =
  dc_DSN :: string

record AuthConfig =
  auc_AdminKey :: string

record AuthEntry =
  ae_Type :: string
  ae_APIKey :: string

record ProviderEntry =
  pe_Name :: string
  pe_Type :: string
  pe_BaseURL :: string
  pe_APIKey :: string
  pe_Models :: "string list"
  pe_Priority :: int
  pe_Weight :: int
  pe_Enabled :: "bool option"
  pe_MaxRPS :: int
  pe_TimeoutMs :: int
  pe_Hosting :: string
  pe_Region :: string
  pe_Project :: string
  pe_Auth :: "AuthEntry option"

definition IsEnabled :: "ProviderEntry \<Rightarrow> bool" where
  "IsEnabled p = (case pe_Enabled p of None \<Rightarrow> True | Some b \<Rightarrow> b)"

definition ResolvedType :: "ProviderEntry \<Rightarrow> string" where
  "ResolvedType p = (if pe_Type p \<noteq> '''' then pe_Type p else pe_Name p)"

definition ResolvedHosting :: "ProviderEntry \<Rightarrow> string" where
  "ResolvedHosting p = pe_Hosting p"

definition ResolvedAuthType :: "ProviderEntry \<Rightarrow> string" where
  "ResolvedAuthType p =
     (case pe_Auth p of
        Some a \<Rightarrow>
          if ae_Type a \<noteq> '''' then ae_Type a
          else if pe_Hosting p = ''vertex'' then ''gcp_oauth'' else if pe_Hosting p = ''bedrock'' then ''aws_sigv4'' else ''api_key''
      | None \<Rightarrow>
          if pe_Hosting p = ''vertex'' then ''gcp_oauth'' else if pe_Hosting p = ''bedrock'' then ''aws_sigv4'' else ''api_key'')"

definition ResolvedAPIKey :: "ProviderEntry \<Rightarrow> string" where
  "ResolvedAPIKey p =
     (case pe_Auth p of Some a \<Rightarrow> if ae_APIKey a \<noteq> '''' then ae_APIKey a else pe_APIKey p | None \<Rightarrow> pe_APIKey p)"

record TargetEntry =
  te_Provider :: string
  te_Model :: string
  te_Priority :: int
  te_Weight :: int

text \<open>A route without targets has a nil slice, which is written as \<open>null\<close>.\<close>

record RouteEntry =
  re_ModelAlias :: string
  re_Targets :: "TargetEntry list option"
  re_Strategy :: string
  re_CacheTTLs :: int

record KeyEntry =
  ke_Name :: string
  ke_Key :: string
  ke_OrgID :: string
  ke_AllowedModels :: "string list"
  ke_Role :: string

record config_Config =
  cf_Server :: ServerConfig
  cf_Database :: DatabaseConfig
  cf_Auth :: AuthConfig
  cf_RateLimits :: RateLimitConfig
  cf_Cache :: CacheConfig
  cf_CircuitBreaker :: CircuitBreakerConfig
  cf_Telemetry :: TelemetryConfig
  cf_Providers :: "ProviderEntry list"
  cf_Routes :: "RouteEntry list"
  cf_Keys :: "KeyEntry list"

section \<open>Loading\<close>

text \<open>The pattern \<open>${...}\<close> of \<open>envPattern\<close>: what stands between the braces is not empty and has no closing brace. A name that is
  not set stays as it is.\<close>

function expandEnv :: "(string \<Rightarrow> string option) \<Rightarrow> bytes \<Rightarrow> bytes" where
  "expandEnv env s =
     (case s of
        [] \<Rightarrow> []
      | c # cs \<Rightarrow>
          (if c = CHR ''$'' \<and> cs \<noteq> [] \<and> hd cs = CHR ''{'' then
             (case strings_Cut (tl cs) (CHR ''}'') of
                (name, rest, found) \<Rightarrow>
                  if found \<and> name \<noteq> []
                  then (case env name of Some v \<Rightarrow> v | None \<Rightarrow> ''${'' @ name @ ''}'') @ expandEnv env rest
                  else c # expandEnv env cs)
           else c # expandEnv env cs))"
  by pat_completeness auto
termination
  by (relation "measure (\<lambda>(env, s). length s)") (auto dest!: strings_Cut_length [OF sym])

declare expandEnv.simps [simp del]

definition zero_Config :: config_Config where
  "zero_Config =
     \<lparr>cf_Server = \<lparr>sc_Addr = '''', sc_ReadTimeout = 0, sc_WriteTimeout = 0, sc_ShutdownTimeout = 0\<rparr>, cf_Database = \<lparr>dc_DSN = ''''\<rparr>,
      cf_Auth = \<lparr>auc_AdminKey = ''''\<rparr>, cf_RateLimits = \<lparr>rlc_DefaultRPM = 0, rlc_DefaultTPM = 0\<rparr>,
      cf_Cache = \<lparr>cac_Enabled = False, cac_MaxSize = 0, cac_DefaultTTL = 0\<rparr>,
      cf_CircuitBreaker = \<lparr>cbc_Enabled = False, cbc_ErrorThreshold = 0, cbc_MinSamples = 0, cbc_WindowSeconds = 0, cbc_OpenTimeout = 0\<rparr>,
      cf_Telemetry = \<lparr>tl_Metrics = \<lparr>mc_Enabled = False\<rparr>, tl_Tracing = \<lparr>tr_Enabled = False, tr_Endpoint = '''', tr_SampleRate = 0\<rparr>\<rparr>,
      cf_Providers = [], cf_Routes = [], cf_Keys = []\<rparr>"

definition default_Config :: config_Config where
  "default_Config = zero_Config\<lparr>
     cf_Server := \<lparr>sc_Addr = '':8080'', sc_ReadTimeout = 30 * second, sc_WriteTimeout = 120 * second, sc_ShutdownTimeout = 30 * second\<rparr>,
     cf_Database := \<lparr>dc_DSN = ''gandalf.db''\<rparr>,
     cf_RateLimits := \<lparr>rlc_DefaultRPM = 60, rlc_DefaultTPM = 100000\<rparr>,
     cf_Cache := \<lparr>cac_Enabled = True, cac_MaxSize = 10000, cac_DefaultTTL = 5 * 60 * second\<rparr>\<rparr>"

definition Load :: "(string \<Rightarrow> goerror + bytes) \<Rightarrow> (string \<Rightarrow> string option) \<Rightarrow> (bytes \<Rightarrow> config_Config \<Rightarrow> goerror + config_Config) \<Rightarrow> string \<Rightarrow> goerror + config_Config" where
  "Load ReadFile env yaml_Unmarshal path =
     (case ReadFile path of
        Inl err \<Rightarrow> Inl (Wrapf ''read config'' [err])
      | Inr data \<Rightarrow>
          (case yaml_Unmarshal (expandEnv env data) default_Config of
             Inl err \<Rightarrow> Inl (Wrapf ''parse config'' [err])
           | Inr cfg \<Rightarrow> Inr cfg))"


section \<open>First start\<close>

datatype boot = BootOK | BootErr goerror | BootPanic string

text \<open>The loops: an entry that is there already is skipped, the first error ends the run. The statements of entry \<open>n\<close> have the
  numbers \<open>2 * n\<close> and \<open>2 * n + 1\<close>.\<close>

fun seed :: "(nat \<Rightarrow> 'a \<Rightarrow> db \<Rightarrow> bool) \<Rightarrow> (nat \<Rightarrow> 'a \<Rightarrow> db \<Rightarrow> boot \<times> db) \<Rightarrow> nat \<Rightarrow> 'a list \<Rightarrow> db \<Rightarrow> boot \<times> nat \<times> db" where
  "seed known add n [] d = (BootOK, n, d)"
| "seed known add n (x # xs) d =
     (if known n x d then seed known add (n + 1) xs d
      else case add n x d of
        (BootOK, d) \<Rightarrow> seed known add (n + 1) xs d
      | (e, d) \<Rightarrow> (e, n, d))"

definition stored :: "goerror option \<times> db \<Rightarrow> boot \<times> db" where
  "stored r = (case r of (None, d) \<Rightarrow> (BootOK, d) | (Some err, d) \<Rightarrow> (BootErr err, d))"

definition provider_of :: "ProviderEntry \<Rightarrow> ProviderConfig" where
  "provider_of p =
     \<lparr>pc_ID = pe_Name p, pc_Name = pe_Name p, pc_Type = ResolvedType p, pc_BaseURL = pe_BaseURL p, pc_APIKeyEnc = '''',
      pc_Models = pe_Models p, pc_Priority = pe_Priority p, pc_Weight = max 1 (pe_Weight p), pc_Enabled = IsEnabled p,
      pc_MaxRPS = pe_MaxRPS p, pc_TimeoutMs = max 5000 (pe_TimeoutMs p)\<rparr>"

definition known_provider :: "(nat \<Rightarrow> goerror option) \<Rightarrow> nat \<Rightarrow> ProviderEntry \<Rightarrow> db \<Rightarrow> bool" where
  "known_provider flt n p d = (\<not> isl (GetProvider (flt (2 * n)) (pe_Name p) d))"

definition add_provider :: "(nat \<Rightarrow> goerror option) \<Rightarrow> nat \<Rightarrow> ProviderEntry \<Rightarrow> db \<Rightarrow> boot \<times> db" where
  "add_provider flt n p d = stored (CreateProvider (flt (2 * n + 1)) (provider_of p) d)"

definition enc_TargetEntry :: "TargetEntry \<Rightarrow> jout" where
  "enc_TargetEntry t =
     OObj [(''provider_id'', OStr (te_Provider t)), (''model'', OStr (te_Model t)), (''priority'', ONum (int_text (te_Priority t))),
       (''weight'', ONum (int_text (te_Weight t)))]"

definition route_of :: "RouteEntry \<Rightarrow> string \<Rightarrow> Route" where
  "route_of r uuid =
     \<lparr>rt_ID = uuid, rt_ModelAlias = re_ModelAlias r,
      rt_Targets = (case json_marshal (case re_Targets r of Some ts \<Rightarrow> OArr (map enc_TargetEntry ts) | None \<Rightarrow> ONull) of Some b \<Rightarrow> b | None \<Rightarrow> []),
      rt_Strategy = re_Strategy r, rt_CacheTTLs = re_CacheTTLs r\<rparr>"

definition known_route :: "(nat \<Rightarrow> goerror option) \<Rightarrow> nat \<Rightarrow> RouteEntry \<Rightarrow> db \<Rightarrow> bool" where
  "known_route flt n r d = (\<not> isl (GetRouteByAlias (flt (2 * n)) (re_ModelAlias r) d))"

definition add_route :: "(nat \<Rightarrow> goerror option) \<Rightarrow> (nat \<Rightarrow> string option) \<Rightarrow> nat \<Rightarrow> RouteEntry \<Rightarrow> db \<Rightarrow> boot \<times> db" where
  "add_route flt uuids n r d =
     (case uuids n of
        None \<Rightarrow> (BootPanic ''uuid'', d)
      | Some uuid \<Rightarrow> stored (CreateRoute (flt (2 * n + 1)) (route_of r uuid) d))"

definition seeded_key :: "KeyEntry \<Rightarrow> string \<Rightarrow> gotime \<Rightarrow> APIKey" where
  "seeded_key k uuid now =
     \<lparr>key_ID = uuid, key_Hash = HashKey (ke_Key k), key_Prefix = key_prefix (ke_Key k), key_UserID = '''', key_TeamID = '''',
      key_OrgID = ke_OrgID k, key_Role = or_member (ke_Role k), key_AllowedModels = [], key_RPMLimit = None, key_TPMLimit = None,
      key_MaxBudget = None, key_ExpiresAt = None, key_Blocked = False, key_LastUsedAt = None, key_CreatedAt = now\<rparr>"

definition known_key :: "(nat \<Rightarrow> goerror option) \<Rightarrow> nat \<Rightarrow> KeyEntry \<Rightarrow> db \<Rightarrow> bool" where
  "known_key flt n k d = (ke_Key k = '''' \<or> \<not> isl (GetKeyByHash (flt (2 * n)) (HashKey (ke_Key k)) d))"

definition add_key :: "(nat \<Rightarrow> goerror option) \<Rightarrow> (nat \<Rightarrow> string option) \<Rightarrow> (nat \<Rightarrow> gotime) \<Rightarrow> nat \<Rightarrow> KeyEntry \<Rightarrow> db \<Rightarrow> boot \<times> db" where
  "add_key flt uuids now n k d =
     (case uuids n of
        None \<Rightarrow> (BootPanic ''uuid'', d)
      | Some uuid \<Rightarrow> stored (st_CreateKey (flt (2 * n + 1)) (seeded_key k uuid (now n)) d))"

definition Bootstrap ::
  "(nat \<Rightarrow> goerror option) \<Rightarrow> (nat \<Rightarrow> string option) \<Rightarrow> (nat \<Rightarrow> gotime) \<Rightarrow> config_Config \<Rightarrow> db \<Rightarrow> boot \<times> db" where
  "Bootstrap flt uuids now cfg d =
     (case seed (known_provider flt) (add_provider flt) 0 (cf_Providers cfg) d of
        (BootOK, n, d) \<Rightarrow>
          (case seed (known_route flt) (add_route flt uuids) n (cf_Routes cfg) d of
             (BootOK, n, d) \<Rightarrow>
               (case seed (known_key flt) (add_key flt uuids now) n (cf_Keys cfg) d of (e, n, d) \<Rightarrow> (e, d))
           | (e, n, d) \<Rightarrow> (e, d))
      | (e, n, d) \<Rightarrow> (e, d))"

definition GenerateAdminKey :: "goerror + bytes \<Rightarrow> boot + string" where
  "GenerateAdminKey random =
     (case random of Inl err \<Rightarrow> Inl (BootPanic ''crypto/rand'') | Inr raw \<Rightarrow> Inr (APIKeyPrefix @ base64_EncodeToString raw))"

section \<open>The loops\<close>

text \<open>What a loop relies on, for the states that satisfy its invariant: the test finds exactly what is there, and adding an
  entry that is not there works and loses nothing.\<close>

datatype any_row = ProviderRow provider_row | RouteRow route_row | KeyRow key_row

definition all_rows :: "db \<Rightarrow> any_row set" where
  "all_rows d = ProviderRow ` set (providers d) \<union> RouteRow ` set (routes d) \<union> KeyRow ` set (api_keys d)"

definition extends :: "db \<Rightarrow> db \<Rightarrow> bool" where
  "extends d d' \<longleftrightarrow> organizations d' = organizations d \<and> teams d' = teams d \<and> all_rows d \<subseteq> all_rows d'"

lemma extends_orgs: "extends d d' \<Longrightarrow> organizations d' = organizations d"
  by (simp add: extends_def)

lemma extends_refl: "extends d d"
  by (simp add: extends_def)

lemma extends_trans: "extends d d' \<Longrightarrow> extends d' d'' \<Longrightarrow> extends d d''"
  by (auto simp: extends_def)

locale seeding =
  fixes known :: "nat \<Rightarrow> 'a \<Rightarrow> db \<Rightarrow> bool" and add :: "nat \<Rightarrow> 'a \<Rightarrow> db \<Rightarrow> boot \<times> db"
    and ok :: "db \<Rightarrow> bool" and inv :: "nat \<Rightarrow> db \<Rightarrow> bool" and there :: "'a \<Rightarrow> db \<Rightarrow> bool" and good :: "'a \<Rightarrow> db \<Rightarrow> bool"
    and row_of :: "'a \<Rightarrow> any_row \<Rightarrow> bool"
  assumes known_there: "ok d \<Longrightarrow> known n x d \<longleftrightarrow> there x d"
    and inv_ok: "inv n d \<Longrightarrow> ok d"
    and there_mono: "there x d \<Longrightarrow> extends d d' \<Longrightarrow> there x d'"
    and good_mono: "good x d \<Longrightarrow> extends d d' \<Longrightarrow> good x d'"
    and skip: "inv n d \<Longrightarrow> inv (Suc n) d"
    and added: "inv n d \<Longrightarrow> good x d \<Longrightarrow> \<not> there x d \<Longrightarrow>
      \<exists>d'. add n x d = (BootOK, d') \<and> inv (Suc n) d' \<and> there x d' \<and> extends d d' \<and> all_rows d' \<subseteq> all_rows d \<union> Collect (row_of x)"
begin

lemma seeds:
  assumes "inv n d" "\<forall>x \<in> set xs. good x d"
  shows "\<exists>d'. seed known add n xs d = (BootOK, n + length xs, d') \<and> inv (n + length xs) d' \<and> (\<forall>x \<in> set xs. there x d') \<and> extends d d' \<and>
    all_rows d' \<subseteq> all_rows d \<union> {r. \<exists>x \<in> set xs. row_of x r}"
  using assms
proof (induction xs arbitrary: n d)
  case Nil
  then show ?case by (simp add: extends_refl)
next
  case (Cons x xs)
  obtain d1 where d1: "seed known add n (x # xs) d = seed known add (Suc n) xs d1" "inv (Suc n) d1" "there x d1" "extends d d1"
    "all_rows d1 \<subseteq> all_rows d \<union> Collect (row_of x)"
  proof (cases "there x d")
    case True
    then show thesis using known_there [OF inv_ok] Cons.prems(1) skip [of n d] that [of d] by (simp add: extends_refl)
  next
    case False
    then obtain d' where "add n x d = (BootOK, d')" "inv (Suc n) d'" "there x d'" "extends d d'" "all_rows d' \<subseteq> all_rows d \<union> Collect (row_of x)"
      using added [of n d x] Cons.prems by auto
    then show thesis using False known_there [OF inv_ok [OF Cons.prems(1)], of n x] that [of d'] by simp
  qed
  then have "\<forall>x \<in> set xs. good x d1" using Cons.prems(2) good_mono by auto
  from Cons.IH [OF d1(2) this] obtain d' where d': "seed known add (Suc n) xs d1 = (BootOK, Suc n + length xs, d')" "inv (Suc n + length xs) d'"
    "\<forall>x \<in> set xs. there x d'" "extends d1 d'" "all_rows d' \<subseteq> all_rows d1 \<union> {r. \<exists>x \<in> set xs. row_of x r}" by blast
  have "there x d'" "extends d d'" using there_mono [OF d1(3) d'(4)] extends_trans [OF d1(4) d'(4)] by blast+
  moreover have "all_rows d' \<subseteq> all_rows d \<union> {r. \<exists>x \<in> set (x # xs). row_of x r}" using d1(5) d'(5) by auto
  ultimately show ?case using d1(1) d'(1-3) by auto
qed

lemma settled:
  assumes "ok d" "\<forall>x \<in> set xs. there x d"
  shows "seed known add n xs d = (BootOK, n + length xs, d)"
  using assms(2) by (induction xs arbitrary: n) (auto simp: known_there [OF assms(1)])

end


section \<open>The loops of the bootstrap\<close>

definition db_readable :: "db \<Rightarrow> bool" where
  "db_readable d \<longleftrightarrow> keys_inv d \<and> (\<forall>r \<in> set (providers d). \<exists>p. scanProvider r = Inr p)"

text \<open>The rows that an entry may add, by what the store reads back: a provider without its credential, a key that is not blocked
  and has neither limits nor an allowlist.\<close>

fun provider_row_of :: "ProviderEntry \<Rightarrow> any_row \<Rightarrow> bool" where
  "provider_row_of p (ProviderRow r) \<longleftrightarrow> (\<exists>x. scanProvider r = Inr x \<and> pc_ID x = pe_Name p \<and> pc_Name x = pe_Name p \<and>
     pc_Type x = (if pe_Type p = [] then pe_Name p else pe_Type p) \<and> pc_BaseURL x = pe_BaseURL p \<and> pc_APIKeyEnc x = [] \<and>
     pc_Models x = pe_Models p \<and> pc_Priority x = pe_Priority p \<and> 1 \<le> pc_Weight x \<and> (1 \<le> pe_Weight p \<longrightarrow> pc_Weight x = pe_Weight p) \<and>
     5000 \<le> pc_TimeoutMs x \<and> (5000 \<le> pe_TimeoutMs p \<longrightarrow> pc_TimeoutMs x = pe_TimeoutMs p) \<and> (pc_Enabled x \<longleftrightarrow> pe_Enabled p \<noteq> Some False))"
| "provider_row_of p _ \<longleftrightarrow> False"

fun route_row_of :: "RouteEntry \<Rightarrow> any_row \<Rightarrow> bool" where
  "route_row_of e (RouteRow r) \<longleftrightarrow> (\<exists>x. scanRoute r = Inr x \<and> rt_ModelAlias x = re_ModelAlias e \<and>
     (\<forall>ts. re_Targets e = Some ts \<longrightarrow> json_marshal (OArr (map enc_TargetEntry ts)) = Some (rt_Targets x)) \<and>
     rt_Strategy x = re_Strategy e \<and> rt_CacheTTLs x = re_CacheTTLs e)"
| "route_row_of e _ \<longleftrightarrow> False"

fun key_row_of :: "KeyEntry \<Rightarrow> any_row \<Rightarrow> bool" where
  "key_row_of k (KeyRow r) \<longleftrightarrow> (\<exists>x. scanKey r = Inr x \<and> key_Hash x = HashKey (ke_Key k) \<and> key_OrgID x = ke_OrgID k \<and>
     key_Role x = (if ke_Role k = [] then ''member'' else ke_Role k) \<and> key_AllowedModels x = [] \<and> key_RPMLimit x = None \<and>
     key_TPMLimit x = None \<and> key_MaxBudget x = None \<and> key_ExpiresAt x = None \<and> \<not> key_Blocked x)"
| "key_row_of k _ \<longleftrightarrow> False"

text \<open>The identifiers still to be drawn are unused and distinct.\<close>

definition ids_fresh :: "(nat \<Rightarrow> string option) \<Rightarrow> nat \<Rightarrow> db \<Rightarrow> bool" where
  "ids_fresh uuids n d \<longleftrightarrow> (\<forall>m \<ge> n. \<exists>u. uuids m = Some u \<and> u \<notin> set (map rr_id (routes d)) \<and> u \<notin> set (map kr_id (api_keys d)) \<and>
     (\<forall>m' \<ge> n. uuids m' = Some u \<longrightarrow> m' = m))"

definition boot_inv :: "(nat \<Rightarrow> string option) \<Rightarrow> (nat \<Rightarrow> gotime) \<Rightarrow> nat \<Rightarrow> db \<Rightarrow> bool" where
  "boot_inv uuids now n d \<longleftrightarrow> db_readable d \<and> ids_fresh uuids n d \<and> (\<forall>m. year_0_9999 (now m))"

definition has_provider :: "ProviderEntry \<Rightarrow> db \<Rightarrow> bool" where
  "has_provider p d \<longleftrightarrow> (\<exists>r \<in> set (providers d). pv_id r = pe_Name p)"

definition has_route :: "RouteEntry \<Rightarrow> db \<Rightarrow> bool" where
  "has_route r d \<longleftrightarrow> (\<exists>x \<in> set (routes d). rr_model_alias x = re_ModelAlias r)"

definition has_key :: "KeyEntry \<Rightarrow> db \<Rightarrow> bool" where
  "has_key k d \<longleftrightarrow> ke_Key k = '''' \<or> (\<exists>x \<in> set (api_keys d). kr_key_hash x = HashKey (ke_Key k))"

lemma ids_fresh_Suc:
  assumes "ids_fresh uuids n d"
  shows "ids_fresh uuids (Suc n) d"
proof -
  have "n \<le> m" if "Suc n \<le> m" for m :: nat using that by simp
  then show ?thesis using assms unfolding ids_fresh_def by blast
qed

lemma ids_fresh_step:
  assumes "ids_fresh uuids n d" "uuids n = Some u" "set (map rr_id (routes d')) \<subseteq> insert u (set (map rr_id (routes d)))"
    "set (map kr_id (api_keys d')) \<subseteq> insert u (set (map kr_id (api_keys d)))"
  shows "ids_fresh uuids (Suc n) d'"
proof -
  have "\<exists>v. uuids m = Some v \<and> v \<notin> set (map rr_id (routes d')) \<and> v \<notin> set (map kr_id (api_keys d')) \<and> (\<forall>m' \<ge> Suc n. uuids m' = Some v \<longrightarrow> m' = m)"
    if "Suc n \<le> m" for m
  proof -
    have "n \<le> m" using that by simp
    with assms(1) obtain v where v: "uuids m = Some v" "v \<notin> set (map rr_id (routes d))" "v \<notin> set (map kr_id (api_keys d))" "\<forall>m' \<ge> n. uuids m' = Some v \<longrightarrow> m' = m"
      unfolding ids_fresh_def by blast
    have "v \<noteq> u" using v(4) [rule_format, of n] assms(2) that by auto
    then have "v \<notin> set (map rr_id (routes d'))" "v \<notin> set (map kr_id (api_keys d'))" using v(2,3) assms(3,4) by blast+
    moreover have "\<forall>m' \<ge> Suc n. uuids m' = Some v \<longrightarrow> m' = m" using v(4) by auto
    ultimately show ?thesis using v(1) by blast
  qed
  then show ?thesis unfolding ids_fresh_def by blast
qed

lemma scan_found:
  assumes "\<forall>r \<in> set rows. \<exists>x. scan r = Inr x"
  shows "isl (scan_one (QueryRowContext None (filter P rows)) scan) \<longleftrightarrow> (\<forall>r \<in> set rows. \<not> P r)"
proof (cases "filter P rows")
  case (Cons r rs)
  then have "r \<in> set (filter P rows)" by simp
  then have "r \<in> set rows" "P r" by simp_all
  then show ?thesis using assms Cons by (auto simp: scan_one_def QueryRowContext_def)
qed (auto simp: scan_one_def QueryRowContext_def filter_empty_conv)

lemma known_tables:
  assumes "db_readable d"
  shows "known_provider (\<lambda>_. None) n p d \<longleftrightarrow> has_provider p d" "known_route (\<lambda>_. None) n r d \<longleftrightarrow> has_route r d"
    "known_key (\<lambda>_. None) n k d \<longleftrightarrow> has_key k d"
proof -
  have rows: "\<forall>r \<in> set (providers d). \<exists>x. scanProvider r = Inr x" "\<forall>r \<in> set (routes d). \<exists>x. scanRoute r = Inr x"
    "\<forall>r \<in> set (api_keys d). \<exists>x. scanKey r = Inr x"
    using assms by (simp_all add: db_readable_def keys_inv_def scanRoute_def)
  show "known_provider (\<lambda>_. None) n p d \<longleftrightarrow> has_provider p d"
    by (auto simp: known_provider_def GetProvider_def has_provider_def scan_found [OF rows(1)])
  show "known_route (\<lambda>_. None) n r d \<longleftrightarrow> has_route r d"
    by (auto simp: known_route_def GetRouteByAlias_def has_route_def scan_found [OF rows(2)])
  show "known_key (\<lambda>_. None) n k d \<longleftrightarrow> has_key k d"
    by (auto simp: known_key_def GetKeyByHash_def has_key_def scan_found [OF rows(3)])
qed

lemma tables_mono:
  assumes "extends d d'"
  shows "has_provider p d \<Longrightarrow> has_provider p d'" "has_route r d \<Longrightarrow> has_route r d'" "has_key k d \<Longrightarrow> has_key k d'"
  using assms by (auto simp: has_provider_def has_route_def has_key_def extends_def all_rows_def)


lemma provider_added:
  assumes "boot_inv uuids now n d" "list_all utf8_valid (pe_Models p)" "\<not> has_provider p d"
  shows "\<exists>d'. add_provider (\<lambda>_. None) n p d = (BootOK, d') \<and> boot_inv uuids now (Suc n) d' \<and> has_provider p d' \<and> extends d d' \<and>
    all_rows d' \<subseteq> all_rows d \<union> Collect (provider_row_of p)"
proof -
  obtain m where m: "marshalJSON (pe_Models p) = Inr m" "unmarshalStringSlice m = Inr (pe_Models p)"
    using models_roundtrip [OF assms(2)] by blast
  let ?row = "provider_values (provider_of p) m"
  let ?d = "d\<lparr>providers := providers d @ [?row]\<rparr>"
  have ins: "insert_provider ?row d = Inr (1, ?d)"
    using assms(3) by (auto simp: insert_provider_def has_provider_def provider_values_def provider_of_def)
  then have "add_provider (\<lambda>_. None) n p d = (BootOK, ?d)"
    using m(1) by (simp add: add_provider_def stored_def CreateProvider_def provider_of_def exec_err_def ExecContext_def)
  moreover have "db_ok d" using assms(1) by (simp add: boot_inv_def db_readable_def keys_inv_def)
  note providers_keep_db_ok(1) [OF this ins]
  then have "boot_inv uuids now (Suc n) ?d"
    using assms(1) m(2) ids_fresh_Suc [of uuids n d]
    by (auto simp: boot_inv_def db_readable_def keys_inv_def ids_fresh_def scanProvider_def provider_values_def provider_of_def)
  ultimately show ?thesis using m(2) by (auto simp: has_provider_def extends_def all_rows_def scanProvider_def provider_values_def provider_of_def
      ResolvedType_def IsEnabled_def split: option.split)
qed

lemma route_added:
  assumes "boot_inv uuids now n d" "\<not> has_route r d"
  shows "\<exists>d'. add_route (\<lambda>_. None) uuids n r d = (BootOK, d') \<and> boot_inv uuids now (Suc n) d' \<and> has_route r d' \<and> extends d d' \<and>
    all_rows d' \<subseteq> all_rows d \<union> Collect (route_row_of r)"
proof -
  obtain u where u: "uuids n = Some u" "u \<notin> set (map rr_id (routes d))"
    using assms(1) unfolding boot_inv_def ids_fresh_def by blast
  let ?row = "route_values (route_of r u)"
  let ?d = "d\<lparr>routes := routes d @ [?row]\<rparr>"
  have ins: "insert_route ?row d = Inr (1, ?d)"
    using u(2) assms(2) by (auto simp: insert_route_def has_route_def route_values_def route_of_def image_iff)
  then have "add_route (\<lambda>_. None) uuids n r d = (BootOK, ?d)"
    using u(1) by (simp add: add_route_def stored_def CreateRoute_def exec_err_def ExecContext_def)
  moreover have "db_ok d" using assms(1) by (simp add: boot_inv_def db_readable_def keys_inv_def)
  note routes_keep_db_ok(1) [OF this ins]
  then have "boot_inv uuids now (Suc n) ?d"
    using assms(1) ids_fresh_step [of uuids n d u ?d] u(1)
    by (auto simp: boot_inv_def db_readable_def keys_inv_def route_values_def route_of_def)
  ultimately show ?thesis by (auto simp: has_route_def extends_def all_rows_def scanRoute_def route_values_def route_of_def json_marshal_def
      enc_TargetEntry_def list_all_iff split: option.split)
qed

lemma key_added:
  assumes "boot_inv uuids now n d" "ke_Key k \<noteq> [] \<longrightarrow> ke_OrgID k \<in> og_id ` set (organizations d)" "\<not> has_key k d"
  shows "\<exists>d'. add_key (\<lambda>_. None) uuids now n k d = (BootOK, d') \<and> boot_inv uuids now (Suc n) d' \<and> has_key k d' \<and> extends d d' \<and>
    all_rows d' \<subseteq> all_rows d \<union> Collect (key_row_of k)"
proof -
  obtain u where u: "uuids n = Some u" "u \<notin> set (map kr_id (api_keys d))"
    using assms(1) unfolding boot_inv_def ids_fresh_def by blast
  let ?key = "seeded_key k u (now n)"
  let ?row = "key_values ?key None"
  let ?d = "d\<lparr>api_keys := api_keys d @ [?row]\<rparr>"
  have ins: "insert_key ?row d = Inr (1, ?d)"
    using u(2) assms(2,3) by (auto simp: insert_key_def has_key_def key_values_def seeded_key_def nullStr_def image_iff)
  then have st: "st_CreateKey None ?key d = (None, ?d)"
    by (simp add: st_CreateKey_def marshalJSON_def seeded_key_def exec_err_def ExecContext_def)
  have "key_ok ?key" using assms(1) by (simp add: boot_inv_def key_ok_def seeded_key_def)
  then have "keys_inv ?d" using create_key_view [OF _ _ st] assms(1) by (simp add: boot_inv_def db_readable_def)
  then have "boot_inv uuids now (Suc n) ?d"
    using assms(1) ids_fresh_step [of uuids n d u ?d] u(1)
    by (auto simp: boot_inv_def db_readable_def key_values_def seeded_key_def)
  moreover have "add_key (\<lambda>_. None) uuids now n k d = (BootOK, ?d)" using u(1) st by (simp add: add_key_def stored_def)
  moreover have "scanKey ?row = Inr (stored_key ?key)"
    using scan_new_key [OF \<open>key_ok ?key\<close>, of None] by (simp add: unmarshalStringSlice_def seeded_key_def)
  then have "all_rows ?d \<subseteq> all_rows d \<union> Collect (key_row_of k)" by (auto simp: all_rows_def stored_key_def seeded_key_def or_member_def)
  moreover have "has_key k ?d" "extends d ?d" by (auto simp: has_key_def extends_def all_rows_def key_values_def seeded_key_def)
  ultimately show ?thesis by blast
qed

lemma boot_inv_readable: "boot_inv uuids now n d \<Longrightarrow> db_readable d"
  by (simp add: boot_inv_def)

lemma boot_inv_Suc: "boot_inv uuids now n d \<Longrightarrow> boot_inv uuids now (Suc n) d"
  by (simp add: boot_inv_def ids_fresh_Suc)

interpretation sp: seeding "known_provider (\<lambda>_. None)" "add_provider (\<lambda>_. None)" db_readable "boot_inv uuids now" has_provider
    "\<lambda>p _. list_all utf8_valid (pe_Models p)" provider_row_of for uuids now
  by unfold_locales (auto simp: known_tables(1) intro: tables_mono(1) boot_inv_readable boot_inv_Suc provider_added)

interpretation sr: seeding "known_route (\<lambda>_. None)" "add_route (\<lambda>_. None) uuids" db_readable "boot_inv uuids now" has_route "\<lambda>_ _. True"
    route_row_of for uuids now
  by unfold_locales (auto simp: known_tables(2) intro: tables_mono(2) boot_inv_readable boot_inv_Suc route_added)

interpretation sk: seeding "known_key (\<lambda>_. None)" "add_key (\<lambda>_. None) uuids now" db_readable "boot_inv uuids now" has_key
    "\<lambda>k d. ke_Key k \<noteq> [] \<longrightarrow> ke_OrgID k \<in> og_id ` set (organizations d)" key_row_of for uuids now
  by unfold_locales (auto simp: known_tables(3) extends_orgs intro: tables_mono(3) boot_inv_readable boot_inv_Suc key_added)


section \<open>Property\<close>

definition from_config :: "config_Config \<Rightarrow> any_row \<Rightarrow> bool" where
  "from_config cfg r \<longleftrightarrow> (\<exists>p \<in> set (cf_Providers cfg). provider_row_of p r) \<or> (\<exists>e \<in> set (cf_Routes cfg). route_row_of e r) \<or>
     (\<exists>k \<in> set (cf_Keys cfg). key_row_of k r)"

definition seeded :: "config_Config \<Rightarrow> db \<Rightarrow> bool" where
  "seeded cfg d \<longleftrightarrow> (\<forall>p \<in> set (cf_Providers cfg). \<not> isl (GetProvider None (pe_Name p) d)) \<and>
     (\<forall>r \<in> set (cf_Routes cfg). \<not> isl (GetRouteByAlias None (re_ModelAlias r) d)) \<and>
     (\<forall>k \<in> set (cf_Keys cfg). ke_Key k = [] \<or> \<not> isl (GetKeyByHash None (HashKey (ke_Key k)) d))"

lemma seeded_known:
  "seeded cfg d \<longleftrightarrow> (\<forall>p \<in> set (cf_Providers cfg). known_provider (\<lambda>_. None) 0 p d) \<and> (\<forall>r \<in> set (cf_Routes cfg). known_route (\<lambda>_. None) 0 r d) \<and>
     (\<forall>k \<in> set (cf_Keys cfg). known_key (\<lambda>_. None) 0 k d)"
  by (simp add: seeded_def known_provider_def known_route_def known_key_def)

lemma bootstrap_run:
  assumes "db_readable d" and "ids_fresh uuids 0 d" and "\<forall>m. year_0_9999 (now m)"
    and "\<forall>p \<in> set (cf_Providers cfg). list_all utf8_valid (pe_Models p)"
    and "\<forall>k \<in> set (cf_Keys cfg). ke_Key k \<noteq> [] \<longrightarrow> ke_OrgID k \<in> og_id ` set (organizations d)"
  shows "\<exists>d'. Bootstrap (\<lambda>_. None) uuids now cfg d = (BootOK, d') \<and> db_readable d' \<and> extends d d' \<and>
    (\<forall>r \<in> all_rows d' - all_rows d. from_config cfg r) \<and> (\<forall>p \<in> set (cf_Providers cfg). has_provider p d') \<and>
    (\<forall>r \<in> set (cf_Routes cfg). has_route r d') \<and> (\<forall>k \<in> set (cf_Keys cfg). has_key k d')"
proof -
  have inv: "boot_inv uuids now 0 d" using assms(1-3) by (simp add: boot_inv_def)
  obtain n1 d1 where 1: "seed (known_provider (\<lambda>_. None)) (add_provider (\<lambda>_. None)) 0 (cf_Providers cfg) d = (BootOK, n1, d1)"
    "boot_inv uuids now n1 d1" "\<forall>p \<in> set (cf_Providers cfg). has_provider p d1" "extends d d1"
    "all_rows d1 \<subseteq> all_rows d \<union> {r. \<exists>x \<in> set (cf_Providers cfg). provider_row_of x r}"
    using sp.seeds [OF inv assms(4)] by blast
  obtain n2 d2 where 2: "seed (known_route (\<lambda>_. None)) (add_route (\<lambda>_. None) uuids) n1 (cf_Routes cfg) d1 = (BootOK, n2, d2)"
    "boot_inv uuids now n2 d2" "\<forall>r \<in> set (cf_Routes cfg). has_route r d2" "extends d1 d2"
    "all_rows d2 \<subseteq> all_rows d1 \<union> {r. \<exists>x \<in> set (cf_Routes cfg). route_row_of x r}"
    using sr.seeds [OF 1(2), of "cf_Routes cfg"] by auto
  have "\<forall>k \<in> set (cf_Keys cfg). ke_Key k \<noteq> [] \<longrightarrow> ke_OrgID k \<in> og_id ` set (organizations d2)"
    using assms(5) extends_orgs [OF extends_trans [OF 1(4) 2(4)]] by simp
  from sk.seeds [OF 2(2) this] obtain n3 d3 where
    3: "seed (known_key (\<lambda>_. None)) (add_key (\<lambda>_. None) uuids now) n2 (cf_Keys cfg) d2 = (BootOK, n3, d3)"
    "boot_inv uuids now n3 d3" "\<forall>k \<in> set (cf_Keys cfg). has_key k d3" "extends d2 d3"
    "all_rows d3 \<subseteq> all_rows d2 \<union> {r. \<exists>x \<in> set (cf_Keys cfg). key_row_of x r}" by blast
  have ok: "db_readable d3" using 3(2) by (rule boot_inv_readable)
  have there: "\<forall>p \<in> set (cf_Providers cfg). has_provider p d3" "\<forall>r \<in> set (cf_Routes cfg). has_route r d3"
    using 1(3) 2(3) tables_mono extends_trans [OF 2(4) 3(4)] 3(4) by blast+
  have "\<forall>r \<in> all_rows d3 - all_rows d. from_config cfg r" using 1(5) 2(5) 3(5) unfolding from_config_def by blast
  moreover have "extends d d3" using extends_trans [OF 1(4) extends_trans [OF 2(4) 3(4)]] .
  ultimately show ?thesis using 1(1) 2(1) 3(1,3) ok there by (auto simp: Bootstrap_def)
qed

lemma seeded_tables:
  assumes "db_readable d" "\<forall>p \<in> set (cf_Providers cfg). has_provider p d" "\<forall>r \<in> set (cf_Routes cfg). has_route r d" "\<forall>k \<in> set (cf_Keys cfg). has_key k d"
  shows "seeded cfg d" "db_ok d"
  using assms by (simp_all add: seeded_known known_tables [OF assms(1)]) (simp add: db_readable_def keys_inv_def)

text \<open>
  C34. The first start seeds the store from the configuration, and a later start changes nothing. On a valid store, with
  unused identifiers and keys of existing organisations, the bootstrap succeeds. Afterwards every provider,
  route alias and key of the configuration is found in the store. Rows that were there before are untouched, so
  the store wins over the configuration, and a new row reads back as an entry: a provider without its credential; a key with its
  organisation and role, without a model restriction whatever the entry says. Running the bootstrap again, with
  any identifiers and clock, leaves the store as it is.
\<close>

theorem bootstrap_seeds:
  assumes "db_readable d" and "ids_fresh uuids 0 d" and "\<forall>m. year_0_9999 (now m)"
    and "\<forall>p \<in> set (cf_Providers cfg). list_all utf8_valid (pe_Models p)"
    and "\<forall>k \<in> set (cf_Keys cfg). ke_Key k \<noteq> [] \<longrightarrow> ke_OrgID k \<in> og_id ` set (organizations d)"
  shows "\<exists>d'. Bootstrap (\<lambda>_. None) uuids now cfg d = (BootOK, d') \<and> db_ok d' \<and> seeded cfg d' \<and>
    organizations d' = organizations d \<and> teams d' = teams d \<and> all_rows d \<subseteq> all_rows d' \<and>
    (\<forall>r \<in> all_rows d' - all_rows d. from_config cfg r) \<and>
    (\<forall>uuids2 now2. Bootstrap (\<lambda>_. None) uuids2 now2 cfg d' = (BootOK, d'))"
proof -
  obtain d' where d': "Bootstrap (\<lambda>_. None) uuids now cfg d = (BootOK, d')" "db_readable d'" "extends d d'"
    "\<forall>r \<in> all_rows d' - all_rows d. from_config cfg r" "\<forall>p \<in> set (cf_Providers cfg). has_provider p d'"
    "\<forall>r \<in> set (cf_Routes cfg). has_route r d'" "\<forall>k \<in> set (cf_Keys cfg). has_key k d'"
    using bootstrap_run [OF assms] by blast
  have "Bootstrap (\<lambda>_. None) uuids2 now2 cfg d' = (BootOK, d')" for uuids2 now2
    using sp.settled [OF d'(2,5)] sr.settled [OF d'(2,6)] sk.settled [OF d'(2,7)] by (simp add: Bootstrap_def)
  with d' seeded_tables [OF d'(2,5-7)] show ?thesis by (auto simp: extends_def)
qed

definition ex_config :: config_Config where
  "ex_config = default_Config\<lparr>
     cf_Providers := [\<lparr>pe_Name = ''openai'', pe_Type = [], pe_BaseURL = [], pe_APIKey = ''sk'', pe_Models = [], pe_Priority = 1, pe_Weight = 0,
       pe_Enabled = None, pe_MaxRPS = 0, pe_TimeoutMs = 0, pe_Hosting = [], pe_Region = [], pe_Project = [], pe_Auth = None\<rparr>],
     cf_Routes := [\<lparr>re_ModelAlias = ''gpt-4o'', re_Targets = Some [], re_Strategy = [], re_CacheTTLs = 0\<rparr>],
     cf_Keys := [\<lparr>ke_Name = ''dev'', ke_Key = ''gnd_dev'', ke_OrgID = ''default'', ke_AllowedModels = [''gpt-4o''], ke_Role = ''admin''\<rparr>]\<rparr>"

definition ex_uuids :: "nat \<Rightarrow> string option" where
  "ex_uuids n = Some (replicate (n + 1) (CHR ''u''))"

lemma ex_config_ok:
  "db_readable ex_db" "ids_fresh ex_uuids 0 ex_db" "\<forall>m::nat. year_0_9999 0"
  "\<forall>p \<in> set (cf_Providers ex_config). list_all utf8_valid (pe_Models p)"
  "\<forall>k \<in> set (cf_Keys ex_config). ke_Key k \<noteq> [] \<longrightarrow> ke_OrgID k \<in> og_id ` set (organizations ex_db)"
proof -
  show "db_readable ex_db" using ex_db_inv by (simp add: db_readable_def ex_db_def runMigrations_def)
  show "ids_fresh ex_uuids 0 ex_db" by (auto simp: ids_fresh_def ex_uuids_def ex_db_def runMigrations_def dest: arg_cong [of _ _ length])
qed (simp_all add: year_0_9999_def second_def ex_config_def ex_db_def runMigrations_def)

theorem bootstrap_seeds_witness:
  "\<exists>d'. Bootstrap (\<lambda>_. None) ex_uuids (\<lambda>_. 0) ex_config ex_db = (BootOK, d') \<and> seeded ex_config d'"
  using bootstrap_seeds [OF ex_config_ok] by blast

end
