(* ===== verification/Cloud_Auth.thy ===== *)
theory Cloud_Auth
  imports Forward Sha256
begin

text \<open>
  Credentials on the way to a provider: the transports of \<open>internal/cloudauth\<close>, which decorate a \<open>RoundTripper\<close> and set the
  authentication of every outbound request, and the connection settings of \<open>NewTransport\<close> in \<open>internal/provider/proxy.go\<close>.

  The SDKs are the record \<open>cloud\<close>: Google's default credentials and token sources (\<open>x/oauth2\<close>), AWS's configuration and
  request signer. A token source is what \<open>Token\<close> returns at a time. \<open>cl_ReadErr\<close> is the error of reading the body of a request.
\<close>

type_synonym RoundTripper = "out_request \<Rightarrow> goerror + Response"
type_synonym TokenSource = "gotime \<Rightarrow> goerror + string"

record 'cr cloud =
  cl_FindDefaultCredentials :: "string list \<Rightarrow> goerror + TokenSource"
  cl_ReuseTokenSource :: "TokenSource \<Rightarrow> TokenSource"
  cl_LoadDefaultConfig :: "string \<Rightarrow> goerror + (gotime \<Rightarrow> goerror + 'cr)"
  cl_SignHTTP :: "'cr \<Rightarrow> out_request \<Rightarrow> string \<Rightarrow> string \<Rightarrow> string \<Rightarrow> gotime \<Rightarrow> goerror + out_request"
  cl_ReadErr :: "out_request \<Rightarrow> goerror option"
  cl_DefaultTransport :: RoundTripper

section \<open>API keys\<close>

record APIKeyTransport =
  akt_Key :: string
  akt_HeaderName :: string
  akt_Prefix :: string
  akt_Base :: "RoundTripper option"

definition akt_base :: "'cr cloud \<Rightarrow> APIKeyTransport \<Rightarrow> RoundTripper" where
  "akt_base cl t = (case akt_Base t of Some base \<Rightarrow> base | None \<Rightarrow> cl_DefaultTransport cl)"

definition akt_RoundTrip :: "'cr cloud \<Rightarrow> APIKeyTransport \<Rightarrow> RoundTripper" where
  "akt_RoundTrip cl t r = akt_base cl t (r\<lparr>or_Header := Header_Set (akt_HeaderName t) (akt_Prefix t @ akt_Key t) (or_Header r)\<rparr>)"

section \<open>Google\<close>

record GCPOAuthTransport =
  gct_base :: "RoundTripper option"
  gct_source :: TokenSource

definition NewGCPOAuthTransport :: "'cr cloud \<Rightarrow> RoundTripper option \<Rightarrow> string list \<Rightarrow> goerror + GCPOAuthTransport" where
  "NewGCPOAuthTransport cl base scopes =
     (case cl_FindDefaultCredentials cl scopes of
        Inl err \<Rightarrow> Inl (Wrapf ''cloudauth: find GCP credentials'' [err])
      | Inr source \<Rightarrow> Inr \<lparr>gct_base = base, gct_source = cl_ReuseTokenSource cl source\<rparr>)"

definition gct_getBase :: "'cr cloud \<Rightarrow> GCPOAuthTransport \<Rightarrow> RoundTripper" where
  "gct_getBase cl t = (case gct_base t of Some base \<Rightarrow> base | None \<Rightarrow> cl_DefaultTransport cl)"

definition gct_RoundTrip :: "'cr cloud \<Rightarrow> GCPOAuthTransport \<Rightarrow> gotime \<Rightarrow> RoundTripper" where
  "gct_RoundTrip cl t now r =
     (case gct_source t now of
        Inl err \<Rightarrow> Inl (Wrapf ''cloudauth: obtain GCP token'' [err])
      | Inr tok \<Rightarrow> gct_getBase cl t (r\<lparr>or_Header := Header_Set ''Authorization'' (''Bearer '' @ tok) (or_Header r)\<rparr>))"

section \<open>AWS\<close>

record 'cr AWSSigV4Transport =
  awt_base :: "RoundTripper option"
  awt_creds :: "gotime \<Rightarrow> goerror + 'cr"
  awt_region :: string
  awt_service :: string

definition NewAWSSigV4Transport :: "RoundTripper option \<Rightarrow> (gotime \<Rightarrow> goerror + 'cr) \<Rightarrow> string \<Rightarrow> string \<Rightarrow> 'cr AWSSigV4Transport" where
  "NewAWSSigV4Transport base creds region service =
     \<lparr>awt_base = base, awt_creds = creds, awt_region = region, awt_service = service\<rparr>"

definition awt_getBase :: "'cr cloud \<Rightarrow> 'cr AWSSigV4Transport \<Rightarrow> RoundTripper" where
  "awt_getBase cl t = (case awt_base t of Some base \<Rightarrow> base | None \<Rightarrow> cl_DefaultTransport cl)"

definition sha256Hex :: "bytes \<Rightarrow> string" where
  "sha256Hex data = hex_EncodeToString (sha256_Sum256 data)"

definition awt_RoundTrip :: "'cr cloud \<Rightarrow> 'cr AWSSigV4Transport \<Rightarrow> gotime \<Rightarrow> RoundTripper" where
  "awt_RoundTrip cl t now r =
     (case cl_ReadErr cl r of
        Some err \<Rightarrow> Inl (Wrapf ''cloudauth: read body for signing'' [err])
      | None \<Rightarrow>
          (case awt_creds t now of
             Inl err \<Rightarrow> Inl (Wrapf ''cloudauth: retrieve AWS credentials'' [err])
           | Inr creds \<Rightarrow>
               (case cl_SignHTTP cl creds r (sha256Hex (or_Body r)) (awt_service t) (awt_region t) now of
                  Inl err \<Rightarrow> Inl (Wrapf ''cloudauth: sign request'' [err])
                | Inr r2 \<Rightarrow> awt_getBase cl t r2)))"

section \<open>Connections\<close>

text \<open>\<open>net.SplitHostPort\<close> and \<open>net.JoinHostPort\<close>. An address in brackets may have colons.\<close>

definition address_error :: "string \<Rightarrow> string \<Rightarrow> goerror" where
  "address_error addr why = ErrorString (''address '' @ addr @ '': '' @ why)"

definition quoted :: "char \<Rightarrow> string" where
  "quoted c = [CHR 0x27, c, CHR 0x27]"

definition cut_last_colon :: "string \<Rightarrow> (string \<times> string) option" where
  "cut_last_colon s =
     (if CHR '':'' \<in> set s
      then Some (rev (tl (dropWhile (\<lambda>c. c \<noteq> CHR '':'') (rev s))), rev (takeWhile (\<lambda>c. c \<noteq> CHR '':'') (rev s)))
      else None)"

definition SplitHostPort :: "string \<Rightarrow> goerror + string \<times> string" where
  "SplitHostPort addr =
     (case cut_last_colon addr of
        None \<Rightarrow> Inl (address_error addr ''missing port in address'')
      | Some (host, port) \<Rightarrow>
          if addr \<noteq> [] \<and> hd addr = CHR ''[''
          then (case strings_Cut (tl addr) (CHR '']'') of
                  (h, rest, found) \<Rightarrow>
                    if \<not> found then Inl (address_error addr (''missing '' @ quoted (CHR '']'') @ '' in address''))
                    else if rest = [] then Inl (address_error addr ''missing port in address'')
                    else if rest \<noteq> CHR '':'' # port
                         then Inl (address_error addr (if hd rest = CHR '':'' then ''too many colons in address'' else ''missing port in address''))
                    else if CHR ''['' \<in> set h \<or> CHR ''['' \<in> set port then Inl (address_error addr (''unexpected '' @ quoted (CHR ''['') @ '' in address''))
                    else if CHR '']'' \<in> set port then Inl (address_error addr (''unexpected '' @ quoted (CHR '']'') @ '' in address''))
                    else Inr (h, port))
          else if CHR '':'' \<in> set host then Inl (address_error addr ''too many colons in address'')
          else if CHR ''['' \<in> set addr then Inl (address_error addr (''unexpected '' @ quoted (CHR ''['') @ '' in address''))
          else if CHR '']'' \<in> set addr then Inl (address_error addr (''unexpected '' @ quoted (CHR '']'') @ '' in address''))
          else Inr (host, port))"

definition JoinHostPort :: "string \<Rightarrow> string \<Rightarrow> string" where
  "JoinHostPort host port = (if CHR '':'' \<in> set host then ''['' @ host @ '']:'' @ port else host @ '':'' @ port)"

text \<open>The address that is dialled: the first that the cached resolver has for the host. \<open>ips[0]\<close> panics on an empty answer
  (\<open>None\<close>).\<close>

definition dial_address :: "(string \<Rightarrow> goerror + string list) \<Rightarrow> string \<Rightarrow> (goerror + string) option" where
  "dial_address LookupHost addr =
     (case SplitHostPort addr of
        Inl err \<Rightarrow> Some (Inl err)
      | Inr (host, port) \<Rightarrow>
          (case LookupHost host of
             Inl err \<Rightarrow> Some (Inl err)
           | Inr [] \<Rightarrow> None
           | Inr (ip # _) \<Rightarrow> Some (Inr (JoinHostPort ip port))))"

record Transport =
  tp_MaxIdleConnsPerHost :: int
  tp_MaxConnsPerHost :: int
  tp_IdleConnTimeout :: duration
  tp_ForceAttemptHTTP2 :: bool
  tp_TLSHandshakeTimeout :: duration
  tp_Dial :: "(string \<Rightarrow> (goerror + string) option) option"

definition NewTransport :: "(string \<Rightarrow> goerror + string list) option \<Rightarrow> bool \<Rightarrow> Transport" where
  "NewTransport resolver forceHTTP2 =
     \<lparr>tp_MaxIdleConnsPerHost = 100, tp_MaxConnsPerHost = 200, tp_IdleConnTimeout = 90 * second, tp_ForceAttemptHTTP2 = forceHTTP2,
      tp_TLSHandshakeTimeout = 5 * second, tp_Dial = map_option dial_address resolver\<rparr>"

lemma cut_last_colon_append:
  assumes "CHR '':'' \<notin> set port"
  shows "cut_last_colon (host @ CHR '':'' # port) = Some (host, port)"
proof -
  have "takeWhile (\<lambda>c. c \<noteq> CHR '':'') (rev port @ CHR '':'' # rev host) = rev port"
    "dropWhile (\<lambda>c. c \<noteq> CHR '':'') (rev port @ CHR '':'' # rev host) = CHR '':'' # rev host"
    using assms by (subst takeWhile_append2 dropWhile_append2; auto)+
  then show ?thesis by (simp add: cut_last_colon_def)
qed

text \<open>A resolved address is dialled at the port that was asked for, IPv6 addresses included.\<close>

lemma split_join_host_port:
  assumes "set port \<inter> {CHR '':'', CHR ''['', CHR '']''} = {}" "set host \<inter> {CHR ''['', CHR '']''} = {}"
  shows "SplitHostPort (JoinHostPort host port) = Inr (host, port)"
proof (cases "CHR '':'' \<in> set host")
  case True
  then have j: "JoinHostPort host port = (CHR ''['' # host @ [CHR '']'']) @ CHR '':'' # port" by (simp add: JoinHostPort_def)
  have "cut_last_colon (JoinHostPort host port) = Some (CHR ''['' # host @ [CHR '']''], port)"
    unfolding j by (rule cut_last_colon_append) (use assms(1) in blast)
  moreover have "strings_Cut (host @ CHR '']'' # CHR '':'' # port) (CHR '']'') = (host, CHR '':'' # port, True)"
    using assms(2) by (simp add: strings_Cut_append)
  ultimately show ?thesis using assms by (simp add: SplitHostPort_def j)
next
  case False
  then have j: "JoinHostPort host port = host @ CHR '':'' # port" by (simp add: JoinHostPort_def)
  have "hd (host @ CHR '':'' # port) \<noteq> CHR ''[''" using assms(2) by (cases host) auto
  moreover have "cut_last_colon (host @ CHR '':'' # port) = Some (host, port)" by (rule cut_last_colon_append) (use assms(1) in blast)
  ultimately show ?thesis using assms False unfolding j by (auto simp: SplitHostPort_def)
qed

end
