(* ===== verification/Startup.thy ===== *)
theory Startup
  imports Config_Boot Native Cloud_Auth Rate_Limit
begin

text \<open>
  Starting the gateway: \<open>run\<close> of \<open>cmd/gandalf/run.go\<close> up to the moment it serves, with \<open>New\<close> of \<open>internal/storage/sqlite/db.go\<close>.
  Files, environment, YAML parser, SQLite driver, cloud SDKs, caches and network are arguments. Log lines are left out.
  What happens after that, until \<open>run\<close> returns, is theory \<open>Lifecycle\<close>.
\<close>

section \<open>The store\<close>

definition sqlite_pragmas :: string where
  "sqlite_pragmas = ''_pragma=journal_mode(WAL)&_pragma=busy_timeout(5000)&_pragma=synchronous(NORMAL)&_pragma=foreign_keys(1)''"

definition fullDSN :: "string \<Rightarrow> string" where
  "fullDSN dsn =
     (if dsn = '':memory:'' then ''file::memory:?mode=memory&cache=shared&'' @ sqlite_pragmas
      else ''file:'' @ dsn @ ''?'' @ sqlite_pragmas)"

text \<open>\<open>sql_open n\<close> is the error of the \<open>n\<close>-th \<open>sql.Open\<close>, \<open>migrate\<close> the database after the migrations.\<close>

definition sqlite_New :: "(nat \<Rightarrow> string \<Rightarrow> goerror option) \<Rightarrow> (string \<Rightarrow> goerror + db) \<Rightarrow> string \<Rightarrow> goerror + db" where
  "sqlite_New sql_open migrate dsn =
     (case sql_open 0 (fullDSN dsn) of
        Some err \<Rightarrow> Inl (Wrapf ''open write db'' [err])
      | None \<Rightarrow>
          (case sql_open 1 (fullDSN dsn) of
             Some err \<Rightarrow> Inl (Wrapf ''open read db'' [err])
           | None \<Rightarrow>
               (case migrate (fullDSN dsn) of
                  Inl err \<Rightarrow> Inl (Wrapf ''migrations'' [err])
                | Inr d \<Rightarrow> Inr d)))"

section \<open>Providers\<close>

definition authHeaderForType :: "string \<Rightarrow> string \<Rightarrow> string \<times> string" where
  "authHeaderForType provType hosting =
     (if provType = ''openai'' \<and> hosting = ''azure'' then (''api-key'', '''')
      else if provType = ''openai'' then (''Authorization'', ''Bearer '')
      else if provType = ''anthropic'' then (''x-api-key'', '''')
      else if provType = ''gemini'' then (''x-goog-api-key'', '''')
      else if provType = ''ollama'' then (''Authorization'', ''Bearer '')
      else (''Authorization'', ''Bearer ''))"

record http_client =
  hc_Transport :: "gotime \<Rightarrow> RoundTripper"
  hc_Timeout :: duration

text \<open>\<open>network t\<close> is the \<open>RoundTripper\<close> of a tuned transport.\<close>

definition provider_transport :: "'cr cloud \<Rightarrow> RoundTripper \<Rightarrow> ProviderEntry \<Rightarrow> goerror + (gotime \<Rightarrow> RoundTripper)" where
  "provider_transport cl base p =
     (let auth = ResolvedAuthType p
      in if auth = ''gcp_oauth''
         then (case NewGCPOAuthTransport cl (Some base) [''https://www.googleapis.com/auth/cloud-platform''] of
                 Inl err \<Rightarrow> Inl (Wrapf ''gcp oauth'' [err])
               | Inr t \<Rightarrow> Inr (gct_RoundTrip cl t))
         else if auth = ''aws_sigv4''
         then (case cl_LoadDefaultConfig cl (pe_Region p) of
                 Inl err \<Rightarrow> Inl (Wrapf ''aws credentials'' [err])
               | Inr creds \<Rightarrow> Inr (awt_RoundTrip cl (NewAWSSigV4Transport (Some base) creds (pe_Region p) ''bedrock-runtime'')))
         else if auth = ''api_key''
         then (let apiKey = ResolvedAPIKey p
               in if apiKey \<noteq> ''''
                  then (case authHeaderForType (ResolvedType p) (ResolvedHosting p) of
                          (headerName, pre) \<Rightarrow>
                            Inr (\<lambda>now. akt_RoundTrip cl \<lparr>akt_Key = apiKey, akt_HeaderName = headerName, akt_Prefix = pre, akt_Base = Some base\<rparr>))
                  else Inr (\<lambda>now. base))
         else Inl (ErrorString (''unsupported auth type: '' @ fmt_q auth)))"

definition buildProviderClient ::
  "'cr cloud \<Rightarrow> (Transport \<Rightarrow> RoundTripper) \<Rightarrow> (string \<Rightarrow> goerror + string list) \<Rightarrow> ProviderEntry \<Rightarrow> goerror + http_client" where
  "buildProviderClient cl network resolver p =
     (let useHTTP2 = (ResolvedType p \<noteq> ''ollama'');
          base = network (NewTransport (Some resolver) useHTTP2)
      in case provider_transport cl base p of
           Inl err \<Rightarrow> Inl err
         | Inr transport \<Rightarrow>
             Inr \<lparr>hc_Transport = transport, hc_Timeout = (if pe_TimeoutMs p > 0 then wrap64 (pe_TimeoutMs p * 1000000) else 0)\<rparr>)"

definition new_provider :: "ProviderEntry \<Rightarrow> adapter option" where
  "new_provider p =
     (let h = ResolvedHosting p
      in if ResolvedType p = ''openai''
         then Some (OpenAI (if h = ''azure'' then openai_NewWithHosting (pe_Name p) (pe_BaseURL p) h else openai_New (pe_Name p) (pe_BaseURL p)))
         else if ResolvedType p = ''anthropic''
         then Some (Anthropic (if h = ''vertex'' \<or> h = ''bedrock''
                               then anthropic_NewWithHosting (pe_Name p) (pe_BaseURL p) h (pe_Region p) (pe_Project p)
                               else anthropic_New (pe_Name p) (pe_BaseURL p)))
         else if ResolvedType p = ''gemini''
         then Some (Gemini (if h = ''vertex'' then gemini_NewWithHosting (pe_Name p) (pe_BaseURL p) h (pe_Region p) (pe_Project p)
                            else gemini_New (pe_Name p) (pe_BaseURL p)))
         else if ResolvedType p = ''ollama'' then Some (Ollama (ollama_New (pe_Name p) (pe_BaseURL p)))
         else None)"

fun register_providers ::
  "'cr cloud \<Rightarrow> (Transport \<Rightarrow> RoundTripper) \<Rightarrow> (string \<Rightarrow> goerror + string list) \<Rightarrow> ProviderEntry list
     \<Rightarrow> (adapter \<times> http_client) provider_Registry \<Rightarrow> goerror + (adapter \<times> http_client) provider_Registry" where
  "register_providers cl network resolver [] reg = Inr reg"
| "register_providers cl network resolver (p # ps) reg =
     (if \<not> IsEnabled p then register_providers cl network resolver ps reg
      else case buildProviderClient cl network resolver p of
        Inl err \<Rightarrow> Inl (Wrapf (''provider '' @ fmt_q (pe_Name p)) [err])
      | Inr client \<Rightarrow>
          (case new_provider p of
             None \<Rightarrow> register_providers cl network resolver ps reg
           | Some prov \<Rightarrow> register_providers cl network resolver ps (pr_Register (pe_Name p) (prov, client) reg)))"

section \<open>Circuit breakers\<close>

text \<open>A setting that is zero takes its default.\<close>

definition breaker_config :: "CircuitBreakerConfig \<Rightarrow> Config" where
  "breaker_config c =
     \<lparr>cfg_ErrorThreshold = (if cbc_ErrorThreshold c = 0 then 3 / 10 else cbc_ErrorThreshold c),
      cfg_MinSamples = (if cbc_MinSamples c = 0 then 10 else cbc_MinSamples c),
      cfg_WindowSeconds = (if cbc_WindowSeconds c = 0 then 60 else cbc_WindowSeconds c),
      cfg_OpenTimeout = (if cbc_OpenTimeout c = 0 then 30 * second else cbc_OpenTimeout c)\<rparr>"

definition new_breakers :: "CircuitBreakerConfig \<Rightarrow> breaker_Registry option" where
  "new_breakers c = (if cbc_Enabled c then Some (cb_NewRegistry (breaker_config c)) else None)"

section \<open>Wiring\<close>

record http_Server =
  hs_Addr :: string
  hs_ReadTimeout :: duration
  hs_ReadHeaderTimeout :: duration
  hs_WriteTimeout :: duration
  hs_IdleTimeout :: duration

definition new_http_Server :: "ServerConfig \<Rightarrow> http_Server" where
  "new_http_Server c =
     \<lparr>hs_Addr = sc_Addr c, hs_ReadTimeout = sc_ReadTimeout c, hs_ReadHeaderTimeout = 5 * second, hs_WriteTimeout = sc_WriteTimeout c,
      hs_IdleTimeout = 120 * second\<rparr>"

text \<open>Endpoint and sample rate of the tracer, if tracing can be set up; a failure is logged only.\<close>

definition tracing_setup :: "(string \<Rightarrow> float64 \<Rightarrow> goerror option) \<Rightarrow> TracingConfig \<Rightarrow> (string \<times> float64) option" where
  "tracing_setup SetupTracing c =
     (if tr_Enabled c
      then (let endpoint = (if tr_Endpoint c = '''' then ''localhost:4317'' else tr_Endpoint c);
                sampleRate = (if tr_SampleRate c = 0 then 1 / 10 else tr_SampleRate c)
            in case SetupTracing endpoint sampleRate of Some err \<Rightarrow> None | None \<Rightarrow> Some (endpoint, sampleRate))
      else None)"

definition start_workers :: "string list" where
  "start_workers = [''usage_recorder'', ''quota_sync'', ''usage_rollup'']"

record wiring =
  wi_Store :: db
  wi_Providers :: "(adapter \<times> http_client) provider_Registry"
  wi_Breakers :: "breaker_Registry option"
  wi_Cache :: "(int \<times> duration) option"
  wi_Tracer :: "(string \<times> float64) option"
  wi_Metrics :: bool
  wi_DefaultRPM :: int
  wi_DefaultTPM :: int
  wi_Workers :: "string list"
  wi_Server :: http_Server

datatype started = Started wiring | StartFailed goerror | StartPanicked string

record 'cr start_env =
  se_ReadFile :: "string \<Rightarrow> goerror + bytes"
  se_LookupEnv :: "string \<Rightarrow> string option"
  se_yaml :: "bytes \<Rightarrow> config_Config \<Rightarrow> goerror + config_Config"
  se_sql_open :: "nat \<Rightarrow> string \<Rightarrow> goerror option"
  se_migrate :: "string \<Rightarrow> goerror + db"
  se_faults :: "nat \<Rightarrow> goerror option"
  se_uuids :: "nat \<Rightarrow> string option"
  se_now :: "nat \<Rightarrow> gotime"
  se_cloud :: "'cr cloud"
  se_network :: "Transport \<Rightarrow> RoundTripper"
  se_resolver :: "string \<Rightarrow> goerror + string list"
  se_otter_New :: "int \<Rightarrow> duration \<Rightarrow> goerror option"
  se_SetupTracing :: "string \<Rightarrow> float64 \<Rightarrow> goerror option"

text \<open>Everything after the providers. The cache of the authenticator holds \<open>cacheMaxLen\<close> keys.\<close>

definition cacheMaxLen :: int where
  "cacheMaxLen = 10000"

definition wire_services :: "'cr start_env \<Rightarrow> config_Config \<Rightarrow> db \<Rightarrow> (adapter \<times> http_client) provider_Registry \<Rightarrow> started" where
  "wire_services se cfg d reg =
     (let tracer = tracing_setup (se_SetupTracing se) (tl_Tracing (cf_Telemetry cfg))
      in case se_otter_New se cacheMaxLen cacheTTL of
           Some err \<Rightarrow> StartFailed (Wrapf ''create auth cache'' [err])
         | None \<Rightarrow>
             (let breakers = new_breakers (cf_CircuitBreaker cfg); cc = cf_Cache cfg;
                  wi = \<lparr>wi_Store = d, wi_Providers = reg, wi_Breakers = breakers,
                        wi_Cache = (if cac_Enabled cc then Some (cac_MaxSize cc, cac_DefaultTTL cc) else None), wi_Tracer = tracer,
                        wi_Metrics = mc_Enabled (tl_Metrics (cf_Telemetry cfg)), wi_DefaultRPM = rlc_DefaultRPM (cf_RateLimits cfg),
                        wi_DefaultTPM = rlc_DefaultTPM (cf_RateLimits cfg), wi_Workers = start_workers, wi_Server = new_http_Server (cf_Server cfg)\<rparr>
              in if cac_Enabled cc
                 then (case se_otter_New se (cac_MaxSize cc) (cac_DefaultTTL cc) of
                         Some err \<Rightarrow> StartFailed (Wrapf ''create cache'' [err])
                       | None \<Rightarrow> Started wi)
                 else Started wi))"

definition start :: "'cr start_env \<Rightarrow> string \<Rightarrow> started" where
  "start se configPath =
     (case Load (se_ReadFile se) (se_LookupEnv se) (se_yaml se) configPath of
        Inl err \<Rightarrow> StartFailed err
      | Inr cfg \<Rightarrow>
          (case sqlite_New (se_sql_open se) (se_migrate se) (dc_DSN (cf_Database cfg)) of
             Inl err \<Rightarrow> StartFailed err
           | Inr d \<Rightarrow>
               (case Bootstrap (se_faults se) (se_uuids se) (se_now se) cfg d of
                  (BootErr err, d) \<Rightarrow> StartFailed err
                | (BootPanic msg, d) \<Rightarrow> StartPanicked msg
                | (BootOK, d) \<Rightarrow>
                    (case register_providers (se_cloud se) (se_network se) (se_resolver se) (cf_Providers cfg) pr_NewRegistry of
                       Inl err \<Rightarrow> StartFailed err
                     | Inr reg \<Rightarrow> wire_services se cfg d reg))))"

section \<open>Housekeeping\<close>

text \<open>A tick of the eviction goroutines: what has not been used for an hour goes.\<close>

definition limiter_eviction :: "gotime \<Rightarrow> string list \<Rightarrow> limiter_Registry \<Rightarrow> limiter_Registry \<Rightarrow> nat \<times> limiter_Registry" where
  "limiter_eviction now order r r' = rl_EvictStale (now - 3600 * second) order r r'"

definition breaker_eviction :: "gotime \<Rightarrow> string list \<Rightarrow> breaker_Registry \<Rightarrow> breaker_Registry \<Rightarrow> nat \<times> breaker_Registry" where
  "breaker_eviction now order r r' = cb_EvictStale (now - 3600 * second) order r r'"

section \<open>What a provider receives\<close>

text \<open>The header in which the API of a provider takes a key, and its value.\<close>

definition credential :: "ProviderEntry \<Rightarrow> (string \<times> string) option" where
  "credential p =
     (if ResolvedAPIKey p = [] then None
      else if ResolvedType p = ''openai'' \<and> pe_Hosting p = ''azure'' then Some (''Api-Key'', ResolvedAPIKey p)
      else if ResolvedType p = ''anthropic'' then Some (''X-Api-Key'', ResolvedAPIKey p)
      else if ResolvedType p = ''gemini'' then Some (''X-Goog-Api-Key'', ResolvedAPIKey p)
      else Some (''Authorization'', ''Bearer '' @ ResolvedAPIKey p))"

definition with_credential :: "(string \<times> string) option \<Rightarrow> out_request \<Rightarrow> out_request" where
  "with_credential cred q = (case cred of None \<Rightarrow> q | Some (h, v) \<Rightarrow> q\<lparr>or_Header := (or_Header q)(h \<mapsto> [v])\<rparr>)"

definition known_types :: "string set" where
  "known_types = {''openai'', ''anthropic'', ''gemini'', ''ollama''}"

definition registers :: "ProviderEntry \<Rightarrow> bool" where
  "registers p \<longleftrightarrow> pe_Enabled p \<noteq> Some False \<and> ResolvedType p \<in> known_types"

lemma IsEnabled_iff: "IsEnabled p \<longleftrightarrow> pe_Enabled p \<noteq> Some False"
  by (auto simp: IsEnabled_def split: option.split)

lemma new_provider_iff:
  "(\<exists>a. new_provider p = Some a) \<longleftrightarrow> ResolvedType p \<in> known_types"
  "new_provider p = Some a \<Longrightarrow> adapter_Type a = ResolvedType p"
  by (auto simp: new_provider_def known_types_def Let_def split: if_splits)

lemma canonical_credentials [simp]:
  "CanonicalMIMEHeaderKey ''api-key'' = ''Api-Key''" "CanonicalMIMEHeaderKey ''x-api-key'' = ''X-Api-Key''"
  "CanonicalMIMEHeaderKey ''x-goog-api-key'' = ''X-Goog-Api-Key''" "CanonicalMIMEHeaderKey ''Authorization'' = ''Authorization''"
  by code_simp+

lemma api_key_transport:
  assumes "provider_transport cl base p = Inr t" "ResolvedAuthType p = ''api_key''"
  shows "t now q = base (with_credential (credential p) q)"
  using assms by (auto simp: provider_transport_def with_credential_def credential_def Let_def authHeaderForType_def akt_RoundTrip_def
      akt_base_def Header_Set_def ResolvedHosting_def split: if_splits)

lemma credential_is_auth: "credential p = Some (h, v) \<Longrightarrow> auth_header h"
proof -
  have "auth_header ''Api-Key''" "auth_header ''X-Api-Key''" "auth_header ''X-Goog-Api-Key''" "auth_header ''Authorization''" by code_simp+
  then show "credential p = Some (h, v) \<Longrightarrow> ?thesis" by (auto simp: credential_def split: if_splits)
qed

text \<open>The request \<open>q\<close> of an adapter and what is sent for it.\<close>

definition delivers :: "ProviderEntry \<Rightarrow> out_request \<Rightarrow> out_request \<Rightarrow> bool" where
  "delivers p q q' \<longleftrightarrow>
     or_Method q' = or_Method q \<and> or_URL q' = or_URL q \<and> or_Body q' = or_Body q \<and>
     (\<forall>k. \<not> auth_header k \<longrightarrow> or_Header q' k = or_Header q k) \<and>
     (\<forall>h v. credential p = Some (h, v) \<longrightarrow> or_Header q' h = Some [v]) \<and>
     ((\<forall>k. auth_header k \<longrightarrow> or_Header q k = None) \<longrightarrow>
       (\<forall>k. auth_header k \<and> or_Header q' k \<noteq> None \<longrightarrow> (\<exists>v. credential p = Some (k, v))))"

text \<open>The entry under a name is the last one that registers.\<close>

lemma registered_entry:
  "register_providers cl net res ps reg0 = Inr reg \<Longrightarrow> reg name = Some (a, c) \<Longrightarrow>
   reg0 name = Some (a, c) \<and> (\<forall>p \<in> set ps. pe_Name p = name \<longrightarrow> \<not> registers p) \<or>
   (\<exists>xs p ys. ps = xs @ p # ys \<and> pe_Name p = name \<and> registers p \<and> (\<forall>y \<in> set ys. pe_Name y = name \<longrightarrow> \<not> registers y) \<and>
     new_provider p = Some a \<and> buildProviderClient cl net res p = Inr c)"
proof (induction ps arbitrary: reg0)
  case (Cons p ps)
  have reg: "registers p \<longleftrightarrow> IsEnabled p \<and> (\<exists>a. new_provider p = Some a)" by (simp add: registers_def IsEnabled_iff new_provider_iff)
  show ?case
  proof (cases "registers p")
    case False
    then have "register_providers cl net res ps reg0 = Inr reg" using Cons.prems(1) by (auto simp: reg split: sum.splits option.splits if_splits)
    from Cons.IH [OF this Cons.prems(2)] False show ?thesis by (metis append_Cons set_ConsD)
  next
    case True
    then obtain a' c' where p: "new_provider p = Some a'" "buildProviderClient cl net res p = Inr c'" "IsEnabled p"
      "register_providers cl net res ps (pr_Register (pe_Name p) (a', c') reg0) = Inr reg"
      using Cons.prems(1) by (auto simp: reg split: sum.splits)
    from Cons.IH [OF p(4) Cons.prems(2)] show ?thesis
    proof (elim disjE conjE exE)
      assume "pr_Register (pe_Name p) (a', c') reg0 name = Some (a, c)" and none: "\<forall>p \<in> set ps. pe_Name p = name \<longrightarrow> \<not> registers p"
      then consider "pe_Name p = name" "a' = a" "c' = c" | "pe_Name p \<noteq> name" "reg0 name = Some (a, c)"
        by (cases "pe_Name p = name") (auto simp: pr_Register_def)
      then show ?thesis
      proof cases
        case 1
        with p True none have "p # ps = [] @ p # ps \<and> pe_Name p = name \<and> registers p \<and> (\<forall>y \<in> set ps. pe_Name y = name \<longrightarrow> \<not> registers y) \<and>
          new_provider p = Some a \<and> buildProviderClient cl net res p = Inr c" by simp
        then show ?thesis by blast
      qed (use none in auto)
    qed (metis append_Cons)
  qed
qed simp

text \<open>An enabled entry can be used with a key or without authentication, and with a cloud login if there are credentials for it.\<close>

definition can_authenticate :: "'cr cloud \<Rightarrow> ProviderEntry \<Rightarrow> bool" where
  "can_authenticate cl p \<longleftrightarrow>
     ResolvedAuthType p = ''api_key'' \<or>
     ResolvedAuthType p = ''gcp_oauth'' \<and> \<not> isl (cl_FindDefaultCredentials cl [''https://www.googleapis.com/auth/cloud-platform'']) \<or>
     ResolvedAuthType p = ''aws_sigv4'' \<and> \<not> isl (cl_LoadDefaultConfig cl (pe_Region p))"

lemma client_built: "(\<exists>c. buildProviderClient cl net res p = Inr c) \<longleftrightarrow> can_authenticate cl p"
  by (auto simp: buildProviderClient_def provider_transport_def can_authenticate_def NewGCPOAuthTransport_def Let_def isl_def
      split: sum.split prod.split)

lemma registers_all:
  "(\<exists>reg. register_providers cl net res ps reg0 = Inr reg) \<longleftrightarrow> (\<forall>p \<in> set ps. pe_Enabled p \<noteq> Some False \<longrightarrow> can_authenticate cl p)"
proof (induction ps arbitrary: reg0)
  case (Cons p ps)
  show ?case using Cons.IH client_built [of cl net res p] by (auto simp: IsEnabled_iff split: sum.splits option.splits)
qed simp

lemma registered_names:
  "register_providers cl net res ps reg0 = Inr reg \<Longrightarrow> dom reg = dom reg0 \<union> pe_Name ` {p \<in> set ps. registers p}"
proof (induction ps arbitrary: reg0)
  case (Cons p ps)
  have reg: "registers p \<longleftrightarrow> IsEnabled p \<and> (\<exists>a. new_provider p = Some a)" by (simp add: registers_def IsEnabled_iff new_provider_iff)
  show ?case
  proof (cases "registers p")
    case True
    then obtain x where "register_providers cl net res ps (pr_Register (pe_Name p) x reg0) = Inr reg"
      using Cons.prems by (auto simp: reg split: sum.splits)
    from Cons.IH [OF this] have "dom reg = insert (pe_Name p) (dom reg0) \<union> pe_Name ` {p \<in> set ps. registers p}"
      unfolding pr_Register_def dom_fun_upd by simp
    moreover have "{q \<in> set (p # ps). registers q} = insert p {q \<in> set ps. registers q}" using True by auto
    ultimately show ?thesis by simp
  next
    case False
    then have "register_providers cl net res ps reg0 = Inr reg" using Cons.prems by (auto simp: reg split: sum.splits option.splits if_splits)
    from Cons.IH [OF this] False show ?thesis by auto
  qed
qed simp

section \<open>Properties\<close>


definition ex_net :: "Transport \<Rightarrow> RoundTripper" where
  "ex_net t q = Inr \<lparr>rs_StatusCode = 200, rs_Header = or_Header q, rs_Body = or_Body q, rs_BodyErr = None\<rparr>"

definition ex_cloud :: "unit cloud" where
  "ex_cloud = \<lparr>cl_FindDefaultCredentials = (\<lambda>_. Inl (ErrorString ''none'')), cl_ReuseTokenSource = (\<lambda>s. s),
     cl_LoadDefaultConfig = (\<lambda>_. Inl (ErrorString ''none'')), cl_SignHTTP = (\<lambda>_ q _ _ _ _. Inr q), cl_ReadErr = (\<lambda>_. None),
     cl_DefaultTransport = ex_net (NewTransport None True)\<rparr>"

definition ex_entry :: ProviderEntry where
  "ex_entry = \<lparr>pe_Name = ''claude'', pe_Type = ''anthropic'', pe_BaseURL = [], pe_APIKey = ''sk-1'', pe_Models = [], pe_Priority = 1, pe_Weight = 0,
     pe_Enabled = None, pe_MaxRPS = 0, pe_TimeoutMs = 1000, pe_Hosting = [], pe_Region = [], pe_Project = [], pe_Auth = None\<rparr>"

lemma ex_registered:
  "\<exists>reg c. register_providers ex_cloud ex_net (\<lambda>_. Inr []) [ex_entry] pr_NewRegistry = Inr reg \<and> reg ''claude'' = Some (Anthropic (anthropic_New ''claude'' []), c)"
  by (simp add: ex_entry_def IsEnabled_def buildProviderClient_def provider_transport_def ResolvedAuthType_def ResolvedAPIKey_def ResolvedType_def
      ResolvedHosting_def authHeaderForType_def new_provider_def pr_Register_def Let_def)


section \<open>Starting\<close>

text \<open>What can still keep a gateway with a loaded configuration and a seeded store from serving.\<close>

definition can_serve :: "'cr start_env \<Rightarrow> config_Config \<Rightarrow> bool" where
  "can_serve se cfg \<longleftrightarrow>
     (\<forall>p \<in> set (cf_Providers cfg). pe_Enabled p \<noteq> Some False \<longrightarrow> can_authenticate (se_cloud se) p) \<and>
     se_otter_New se 10000 (30 * second) = None \<and>
     (cac_Enabled (cf_Cache cfg) \<longrightarrow> se_otter_New se (cac_MaxSize (cf_Cache cfg)) (cac_DefaultTTL (cf_Cache cfg)) = None)"

lemma wire_services_cases:
  "if se_otter_New se 10000 (30 * second) = None \<and>
      (cac_Enabled (cf_Cache cfg) \<longrightarrow> se_otter_New se (cac_MaxSize (cf_Cache cfg)) (cac_DefaultTTL (cf_Cache cfg)) = None)
   then \<exists>wi. wire_services se cfg d reg = Started wi \<and> wi_Store wi = d \<and> wi_Providers wi = reg \<and>
     wi_Breakers wi = new_breakers (cf_CircuitBreaker cfg) \<and> (wi_Cache wi = None \<longleftrightarrow> \<not> cac_Enabled (cf_Cache cfg)) \<and>
     wi_DefaultRPM wi = rlc_DefaultRPM (cf_RateLimits cfg) \<and> wi_DefaultTPM wi = rlc_DefaultTPM (cf_RateLimits cfg)
   else \<exists>err. wire_services se cfg d reg = StartFailed err"
  by (auto simp: wire_services_def Let_def cacheMaxLen_def cacheTTL_def split: option.split)

lemma breaker_config_positive:
  assumes "new_breakers c = Some b" "0 \<le> cbc_MinSamples c" "0 \<le> cbc_WindowSeconds c" "0 \<le> cbc_OpenTimeout c" "0 \<le> cbc_ErrorThreshold c"
  shows "cfg_MinSamples (cbr_config b) > 0 \<and> cfg_WindowSeconds (cbr_config b) > 0 \<and> cfg_OpenTimeout (cbr_config b) > 0 \<and>
    cfg_ErrorThreshold (cbr_config b) > 0"
  using assms by (auto simp: new_breakers_def breaker_config_def cb_NewRegistry_def second_def split: if_splits)


definition ex_start :: "unit start_env" where
  "ex_start =
     \<lparr>se_ReadFile = (\<lambda>_. Inr ''cfg''), se_LookupEnv = (\<lambda>_. None), se_yaml = (\<lambda>_ _. Inr ex_config), se_sql_open = (\<lambda>_ _. None),
      se_migrate = (\<lambda>_. Inr ex_db), se_faults = (\<lambda>_. None), se_uuids = ex_uuids, se_now = (\<lambda>_. 0), se_cloud = ex_cloud, se_network = ex_net,
      se_resolver = (\<lambda>_. Inr []), se_otter_New = (\<lambda>_ _. None), se_SetupTracing = (\<lambda>_ _. None)\<rparr>"


end
