(* ===== verification/Lifecycle.thy ===== *)
theory Lifecycle
  imports Usage_Workers
begin

text \<open>
  The running gateway and its shutdown: the goroutines that \<open>run\<close> starts (\<open>cmd/gandalf/run.go\<close>) and the worker runner
  (\<open>internal/worker/runner.go\<close>), as a step relation over the recorder of theory \<open>Usage_Workers\<close>.

  The state has the place of \<open>run\<close> itself, the number of requests that are being handled, whether \<open>workerCtx\<close> is
  cancelled, the usage recorder, how many of the other workers (quota sync, rollup) have not returned, and the
  batches that were handed to the store with a context that was cancelled already. \<open>http.Server.Shutdown\<close> closes the listener
  and returns nil when no request is being handled, or the error of its context. When \<open>run\<close> returns the process
  ends, and with it every goroutine. No worker returns an error, so the context of the runner's group is cancelled
  with \<open>workerCtx\<close> only.
\<close>

section \<open>Steps\<close>

datatype run_phase = Serving | Closing | Waiting | Exited "goerror option"

record gateway_process =
  gp_phase :: run_phase
  gp_active :: nat
  gp_cancelled :: bool
  gp_recorder :: UsageRecorder
  gp_others :: nat
  gp_late :: "UsageRecord list list"

definition gateway_ready :: gateway_process where
  "gateway_ready = \<lparr>gp_phase = Serving, gp_active = 0, gp_cancelled = False, gp_recorder = NewUsageRecorder, gp_others = 2, gp_late = []\<rparr>"

fun exited :: "run_phase \<Rightarrow> bool" where
  "exited (Exited e) \<longleftrightarrow> True"
| "exited _ \<longleftrightarrow> False"

text \<open>\<open>Runner.Run\<close> returns when every worker has returned.\<close>

definition runner_done :: "gateway_process \<Rightarrow> bool" where
  "runner_done p \<longleftrightarrow> rc_mode (gp_recorder p) = Stopped \<and> gp_others p = 0"

text \<open>A step of the recorder; it sees \<open>ctx.Done\<close> only when the context is cancelled. Until then, and in \<open>drain\<close>, its batches are
  inserted with a live context.\<close>

definition recorder_moves :: "gateway_process \<Rightarrow> UsageRecorder \<Rightarrow> gateway_process" where
  "recorder_moves p s' =
     p\<lparr>gp_recorder := s',
       gp_late := (if gp_cancelled p \<and> rc_mode (gp_recorder p) = Running
                   then gp_late p @ drop (length (rc_calls (gp_recorder p))) (rc_calls s') else gp_late p)\<rparr>"

text \<open>A step is labelled with the usage records that the recorder accepts in it.\<close>

definition accepted :: "gateway_process \<Rightarrow> UsageRecord \<Rightarrow> UsageRecord list" where
  "accepted p r = (if length (rc_ch (gp_recorder p)) < usageChanSize then [r] else [])"

inductive run_step :: "gateway_process \<Rightarrow> UsageRecord list \<Rightarrow> gateway_process \<Rightarrow> bool" where
  accept: "gp_phase p = Serving \<Longrightarrow> run_step p [] (p\<lparr>gp_active := gp_active p + 1\<rparr>)"
| record_usage: "\<not> exited (gp_phase p) \<Longrightarrow> gp_active p > 0 \<Longrightarrow> run_step p (accepted p r) (p\<lparr>gp_recorder := Record r (gp_recorder p)\<rparr>)"
| finish: "\<not> exited (gp_phase p) \<Longrightarrow> gp_active p > 0 \<Longrightarrow> run_step p [] (p\<lparr>gp_active := gp_active p - 1\<rparr>)"
| signal: "gp_phase p = Serving \<Longrightarrow> run_step p [] (p\<lparr>gp_phase := Closing\<rparr>)"
| listen_fails: "gp_phase p = Serving \<Longrightarrow> run_step p [] (p\<lparr>gp_phase := Exited (Some err), gp_cancelled := True\<rparr>)"
| closed: "gp_phase p = Closing \<Longrightarrow> gp_active p = 0 \<Longrightarrow> run_step p [] (p\<lparr>gp_phase := Waiting, gp_cancelled := True\<rparr>)"
| close_fails: "gp_phase p = Closing \<Longrightarrow> run_step p [] (p\<lparr>gp_phase := Exited (Some err), gp_cancelled := True\<rparr>)"
| recorder: "\<not> exited (gp_phase p) \<Longrightarrow> rec_step (gp_recorder p) s' \<Longrightarrow>
    rc_mode (gp_recorder p) = Running \<and> rc_mode s' = Draining \<longrightarrow> gp_cancelled p \<Longrightarrow> run_step p [] (recorder_moves p s')"
| worker: "\<not> exited (gp_phase p) \<Longrightarrow> gp_cancelled p \<Longrightarrow> gp_others p > 0 \<Longrightarrow> run_step p [] (p\<lparr>gp_others := gp_others p - 1\<rparr>)"
| joined: "gp_phase p = Waiting \<Longrightarrow> runner_done p \<Longrightarrow> run_step p [] (p\<lparr>gp_phase := Exited None\<rparr>)"

inductive_cases run_stepE: "run_step p l p'"

text \<open>The states that the gateway can reach, with the usage records accepted on the way.\<close>

inductive gateway_run :: "UsageRecord list \<Rightarrow> gateway_process \<Rightarrow> bool" where
  ready: "gateway_run [] gateway_ready"
| moved: "gateway_run acc p \<Longrightarrow> run_step p l p' \<Longrightarrow> gateway_run (acc @ l) p'"

section \<open>Invariant\<close>

text \<open>The context is cancelled only after the last request, or when \<open>run\<close> gives up; so nothing is recorded while the recorder
  drains.\<close>

definition gateway_inv :: "UsageRecord list \<Rightarrow> gateway_process \<Rightarrow> bool" where
  "gateway_inv acc p \<longleftrightarrow> rec_run acc (gp_recorder p) \<and>
     (gp_cancelled p \<longleftrightarrow> gp_phase p \<noteq> Serving \<and> gp_phase p \<noteq> Closing) \<and>
     (gp_phase p = Waiting \<or> gp_phase p = Exited None \<longrightarrow> gp_active p = 0) \<and>
     (rc_mode (gp_recorder p) \<noteq> Running \<longrightarrow> gp_phase p = Waiting \<or> gp_phase p = Exited None) \<and>
     (rc_mode (gp_recorder p) = Stopped \<longrightarrow> rc_ch (gp_recorder p) = []) \<and>
     (gp_phase p = Exited None \<longrightarrow> rc_mode (gp_recorder p) = Stopped)"

lemma record_accepted: "rec_run acc (gp_recorder p) \<Longrightarrow> rec_run (acc @ accepted p r) (Record r (gp_recorder p))"
  by (simp add: accepted_def run_record run_drop)

lemma Record_mode [simp]: "rc_mode (Record r s) = rc_mode s"
  by (simp add: Record_def)

lemma recorder_modes [simp]:
  "rc_mode (flush uuid s) = rc_mode s" "rc_mode (flush_rest uuid s) = rc_mode s" "rc_ch (flush_rest uuid s) = rc_ch s"
  "rc_mode (receive uuid r rest s) = rc_mode s"
  by (simp_all add: flush_def flush_rest_def receive_def Let_def)

lemma rec_step_mode:
  assumes "rec_step s s'"
  shows "rc_mode s \<noteq> Stopped" "rc_mode s' = Running \<longrightarrow> rc_mode s = Running" "rc_mode s' = Stopped \<longrightarrow> rc_mode s = Draining \<and> rc_ch s' = []"
  using assms by (auto elim!: rec_stepE)

lemma gateway_inv_step:
  assumes "gateway_inv acc p" "run_step p l p'"
  shows "gateway_inv (acc @ l) p'"
  using assms(2)
proof cases
  case (record_usage r)
  then have "rc_mode (gp_recorder p) = Running" using assms(1) by (auto simp: gateway_inv_def)
  with record_usage assms(1) show ?thesis by (auto simp: gateway_inv_def record_accepted)
next
  case (recorder s')
  then have "rec_run acc s'" using assms(1) run_step unfolding gateway_inv_def by blast
  with recorder assms(1) rec_step_mode [OF recorder(4)] show ?thesis
    by (cases "gp_phase p"; cases "rc_mode (gp_recorder p)"; cases "rc_mode s'") (auto simp: gateway_inv_def recorder_moves_def)
qed (use assms(1) in \<open>auto simp: gateway_inv_def runner_done_def\<close>)

lemma gateway_run_inv: "gateway_run acc p \<Longrightarrow> gateway_inv acc p"
proof (induction rule: gateway_run.induct)
  case ready
  show ?case by (auto simp: gateway_inv_def gateway_ready_def NewUsageRecorder_def run_new [unfolded NewUsageRecorder_def])
qed (rule gateway_inv_step)

section \<open>Draining ends\<close>

abbreviation some_step :: "gateway_process \<Rightarrow> gateway_process \<Rightarrow> bool" where
  "some_step p p' \<equiv> \<exists>l. run_step p l p'"

definition draining :: "gateway_process \<Rightarrow> bool" where
  "draining p \<longleftrightarrow> gp_phase p = Waiting \<and> gp_active p = 0 \<and> gp_cancelled p \<and> rc_mode (gp_recorder p) \<noteq> Running"

definition left_over :: "gateway_process \<Rightarrow> nat" where
  "left_over p =
     (if exited (gp_phase p) then 0
      else 1 + length (rc_ch (gp_recorder p)) + gp_others p + (if rc_mode (gp_recorder p) = Stopped then 0 else 1))"

lemma exited_no_step: "exited (gp_phase p) \<Longrightarrow> \<not> some_step p p'"
  by (auto elim!: run_stepE)

lemma recorder_ch [simp]: "rc_ch (receive uuid r rest s) = rest"
  by (simp add: receive_def flush_def Let_def)

lemma draining_step:
  assumes "draining p" "run_step p l p'"
  shows "left_over p' < left_over p \<and> (draining p' \<or> gp_phase p' = Exited None)"
  using assms(2)
proof cases
  case (recorder s')
  from recorder(4) show ?thesis using recorder(2) assms(1)
    by cases (auto simp: draining_def left_over_def recorder_moves_def)
qed (use assms(1) in \<open>auto simp: draining_def left_over_def\<close>)

lemma draining_progress:
  assumes "draining p"
  shows "\<exists>p'. some_step p p'"
proof (cases "rc_mode (gp_recorder p) = Stopped")
  case True
  show ?thesis
  proof (cases "gp_others p = 0")
    case True
    then show ?thesis using assms \<open>rc_mode (gp_recorder p) = Stopped\<close> joined [of p] by (auto simp: draining_def runner_done_def)
  qed (use assms worker [of p] in \<open>auto simp: draining_def\<close>)
next
  case False
  have "\<exists>s'. rec_step (gp_recorder p) s' \<and> rc_mode (gp_recorder p) \<noteq> Running"
    using assms False step_drained step_receive by (cases "rc_ch (gp_recorder p)"; cases "rc_mode (gp_recorder p)") (force simp: draining_def)+
  then show ?thesis using assms recorder [of p] by (auto simp: draining_def)
qed

lemma draining_runs:
  "(some_step ^^ n) p p' \<Longrightarrow> draining p \<Longrightarrow> n + left_over p' \<le> left_over p \<and> (draining p' \<or> gp_phase p' = Exited None)"
proof (induction n arbitrary: p')
  case (Suc n)
  then obtain q l where q: "(some_step ^^ n) p q" "run_step q l p'" by auto
  with Suc.IH Suc.prems(2) have "n + left_over q \<le> left_over p" "draining q \<or> gp_phase q = Exited None" by blast+
  moreover have "\<not> exited (gp_phase q)" using exited_no_step q(2) by blast
  ultimately show ?case using draining_step [of q l p'] q(2) by auto
qed simp

lemma draining_reaches_exit: "draining p \<Longrightarrow> \<exists>p'. some_step\<^sup>*\<^sup>* p p' \<and> gp_phase p' = Exited None"
proof (induction "left_over p" arbitrary: p rule: less_induct)
  case less
  obtain l q where q: "run_step p l q" using draining_progress [OF less.prems] by blast
  have "\<exists>p'. some_step\<^sup>*\<^sup>* q p' \<and> gp_phase p' = Exited None"
    using draining_step [OF less.prems q] less.hyps [of q] by blast
  then obtain p' where "some_step\<^sup>*\<^sup>* q p'" "gp_phase p' = Exited None" by blast
  with converse_rtranclp_into_rtranclp [of some_step p q p'] q show ?case by blast
qed

section \<open>Properties\<close>

text \<open>
  C35. A clean shutdown records the usage of every request. If \<open>run\<close> returns nil then no request is being handled, and
  the batches that were handed to the store hold every usage record that was accepted while the gateway ran, in
  order and each once (ids aside): nothing is left in the channel or the buffer. This rests on the order of the
  shutdown, the server first and the workers after it.
\<close>

theorem shutdown_keeps_usage:
  assumes "gateway_run acc p" "gp_phase p = Exited None"
  shows "gp_active p = 0 \<and> rc_ch (gp_recorder p) = [] \<and> rc_buf (gp_recorder p) = [] \<and>
    map no_id (concat (rc_calls (gp_recorder p))) = map no_id acc"
proof -
  have "gateway_inv acc p" using assms(1) by (rule gateway_run_inv)
  then have *: "rec_run acc (gp_recorder p)" "rc_mode (gp_recorder p) = Stopped" "rc_ch (gp_recorder p) = []" "gp_active p = 0"
    using assms(2) by (simp_all add: gateway_inv_def)
  note inv = rec_run_inv [OF *(1), unfolded rec_inv_def]
  then have "rc_buf (gp_recorder p) = []" using *(2) by blast
  with inv *(3,4) show ?thesis by simp
qed

text \<open>
  C36. A shutdown ends. When the server has closed, \<open>run\<close> can return nil. From the moment the recorder has seen the
  cancellation, whatever the order in which the goroutines run, there are at most as many steps as records in the
  channel and other workers, and two more; and as long as \<open>run\<close> has not returned nil, some goroutine can go on.
\<close>

theorem shutdown_terminates:
  assumes "gateway_run acc p" "gp_phase p = Waiting"
  shows "(\<exists>p'. some_step\<^sup>*\<^sup>* p p' \<and> gp_phase p' = Exited None) \<and>
    (rc_mode (gp_recorder p) \<noteq> Running \<longrightarrow>
      (\<forall>n p'. (some_step ^^ n) p p' \<longrightarrow> n \<le> length (rc_ch (gp_recorder p)) + gp_others p + 2 \<and>
        (gp_phase p' = Exited None \<or> (\<exists>p''. some_step p' p''))))"
proof -
  have inv: "gp_active p = 0" "gp_cancelled p" using gateway_run_inv [OF assms(1)] assms(2) by (auto simp: gateway_inv_def)
  have "\<exists>q. some_step\<^sup>*\<^sup>* p q \<and> draining q"
  proof (cases "rc_mode (gp_recorder p) = Running")
    case True
    let ?q = "recorder_moves p ((gp_recorder p)\<lparr>rc_mode := Draining\<rparr>)"
    have "run_step p [] ?q" by (rule recorder) (use True assms(2) inv step_done in auto)
    moreover have "draining ?q" using inv assms(2) by (simp add: draining_def recorder_moves_def)
    ultimately show ?thesis by blast
  qed (use inv assms(2) in \<open>auto simp: draining_def\<close>)
  then have "\<exists>p'. some_step\<^sup>*\<^sup>* p p' \<and> gp_phase p' = Exited None"
    by (auto dest!: draining_reaches_exit intro: rtranclp_trans)
  moreover have "n \<le> length (rc_ch (gp_recorder p)) + gp_others p + 2 \<and> (gp_phase p' = Exited None \<or> (\<exists>p''. some_step p' p''))"
    if "rc_mode (gp_recorder p) \<noteq> Running" "(some_step ^^ n) p p'" for n p'
  proof -
    have "draining p" using that(1) inv assms(2) by (simp add: draining_def)
    moreover have "left_over p \<le> length (rc_ch (gp_recorder p)) + gp_others p + 2" by (simp add: left_over_def)
    ultimately show ?thesis using draining_runs [OF that(2)] draining_progress [of p'] by fastforce
  qed
  ultimately show ?thesis by blast
qed

section \<open>A run\<close>

text \<open>One request is handled and recorded, its record is received by the recorder, and a signal closes the server.\<close>

definition ex_record :: UsageRecord where
  "ex_record = ex_usage '''' 0"

definition ex_closed :: gateway_process where
  "ex_closed = gateway_ready\<lparr>gp_phase := Waiting, gp_cancelled := True, gp_recorder := NewUsageRecorder\<lparr>rc_buf := [ex_record]\<rparr>\<rparr>"

lemma ex_recorded: "gateway_run [ex_record] (gateway_ready\<lparr>gp_active := 1, gp_recorder := NewUsageRecorder\<lparr>rc_ch := [ex_record]\<rparr>\<rparr>)"
proof -
  have "gateway_run ([] @ []) (gateway_ready\<lparr>gp_active := 1\<rparr>)"
    using accept [of gateway_ready] by (intro moved [OF ready]) (simp add: gateway_ready_def)
  from moved [OF this record_usage [of _ ex_record]] show ?thesis
    by (simp add: gateway_ready_def accepted_def NewUsageRecorder_def usageChanSize_def Record_def)
qed

lemma ex_closed_run: "gateway_run [ex_record] ex_closed"
proof -
  let ?p0 = "gateway_ready\<lparr>gp_active := 1, gp_recorder := NewUsageRecorder\<lparr>rc_ch := [ex_record]\<rparr>\<rparr>"
  let ?p1 = "gateway_ready\<lparr>gp_active := 1, gp_recorder := NewUsageRecorder\<lparr>rc_buf := [ex_record]\<rparr>\<rparr>"
  have "rec_step (NewUsageRecorder\<lparr>rc_ch := [ex_record]\<rparr>) (receive (\<lambda>_. ''u'') ex_record [] (NewUsageRecorder\<lparr>rc_ch := [ex_record]\<rparr>))"
    by (rule step_receive) (simp_all add: NewUsageRecorder_def)
  then have "run_step ?p0 [] ?p1"
    using recorder [of ?p0] by (simp add: gateway_ready_def recorder_moves_def receive_def NewUsageRecorder_def usageBatchSize_def)
  from moved [OF ex_recorded this] have "gateway_run [ex_record] ?p1" by simp
  from moved [OF this finish] have "gateway_run [ex_record] (?p1\<lparr>gp_active := 0\<rparr>)" by (simp add: gateway_ready_def)
  from moved [OF this signal] have "gateway_run [ex_record] (?p1\<lparr>gp_active := 0, gp_phase := Closing\<rparr>)" by (simp add: gateway_ready_def)
  from moved [OF this closed] show ?thesis by (simp add: gateway_ready_def ex_closed_def)
qed

text \<open>The rest of the shutdown, from the cancellation on: \<open>late\<close> are the batches inserted between it and the moment the recorder
  sees it.\<close>

definition ex_exit :: "UsageRecord list list \<Rightarrow> gateway_process" where
  "ex_exit late =
     ex_closed\<lparr>gp_phase := Exited None, gp_others := 0, gp_late := late,
       gp_recorder := NewUsageRecorder\<lparr>rc_mode := Stopped, rc_calls := [[ex_record\<lparr>ur_ID := ''u''\<rparr>]]\<rparr>\<rparr>"

lemma ex_flushed: "flush_rest (\<lambda>_. ''u'') (NewUsageRecorder\<lparr>rc_buf := [ex_record], rc_mode := m\<rparr>) =
    NewUsageRecorder\<lparr>rc_mode := m, rc_calls := [[ex_record\<lparr>ur_ID := ''u''\<rparr>]]\<rparr>"
  by (simp add: flush_rest_def flush_def NewUsageRecorder_def assign_ids_def ex_record_def ex_usage_def)

abbreviation ex_stopped :: UsageRecorder where
  "ex_stopped \<equiv> NewUsageRecorder\<lparr>rc_mode := Stopped, rc_calls := [[ex_record\<lparr>ur_ID := ''u''\<rparr>]]\<rparr>"

lemma ex_last_steps:
  assumes "gateway_run [ex_record] (ex_closed\<lparr>gp_recorder := ex_stopped, gp_late := late\<rparr>)"
  shows "gateway_run [ex_record] (ex_exit late)"
proof -
  from moved [OF assms worker] have "gateway_run [ex_record] (ex_closed\<lparr>gp_recorder := ex_stopped, gp_late := late, gp_others := 1\<rparr>)"
    by (simp add: ex_closed_def gateway_ready_def)
  from moved [OF this worker] have "gateway_run [ex_record] (ex_closed\<lparr>gp_recorder := ex_stopped, gp_late := late, gp_others := 0\<rparr>)"
    by (simp add: ex_closed_def gateway_ready_def)
  from moved [OF this joined] show ?thesis by (simp add: ex_exit_def ex_closed_def gateway_ready_def runner_done_def)
qed

lemma waiting_recorder:
  assumes "gateway_run acc p" "gp_phase p = Waiting" "gp_cancelled p" "rec_step (gp_recorder p) s'" "p' = recorder_moves p s'"
  shows "gateway_run acc p'"
  using moved [OF assms(1) recorder [OF _ assms(4)]] assms(2,3,5) by simp

lemmas ex_states = ex_closed_def gateway_ready_def recorder_moves_def NewUsageRecorder_def

lemma ex_drained:
  assumes "gateway_run [ex_record] (ex_closed\<lparr>gp_recorder := s, gp_late := late\<rparr>)" "rc_mode s = Running" "rc_ch s = []"
    and "(flush_rest (\<lambda>_. ''u'') (s\<lparr>rc_mode := Draining\<rparr>))\<lparr>rc_mode := Stopped\<rparr> = ex_stopped"
  shows "gateway_run [ex_record] (ex_exit late)"
proof -
  have "gateway_run [ex_record] (ex_closed\<lparr>gp_recorder := s\<lparr>rc_mode := Draining\<rparr>, gp_late := late\<rparr>)"
    by (rule waiting_recorder [OF assms(1) _ _ step_done]) (simp_all add: ex_closed_def recorder_moves_def assms(2))
  from waiting_recorder [OF this _ _ step_drained [where uuid = "\<lambda>_. ''u''"]]
  have "gateway_run [ex_record] (ex_closed\<lparr>gp_recorder := ex_stopped, gp_late := late\<rparr>)"
    using assms(3,4) by (simp add: ex_closed_def recorder_moves_def)
  then show ?thesis by (rule ex_last_steps)
qed

lemma ex_exit_run: "gateway_run [ex_record] (ex_exit [])"
proof (rule ex_drained)
  show "gateway_run [ex_record] (ex_closed\<lparr>gp_recorder := NewUsageRecorder\<lparr>rc_buf := [ex_record]\<rparr>, gp_late := []\<rparr>)"
    using ex_closed_run by (simp add: ex_closed_def gateway_ready_def)
qed (simp_all add: ex_flushed NewUsageRecorder_def flush_rest_def flush_def assign_ids_def ex_record_def ex_usage_def)

theorem shutdown_keeps_usage_witness: "map no_id (concat (rc_calls (gp_recorder (ex_exit [])))) = map no_id [ex_record]"
  using shutdown_keeps_usage [OF ex_exit_run] by (simp add: ex_exit_def)

theorem shutdown_terminates_witness: "\<exists>p'. some_step\<^sup>*\<^sup>* ex_closed p' \<and> gp_phase p' = Exited None"
  using shutdown_terminates [OF ex_closed_run] by (simp add: ex_closed_def)

text \<open>Two ways to lose records. The recorder may take a tick, or a full batch, after the cancellation and before it sees it: the batch
  is inserted with a cancelled context, which the database refuses, although \<open>run\<close> returns nil.\<close>

lemma late_batch: "gateway_run [ex_record] (ex_exit [[ex_record\<lparr>ur_ID := ''u''\<rparr>]])"
proof (rule ex_drained)
  let ?s = "NewUsageRecorder\<lparr>rc_buf := [ex_record], rc_mode := Running\<rparr>"
  have "rec_step (gp_recorder ex_closed) (flush_rest (\<lambda>_. ''u'') ?s)"
    using step_tick [of ?s] by (simp add: ex_closed_def NewUsageRecorder_def)
  from waiting_recorder [OF ex_closed_run _ _ this]
  show "gateway_run [ex_record] (ex_closed\<lparr>gp_recorder := NewUsageRecorder\<lparr>rc_calls := [[ex_record\<lparr>ur_ID := ''u''\<rparr>]]\<rparr>, gp_late := [[ex_record\<lparr>ur_ID := ''u''\<rparr>]]\<rparr>)"
    unfolding ex_flushed by (simp add: ex_states)
qed (simp_all add: NewUsageRecorder_def flush_rest_def)

text \<open>And when \<open>Shutdown\<close> runs into its timeout, \<open>run\<close> returns without waiting for the recorder.\<close>

lemma shutdown_timeout_drops:
  "\<exists>p. gateway_run [ex_record] p \<and> gp_phase p = Exited (Some DeadlineExceeded) \<and> rc_calls (gp_recorder p) = [] \<and> rc_ch (gp_recorder p) = [ex_record]"
proof -
  from moved [OF ex_recorded signal] have "gateway_run [ex_record] (gateway_ready\<lparr>gp_phase := Closing, gp_active := 1, gp_recorder := NewUsageRecorder\<lparr>rc_ch := [ex_record]\<rparr>\<rparr>)"
    by (simp add: gateway_ready_def)
  from moved [OF this close_fails [of _ DeadlineExceeded]] show ?thesis by (force simp: gateway_ready_def NewUsageRecorder_def)
qed

end
