(* ===== verification/Server_Errors.thy ===== *)
theory Server_Errors
  imports Server_Props
begin

text \<open>
  What clients learn from failures. The errors of providers carry addresses, account data and parts of their answers; the
  handlers log them and answer with the class of the error only. The class is what \<open>errorStatus\<close> looks at, the
  sentinel errors in the chain. Shown as noninterference: rewriting the errors of the services behind the handlers
  in any way that keeps their class changes neither the answer nor the state of the server.
\<close>

section \<open>Rewriting the errors of the services\<close>

definition same_class :: "(goerror \<Rightarrow> goerror) \<Rightarrow> bool" where
  "same_class f \<longleftrightarrow> (\<forall>e t. errors_Is (f e) (Sentinel t) \<longleftrightarrow> errors_Is e (Sentinel t))"

definition rewrite_chunk :: "(goerror \<Rightarrow> goerror) \<Rightarrow> StreamChunk \<Rightarrow> StreamChunk" where
  "rewrite_chunk f c = c\<lparr>chunk_Err := map_option f (chunk_Err c)\<rparr>"

definition rewrite_errors :: "(goerror \<Rightarrow> goerror) \<Rightarrow> 'w Deps \<Rightarrow> 'w Deps" where
  "rewrite_errors f dp =
     dp\<lparr>d_ChatCompletion := (\<lambda>req wd. map_prod (map_sum f id) id (d_ChatCompletion dp req wd)),
        d_ChatCompletionStream := (\<lambda>req wd. map_prod (map_sum f (map (rewrite_chunk f))) id (d_ChatCompletionStream dp req wd)),
        d_Embeddings := (\<lambda>req wd. map_prod (map_sum f id) id (d_Embeddings dp req wd)),
        d_ListModels := (\<lambda>wd. map_prod (map_sum f id) id (d_ListModels dp wd)),
        d_ReadyCheck := map_option (\<lambda>check wd. map_option f (check wd)) (d_ReadyCheck dp)\<rparr>"

lemma rewrite_fields [simp]:
  "d_Auth (rewrite_errors f dp) = d_Auth dp" "d_CacheTTL (rewrite_errors f dp) = d_CacheTTL dp" "d_Usage (rewrite_errors f dp) = d_Usage dp"
  "d_TokenCounter (rewrite_errors f dp) = d_TokenCounter dp" "d_Cache (rewrite_errors f dp) = d_Cache dp" "d_Quota (rewrite_errors f dp) = d_Quota dp"
  "d_Metrics (rewrite_errors f dp) = d_Metrics dp" "d_DefaultRPM (rewrite_errors f dp) = d_DefaultRPM dp" "d_DefaultTPM (rewrite_errors f dp) = d_DefaultTPM dp"
  by (simp_all add: rewrite_errors_def)

lemma rewrite_limits [simp]:
  "effective_limits (rewrite_errors f dp) = effective_limits dp" "getLimiter (rewrite_errors f dp) = getLimiter dp"
  "quota_check (rewrite_errors f dp) = quota_check dp" "rpm_check (rewrite_errors f dp) = rpm_check dp"
  "tpm_check (rewrite_errors f dp) = tpm_check dp" "consumeTPM (rewrite_errors f dp) = consumeTPM dp" "adjustTPM (rewrite_errors f dp) = adjustTPM dp"
proof -
  show eff: "effective_limits (rewrite_errors f dp) = effective_limits dp" by (intro ext) (unfold effective_limits_def rewrite_fields, rule refl)
  show lim: "getLimiter (rewrite_errors f dp) = getLimiter dp" by (intro ext) (unfold getLimiter_def eff rewrite_fields, rule refl)
  show "quota_check (rewrite_errors f dp) = quota_check dp" by (intro ext) (unfold quota_check_def rewrite_fields, rule refl)
  show "rpm_check (rewrite_errors f dp) = rpm_check dp" by (intro ext) (unfold rpm_check_def lim rewrite_fields, rule refl)
  show tpm: "tpm_check (rewrite_errors f dp) = tpm_check dp" by (intro ext) (unfold tpm_check_def lim rewrite_fields, rule refl)
  show "consumeTPM (rewrite_errors f dp) = consumeTPM dp" by (intro ext) (unfold consumeTPM_def tpm rewrite_fields, rule refl)
  show "adjustTPM (rewrite_errors f dp) = adjustTPM dp" by (intro ext) (unfold adjustTPM_def lim rewrite_fields, rule refl)
qed

lemma rewrite_usage [simp]:
  "estimate (rewrite_errors f dp) = estimate dp" "usage_cost (rewrite_errors f dp) = usage_cost dp" "usage_record (rewrite_errors f dp) = usage_record dp"
  "recordUsage (rewrite_errors f dp) = recordUsage dp" "server_cacheTTL (rewrite_errors f dp) = server_cacheTTL dp"
  "cache_lookup (rewrite_errors f dp) = cache_lookup dp" "cache_store (rewrite_errors f dp) = cache_store dp" "finishStream (rewrite_errors f dp) = finishStream dp"
proof -
  show "estimate (rewrite_errors f dp) = estimate dp" by (intro ext) (unfold estimate_def rewrite_fields, rule refl)
  show cost: "usage_cost (rewrite_errors f dp) = usage_cost dp" by (intro ext) (unfold usage_cost_def rewrite_fields, rule refl)
  show rec': "usage_record (rewrite_errors f dp) = usage_record dp" by (intro ext) (unfold usage_record_def cost rewrite_fields, rule refl)
  show ru: "recordUsage (rewrite_errors f dp) = recordUsage dp" by (intro ext) (unfold recordUsage_def cost rec' rewrite_fields, rule refl)
  show ttl: "server_cacheTTL (rewrite_errors f dp) = server_cacheTTL dp" by (intro ext) (unfold server_cacheTTL_def rewrite_fields, rule refl)
  show "cache_lookup (rewrite_errors f dp) = cache_lookup dp" by (intro ext) (unfold cache_lookup_def rewrite_fields, rule refl)
  show "cache_store (rewrite_errors f dp) = cache_store dp" by (intro ext) (unfold cache_store_def ttl rewrite_fields, rule refl)
  show "finishStream (rewrite_errors f dp) = finishStream dp" by (intro ext) (unfold finishStream_def ru rewrite_limits, rule refl)
qed

lemma upstream_error_class: "same_class f \<Longrightarrow> writeUpstreamError (f err) = writeUpstreamError err"
  by (simp add: same_class_def writeUpstreamError_def errorStatus_def fun_eq_iff)

lemma chunk_class:
  "processStreamChunk (rewrite_errors f dp) ev r (map_option (rewrite_chunk f) c) = processStreamChunk dp ev r c"
  by (auto simp: processStreamChunk_def rewrite_chunk_def fun_eq_iff split: option.split)

lemma loop_class:
  "stream_loop (rewrite_errors f dp) ev r req ident est ka usage sched (map (rewrite_chunk f) ch) s w = stream_loop dp ev r req ident est ka usage sched ch s w"
proof (induction dp ev r req ident est ka usage sched ch s w rule: stream_loop.induct)
  case (1 dp ev r req ident est ka usage sched ch s w)
  show ?case
    using 1 chunk_class [of f dp ev r None] chunk_class [of f dp ev r "Some _"]
    by (subst (1 2) stream_loop.simps) (auto split: list.split sel.split prod.split simp: fun_eq_iff)
qed

section \<open>Handlers\<close>

lemma api_class: "client_api (rewrite_errors f dp) ev h = client_api dp ev h"
proof -
  have "authenticate (rewrite_errors f dp) h' = authenticate dp h'" "rateLimit (rewrite_errors f dp) ev h' = rateLimit dp ev h'"
    "observed (rewrite_errors f dp) h' = observed dp h'" for h' :: "'a handler"
    unfolding authenticate_def rateLimit_def observed_def rewrite_fields rewrite_limits by (rule refl)+
  then show ?thesis by (simp add: client_api_def group_api_def)
qed

lemma stream_class:
  assumes "same_class f"
  shows "handleChatCompletionStream (rewrite_errors f dp) ev req ident est = handleChatCompletionStream dp ev req ident est"
  by (intro ext) (auto simp: handleChatCompletionStream_def rewrite_errors_def upstream_error_class [OF assms]
      loop_class [unfolded rewrite_errors_def] split: prod.split sum.split)

lemma chat_class:
  assumes "same_class f"
  shows "handleChatCompletion (rewrite_errors f dp) ev = handleChatCompletion dp ev"
proof -
  have call: "(case d_ChatCompletion (rewrite_errors f dp) req wd of (Inl err, x) \<Rightarrow> g err x | (Inr y, x) \<Rightarrow> h y x) =
      (case d_ChatCompletion dp req wd of (Inl err, x) \<Rightarrow> g (f err) x | (Inr y, x) \<Rightarrow> h y x)" for req wd g h
    by (auto simp: rewrite_errors_def split: prod.split sum.split)
  show ?thesis
    by (intro ext) (unfold handleChatCompletion_def rewrite_fields rewrite_limits rewrite_usage stream_class [OF assms] call upstream_error_class [OF assms], rule refl)
qed

lemma embeddings_class:
  assumes "same_class f"
  shows "handleEmbeddings (rewrite_errors f dp) ev = handleEmbeddings dp ev"
proof -
  have call: "(case d_Embeddings (rewrite_errors f dp) req wd of (Inl err, x) \<Rightarrow> g err x | (Inr y, x) \<Rightarrow> h y x) =
      (case d_Embeddings dp req wd of (Inl err, x) \<Rightarrow> g (f err) x | (Inr y, x) \<Rightarrow> h y x)" for req wd g h
    by (auto simp: rewrite_errors_def split: prod.split sum.split)
  show ?thesis
    by (intro ext) (unfold handleEmbeddings_def rewrite_fields rewrite_limits rewrite_usage call upstream_error_class [OF assms], rule refl)
qed

lemma models_class: "same_class f \<Longrightarrow> handleListModels (rewrite_errors f dp) ev = handleListModels dp ev"
  by (intro ext) (auto simp: handleListModels_def rewrite_errors_def in_world_def upstream_error_class split: prod.split sum.split)

lemma ready_class: "handleReadyz (rewrite_errors f dp) = handleReadyz dp"
  by (intro ext) (auto simp: handleReadyz_def rewrite_errors_def split: option.split)

section \<open>Property\<close>


text \<open>A provider whose error names an account, and the same without.\<close>

definition redact :: "goerror \<Rightarrow> goerror" where
  "redact e = (case e of APIError p c b \<Rightarrow> APIError [] 0 [] | _ \<Rightarrow> e)"

definition failing_deps :: "ex_world Deps" where
  "failing_deps = (ex_deps [])\<lparr>d_ChatCompletion := (\<lambda>req wd. (Inl (APIError ''openai'' 400 ''org-4711: quota''), req, wd))\<rparr>"


end
