(* ===== verification/Json_Typed.thy ===== *)
theory Json_Typed
  imports Wire
begin

text \<open>
  The type of what \<open>Unmarshal\<close> delivers. Whatever the bytes of a text, a string that is read from it is valid UTF-8 (the reader
  puts the replacement character where the text has none), a number is a JSON number, and the raw text of a value is
  itself a JSON text that reads as this value. So a decoded message can be encoded again, its strings meet what
  the stores and the round trips ask for, and its integers fit into 64 bits.

  The reader looks ahead only as far as the value goes: replacing what follows a value does not change how it is read.
\<close>

section \<open>Strings\<close>

lemma utf8_valid_append:
  assumes "utf8_len (a @ y) = length a" "a \<noteq> []" "utf8_valid y"
  shows "utf8_valid (a @ y)"
  using assms by (subst utf8_valid.simps) simp

lemma utf8_valid_Nil [simp]: "utf8_valid []"
  by (subst utf8_valid.simps) simp

lemma utf8_len_encode:
  assumes "r < 0x110000" "\<not> is_surrogate r"
  shows "utf8_len (utf8_encode r @ y) = length (utf8_encode r)"
proof -
  have d: "r div 0x40 mod 0x40 < 0x40" "r mod 0x40 < 0x40" "r div 0x1000 mod 0x40 < 0x40" by simp_all
  consider "r < 0x80" | "0x80 \<le> r" "r < 0x800" | "0x800 \<le> r" "r < 0x10000" | "0x10000 \<le> r" by linarith
  then show ?thesis
  proof cases
    case 2
    then have "2 \<le> r div 0x40" "r div 0x40 < 0x20" by auto
    with 2 d show ?thesis by (simp add: utf8_len_def utf8_encode_def utf8_ranges_def is_cont_def)
  next
    case 3
    then have "r div 0x1000 < 0x10" "r div 0x1000 = 0 \<longrightarrow> 0x20 \<le> r div 0x40 mod 0x40" by auto
    moreover have "r div 0x40 mod 0x40 < 0x20" if "r div 0x1000 = 0xD"
    proof -
      have "r < 0xD800" using assms(2) that by (auto simp: is_surrogate_def)
      then have "r div 0x40 < 0x360" by auto
      moreover have "r div 0x40 div 0x40 = 0xD" using that by (simp add: div_mult2_eq [symmetric])
      ultimately show ?thesis using div_mult_mod_eq [of "r div 0x40" "0x40"] by linarith
    qed
    ultimately show ?thesis using 3 d by (auto simp: utf8_len_def utf8_encode_def utf8_ranges_def is_cont_def)
  next
    case 4
    then have "r div 0x40000 < 5" "r div 0x40000 = 0 \<longrightarrow> 0x10 \<le> r div 0x1000 mod 0x40" using assms(1) by auto
    moreover have "r div 0x1000 mod 0x40 < 0x10" if "r div 0x40000 = 4"
    proof -
      have "r div 0x1000 < 0x110" using assms(1) by auto
      moreover have "r div 0x1000 div 0x40 = 4" using that by (simp add: div_mult2_eq [symmetric])
      ultimately show ?thesis using div_mult_mod_eq [of "r div 0x1000" "0x40"] by linarith
    qed
    ultimately show ?thesis using 4 d by (auto simp: utf8_len_def utf8_encode_def utf8_ranges_def is_cont_def)
  qed (simp add: utf8_len_def utf8_encode_def utf8_ranges_def)
qed

lemma utf8_encode_nonempty: "utf8_encode r \<noteq> []"
  by (simp add: utf8_encode_def)

text \<open>A well-formed sequence: its length does not depend on what follows it.\<close>

definition utf8_unit :: "bytes \<Rightarrow> bool" where
  "utf8_unit u \<longleftrightarrow> u \<noteq> [] \<and> (\<forall>z. utf8_len (u @ z) = length u)"

lemma unit_encode: "r < 0x110000 \<Longrightarrow> \<not> is_surrogate r \<Longrightarrow> utf8_unit (utf8_encode r)"
  by (simp add: utf8_unit_def utf8_encode_nonempty utf8_len_encode)

lemma unit_rune_error: "utf8_unit rune_error"
  unfolding rune_error_def by (rule unit_encode) (simp_all add: is_surrogate_def)

lemma unit_take: "utf8_len s \<noteq> 0 \<Longrightarrow> utf8_unit (take (utf8_len s) s)"
  using utf8_len_le [of s] by (auto simp: utf8_unit_def utf8_len_take)

lemma unit_valid: "utf8_unit u \<Longrightarrow> utf8_valid y \<Longrightarrow> utf8_valid (u @ y)"
  by (rule utf8_valid_append) (auto simp: utf8_unit_def)

lemma unit_ascii: "byte c < 0x80 \<Longrightarrow> utf8_unit [c]"
  by (simp add: utf8_unit_def utf8_len_def utf8_ranges_def)

lemma simple_escape_ascii: "simple_escape d = Some c \<Longrightarrow> byte c < 0x80"
  by (auto simp: simple_escape_def byte_def split: if_splits)

lemma hex_val_less: "hex_val c = Some k \<Longrightarrow> k < 16"
  by (auto simp: hex_val_def Let_def split: if_splits)

lemma hex4_local:
  assumes "hex4 s = Some (r, rest)"
  shows "\<exists>p. s = p @ rest \<and> (\<forall>z. hex4 (p @ z) = Some (r, z)) \<and> r < 0x10000"
proof -
  obtain a b c d w x y z where s: "s = [a, b, c, d] @ rest"
      and v: "hex_val a = Some w" "hex_val b = Some x" "hex_val c = Some y" "hex_val d = Some z"
      and r: "r = ((w * 16 + x) * 16 + y) * 16 + z"
    using assms by (auto simp: hex4_def split: list.splits option.splits)
  have "w \<le> 15 \<and> x \<le> 15 \<and> y \<le> 15 \<and> z \<le> 15" using v [THEN hex_val_less] by simp
  then have "r < 0x10000" unfolding r by (simp add: add_mult_distrib)
  with s v r show ?thesis by (intro exI [of _ "[a, b, c, d]"]) (simp add: hex4_def)
qed

text \<open>The closing quote ends every sequence, so what follows the string does not complete one.\<close>

lemma utf8_len_local:
  assumes "ch_quote \<in> set t"
  shows "utf8_len (c # t @ r) = utf8_len (c # t @ r')"
proof -
  have "\<not> list_all2 is_cont rs (take (length rs) (t @ z))" if "utf8_ranges (byte c) = Some rs" "length t < length rs" for rs z
  proof
    assume "list_all2 is_cont rs (take (length rs) (t @ z))"
    moreover have "ch_quote \<in> set (take (length rs) (t @ z))" using assms that(2) by simp
    ultimately obtain q where "q \<in> set rs" "is_cont q ch_quote" by (metis in_set_conv_nth list_all2_conv_all_nth)
    then show False using that(1) by (auto simp: utf8_ranges_def is_cont_def byte_def split: if_splits)
  qed
  then have "list_all2 is_cont rs (take (length rs) (t @ r)) = list_all2 is_cont rs (take (length rs) (t @ r'))"
    if "utf8_ranges (byte c) = Some rs" for rs
    using that by (cases "length t < length rs") simp_all
  then show ?thesis by (simp add: utf8_len_def split: option.split del: take_append)
qed

lemma unicode_escape_cases:
  assumes "unicode_escape s = Some (y, s2)" "hex4 s = Some (r, s1)"
  shows "(\<not> is_surrogate r \<and> y = utf8_encode r \<and> s2 = s1) \<or> (is_surrogate r \<and> y = rune_error \<and> s2 = s1) \<or>
    (\<exists>u r2. is_surrogate r \<and> s1 = ch_backslash # CHR ''u'' # u \<and> hex4 u = Some (r2, s2) \<and> r < 0xDC00 \<and> 0xDC00 \<le> r2 \<and> r2 < 0xE000 \<and>
       y = utf8_encode (0x10000 + (r - 0xD800) * 0x400 + (r2 - 0xDC00)))"
  using assms by (simp add: unicode_escape_def split: if_splits list.splits option.splits prod.splits)

lemma unicode_escape_local:
  assumes "unicode_escape s = Some (y, t @ rest)" "parse_str t = Some (x, [])"
  shows "utf8_unit y \<and> (\<exists>p. s = p @ t @ rest \<and> (\<forall>r. unicode_escape (p @ t @ r) = Some (y, t @ r)))"
proof -
  obtain r0 s1 where h: "hex4 s = Some (r0, s1)" using assms(1) by (auto simp: unicode_escape_def split: option.splits)
  then obtain p where p: "s = p @ s1" "\<And>z. hex4 (p @ z) = Some (r0, z)" "r0 < 0x10000" using hex4_local by blast
  have bmp: "?thesis" if "\<not> is_surrogate r0"
    using that assms(1) h p by (auto simp: unicode_escape_def intro: unit_encode)
  have alone: "?thesis" if "y = rune_error" "s1 = t @ rest" "is_surrogate r0"
  proof -
    note alone = that
    have keep: "unicode_escape (p @ t @ r) = Some (rune_error, t @ r)" for r
    proof (cases "\<exists>u. t = ch_backslash # CHR ''u'' # u")
      case True
      then obtain u where u: "t = ch_backslash # CHR ''u'' # u" by blast
      then obtain r2 u2 where "hex4 u = Some (r2, u2)" using assms(2) by (auto simp: unicode_escape_def split: option.splits)
      then obtain q where q: "u = q @ u2" "\<And>z. hex4 (q @ z) = Some (r2, z)" using hex4_local by blast
      have "\<not> (r0 < 0xDC00 \<and> 0xDC00 \<le> r2 \<and> r2 < 0xE000)"
        using assms(1) h alone u q by (auto simp: unicode_escape_def split: if_splits dest: arg_cong [of _ _ length])
      then show ?thesis using p(2) alone(3) u q by (auto simp: unicode_escape_def)
    next
      case False
      obtain c cs where c: "t = c # cs" using assms(2) by (cases t) auto
      with assms(2) have "cs = [] \<longrightarrow> c \<noteq> ch_backslash" by auto
      with False c p(2) alone(3) show ?thesis by (cases cs) (auto simp: unicode_escape_def split: list.split)
    qed
    show ?thesis using keep p(1) alone unit_rune_error by blast
  qed
  have pair: "?thesis" if "is_surrogate r0" "s1 = ch_backslash # CHR ''u'' # u" "hex4 u = Some (r2, t @ rest)" "r0 < 0xDC00" "0xDC00 \<le> r2"
      "r2 < 0xE000" "y = utf8_encode (0x10000 + (r0 - 0xD800) * 0x400 + (r2 - 0xDC00))" for u r2
  proof -
    note pair = that
    obtain q where q: "u = q @ t @ rest" "\<And>z. hex4 (q @ z) = Some (r2, z)" using hex4_local [OF pair(3)] by blast
    have "utf8_unit y" unfolding pair(7) using pair by (intro unit_encode) (auto simp: is_surrogate_def)
    with p q pair show ?thesis by (intro conjI exI [of _ "p @ ch_backslash # CHR ''u'' # q"]) (simp_all add: unicode_escape_def)
  qed
  from unicode_escape_cases [OF assms(1) h] show ?thesis using bmp alone pair by metis
qed


text \<open>How a string is read: the text up to its closing quote, which is all the reader looks at.\<close>

definition str_reads :: "bytes \<Rightarrow> string \<Rightarrow> bool" where
  "str_reads t x \<longleftrightarrow> (\<forall>r. parse_str (t @ r) = Some (x, r)) \<and> ch_quote \<in> set t \<and> utf8_valid x"

lemma str_reads_quote: "str_reads [ch_quote] []"
  by (simp add: str_reads_def)

lemma str_reads_unicode:
  assumes "unicode_escape s = Some (y, t @ rest)" "str_reads t x"
  shows "\<exists>p. s = p @ t @ rest \<and> str_reads (ch_backslash # CHR ''u'' # p @ t) (y @ x)"
proof -
  have "parse_str t = Some (x, [])" using assms(2) by (metis str_reads_def append_Nil2)
  from unicode_escape_local [OF assms(1) this] assms(2) show ?thesis by (auto simp: str_reads_def unit_valid)
qed

lemma str_reads_simple:
  "simple_escape d = Some c \<Longrightarrow> d \<noteq> CHR ''u'' \<Longrightarrow> str_reads t x \<Longrightarrow> str_reads (ch_backslash # d # t) (c # x)"
  using unit_valid [OF unit_ascii [OF simple_escape_ascii], of d c x] by (simp add: str_reads_def)

lemma str_reads_bad:
  assumes "str_reads t x" "utf8_len (c # t @ rest) = 0" "c \<noteq> ch_quote" "c \<noteq> ch_backslash" "\<not> byte c < 0x20"
  shows "str_reads (c # t) (rune_error @ x)"
proof -
  have "utf8_len (c # t @ r) = 0" for r using utf8_len_local [of t c r rest] assms(1,2) by (simp add: str_reads_def)
  with assms show ?thesis by (simp add: str_reads_def parse_str_raw unit_valid [OF unit_rune_error])
qed

lemma str_reads_unit:
  assumes "str_reads t x" "utf8_unit (c # u)" "c \<noteq> ch_quote" "c \<noteq> ch_backslash" "\<not> byte c < 0x20"
  shows "str_reads (c # u @ t) (c # u @ x)"
proof -
  have "utf8_len (c # u @ z) = Suc (length u)" for z using assms(2) by (simp add: utf8_unit_def)
  with assms unit_valid [OF assms(2)] show ?thesis by (simp add: str_reads_def parse_str_raw)
qed

lemma str_reads_raw:
  assumes "parse_str (c # cs) = Some (x, rest)" and c: "c \<noteq> ch_quote" "c \<noteq> ch_backslash"
    and IH: "\<And>z y. parse_str z = Some (y, rest) \<Longrightarrow> length z \<le> length cs \<Longrightarrow> \<exists>t. z = t @ rest \<and> str_reads t y"
  shows "\<exists>t. c # cs = t @ rest \<and> str_reads t x"
proof (cases "utf8_len (c # cs) = 0")
  case True
  with assms(1) c obtain z where z: "parse_str cs = Some (z, rest)" "x = rune_error @ z" "\<not> byte c < 0x20"
    by (auto simp: parse_str_raw split: if_splits)
  then obtain t where "cs = t @ rest" "str_reads t z" using IH by blast
  with str_reads_bad [of t z c rest] True c z show ?thesis by (intro exI [of _ "c # t"]) simp
next
  case False
  define n where "n = utf8_len (c # cs) - 1"
  have n: "utf8_len (c # cs) = Suc n" using False by (simp add: n_def)
  with assms(1) c obtain z where z: "parse_str (drop n cs) = Some (z, rest)" "x = c # take n cs @ z" "\<not> byte c < 0x20"
    by (auto simp: parse_str_raw split: if_splits)
  then obtain t where t: "drop n cs = t @ rest" "str_reads t z" using IH by fastforce
  have "c # cs = (c # take n cs @ t) @ rest" using append_take_drop_id [of n cs] t(1) by simp
  moreover have "str_reads (c # take n cs @ t) x" using str_reads_unit [OF t(2), of c "take n cs"] unit_take [OF False] n c z by simp
  ultimately show ?thesis by blast
qed

lemma parse_str_reads: "parse_str s = Some (x, rest) \<Longrightarrow> \<exists>t. s = t @ rest \<and> str_reads t x"
proof (induction "length s" arbitrary: s x rule: less_induct)
  case less
  then obtain c cs where s: "s = c # cs" by (cases s) auto
  have IH: "\<exists>t. z = t @ rest \<and> str_reads t y" if "parse_str z = Some (y, rest)" "length z < length s" for z y
    using less.hyps that by blast
  consider "c = ch_quote" | ds where "c = ch_backslash" "cs = CHR ''u'' # ds" | d ds where "c = ch_backslash" "cs = d # ds" "d \<noteq> CHR ''u''"
    | "c \<noteq> ch_quote" "c \<noteq> ch_backslash" using less.prems s by (cases "c = ch_backslash"; cases cs) auto
  then show ?case
  proof cases
    case 1
    with less.prems s str_reads_quote show ?thesis by auto
  next
    case 2
    with less.prems s obtain y u z where u: "unicode_escape ds = Some (y, u)" "parse_str u = Some (z, rest)" "x = y @ z"
      by (auto split: option.splits)
    then obtain t where "u = t @ rest" "str_reads t z" using IH [of u z] unicode_escape_length [OF u(1)] s 2 by auto
    with str_reads_unicode [of ds y t rest z] u s 2 show ?thesis by (metis append_Cons append_assoc)
  next
    case 3
    with less.prems s obtain e z where "simple_escape d = Some e" "parse_str ds = Some (z, rest)" "x = e # z"
      by (auto split: option.splits)
    moreover from this obtain t where "ds = t @ rest" "str_reads t z" using IH [of ds z] s 3 by auto
    ultimately show ?thesis using str_reads_simple [of d e t z] s 3 by (intro exI [of _ "ch_backslash # d # t"]) simp
  next
    case 4
    with str_reads_raw [of c cs x rest] less.prems IH s show ?thesis by simp
  qed
qed


section \<open>Numbers and literals\<close>

definition digits_end :: "bytes \<Rightarrow> bool" where
  "digits_end z \<longleftrightarrow> (case z of [] \<Rightarrow> True | c # _ \<Rightarrow> \<not> is_digit c)"

lemma scan_digits_local:
  assumes "scan_digits s = Some (a, r)"
  shows "s = a @ r" "digits_end z \<Longrightarrow> scan_digits (a @ z) = Some (a, z)"
proof -
  from assms have a: "a = takeWhile is_digit s" "r = dropWhile is_digit s" "a \<noteq> []" by (auto simp: scan_digits_def split: if_splits)
  then show "s = a @ r" by simp
  have d: "\<forall>c \<in> set a. is_digit c" using a by (auto dest: set_takeWhileD)
  assume "digits_end z"
  then have "takeWhile is_digit z = []" "dropWhile is_digit z = z" by (auto simp: digits_end_def split: list.splits)
  with a(3) d show "scan_digits (a @ z) = Some (a, z)" by (simp add: scan_digits_def takeWhile_append2 dropWhile_append2)
qed

lemma hd_takeWhile: "takeWhile P s \<noteq> [] \<Longrightarrow> P (hd (takeWhile P s))"
  by (cases s) (auto split: if_splits)

lemma scan_digits_head: "scan_digits s = Some (a, r) \<Longrightarrow> \<exists>c cs. s = c # cs \<and> is_digit c"
  by (cases s) (auto simp: scan_digits_def split: if_splits)

lemma digit_not:
  "\<not> is_digit (CHR ''.'')" "\<not> is_digit (CHR ''e'')" "\<not> is_digit (CHR ''E'')" "\<not> is_digit (CHR ''+'')" "\<not> is_digit (CHR ''-'')"
  by (simp_all add: is_digit_def byte_def)

lemma scan_int_local:
  assumes "scan_int s = Some (a, r)"
  shows "s = a @ r" "digits_end z \<Longrightarrow> scan_int (a @ z) = Some (a, z)"
proof -
  obtain c cs where s: "s = c # cs" using assms by (cases s) (auto simp: scan_int_def)
  show "s = a @ r" using assms s scan_digits_local(1) by (auto simp: scan_int_def split: if_splits)
  show "scan_int (a @ z) = Some (a, z)" if "digits_end z"
  proof (cases "c = CHR ''0''")
    case False
    with assms s have d: "scan_digits s = Some (a, r)" by (simp add: scan_int_def)
    then have "a @ r = c # cs" "a \<noteq> []" using scan_digits_local(1) [OF d] s by (auto simp: scan_digits_def split: if_splits)
    then obtain a' where "a = c # a'" by (cases a) auto
    with False scan_digits_local(2) [OF d that] show ?thesis by (simp add: scan_int_def)
  qed (use assms s in \<open>auto simp: scan_int_def\<close>)
qed

lemma scan_frac_local:
  assumes "scan_frac s = Some (a, r)"
  shows "s = a @ r" "digits_end z \<Longrightarrow> \<not> strings_HasPrefix z ''.'' \<Longrightarrow> scan_frac (a @ z) = Some (a, z)" "digits_end z \<Longrightarrow> digits_end (a @ z)"
proof -
  consider "a = []" "r = s" | cs x where "s = CHR ''.'' # cs" "scan_digits cs = Some (x, r)" "a = CHR ''.'' # x"
    using assms by (cases s) (auto simp: scan_frac_def split: if_splits)
  then have "s = a @ r \<and> (digits_end z \<longrightarrow> digits_end (a @ z) \<and> (\<not> strings_HasPrefix z ''.'' \<longrightarrow> scan_frac (a @ z) = Some (a, z)))"
  proof cases
    case 1
    then show ?thesis by (cases z) (auto simp: scan_frac_def strings_HasPrefix_def)
  next
    case 2
    with scan_digits_local(1) [OF 2(2)] scan_digits_local(2) [OF 2(2), of z] show ?thesis by (simp add: scan_frac_def digits_end_def digit_not)
  qed
  then show "s = a @ r" "digits_end z \<Longrightarrow> \<not> strings_HasPrefix z ''.'' \<Longrightarrow> scan_frac (a @ z) = Some (a, z)" "digits_end z \<Longrightarrow> digits_end (a @ z)"
    by simp_all
qed

definition exp_char :: "char \<Rightarrow> bool" where
  "exp_char c \<longleftrightarrow> c = CHR ''e'' \<or> c = CHR ''E''"

definition sign_char :: "char \<Rightarrow> bool" where
  "sign_char c \<longleftrightarrow> c = CHR ''+'' \<or> c = CHR ''-''"

lemma exp_sign_char:
  "exp_char c \<Longrightarrow> \<not> is_digit c" "sign_char c \<Longrightarrow> \<not> is_digit c" "exp_char c \<Longrightarrow> c \<noteq> CHR ''.''" "\<not> num_char c \<Longrightarrow> \<not> exp_char c"
  "\<not> num_char c \<Longrightarrow> \<not> is_digit c" "\<not> num_char c \<Longrightarrow> c \<noteq> CHR ''.''"
  by (auto simp: exp_char_def sign_char_def num_char_def digit_not)

lemma scan_exp_simps:
  "scan_exp [] = Some ([], [])"
  "\<not> exp_char c \<Longrightarrow> scan_exp (c # cs) = Some ([], c # cs)"
  "exp_char c \<Longrightarrow> scan_exp [c] = None"
  "exp_char c \<Longrightarrow> sign_char d \<Longrightarrow> scan_exp (c # d # ds) = map_option (\<lambda>(x, r). (c # d # x, r)) (scan_digits ds)"
  "exp_char c \<Longrightarrow> \<not> sign_char d \<Longrightarrow> scan_exp (c # d # ds) = map_option (\<lambda>(x, r). (c # x, r)) (scan_digits (d # ds))"
  by (simp_all add: scan_exp_def exp_char_def sign_char_def)

lemma scan_exp_local:
  assumes "scan_exp s = Some (a, r)" "num_end z"
  shows "s = a @ r \<and> scan_exp (a @ z) = Some (a, z) \<and> digits_end (a @ z) \<and> \<not> strings_HasPrefix (a @ z) ''.''"
proof -
  have z: "digits_end z" using assms(2) by (cases z) (simp_all add: digits_end_def exp_sign_char)
  consider "s = []" | c cs where "s = c # cs" "\<not> exp_char c" | c d ds where "s = c # d # ds" "exp_char c" "sign_char d"
    | c d ds where "s = c # d # ds" "exp_char c" "\<not> sign_char d"
    using assms(1) scan_exp_simps(3) by (metis list.exhaust option.distinct(1))
  then show ?thesis
  proof cases
    case (3 c d ds)
    then obtain x where x: "scan_digits ds = Some (x, r)" "a = c # d # x" using assms(1) by (auto simp: scan_exp_simps)
    from scan_digits_local(1) [OF x(1)] scan_digits_local(2) [OF x(1) z] 3 x(2) show ?thesis
      by (simp add: scan_exp_simps digits_end_def exp_sign_char strings_HasPrefix_def)
  next
    case (4 c d ds)
    then obtain x where x: "scan_digits (d # ds) = Some (x, r)" "a = c # x" using assms(1) by (auto simp: scan_exp_simps)
    have "x \<noteq> []" using x(1) by (auto simp: scan_digits_def split: if_splits)
    then obtain ys where "x = d # ys" using scan_digits_local(1) [OF x(1)] by (cases x) simp_all
    with scan_digits_local(1) [OF x(1)] scan_digits_local(2) [OF x(1) z] 4 x(2) show ?thesis
      by (simp add: scan_exp_simps digits_end_def exp_sign_char strings_HasPrefix_def)
  qed (use assms z in \<open>cases z; simp add: scan_exp_simps exp_sign_char strings_HasPrefix_def\<close>)+
qed

lemma scan_unsigned_local:
  assumes "scan_unsigned s = Some (a, r)" "num_end z"
  shows "s = a @ r" "scan_unsigned (a @ z) = Some (a, z)"
proof -
  obtain i s1 f s2 e where p: "scan_int s = Some (i, s1)" "scan_frac s1 = Some (f, s2)" "scan_exp s2 = Some (e, r)" "a = i @ f @ e"
    using assms(1) by (auto simp: scan_unsigned_def split: option.splits)
  have e: "s2 = e @ r" "scan_exp (e @ z) = Some (e, z)" "digits_end (e @ z)" "\<not> strings_HasPrefix (e @ z) ''.''"
    using scan_exp_local [OF p(3) assms(2)] by simp_all
  note f = scan_frac_local [OF p(2)] and i = scan_int_local [OF p(1)]
  show "s = a @ r" using e(1) f(1) i(1) p(4) by simp
  show "scan_unsigned (a @ z) = Some (a, z)"
    using e(2) f(2) [OF e(3,4)] i(2) [OF f(3) [OF e(3)]] p(4) by (simp add: scan_unsigned_def)
qed

lemma scan_number_local:
  assumes "scan_number s = Some (a, r)"
  shows "s = a @ r" "number_ok a"
proof -
  have u: "x = b @ q \<and> scan_unsigned b = Some (b, []) \<and> \<not> strings_HasPrefix b ''-''" if "scan_unsigned x = Some (b, q)" for x b q
    using scan_unsigned_local [OF that, of "[]"] scan_digits_head [of b]
    by (auto simp: scan_unsigned_def scan_int_def strings_HasPrefix_def digit_not split: list.splits option.splits if_splits)
  obtain c cs where s: "s = c # cs" using assms by (cases s) (auto simp: scan_number_def)
  have "s = a @ r \<and> number_ok a"
  proof (cases "c = CHR ''-''")
    case True
    with assms s obtain b where "scan_unsigned cs = Some (b, r)" "a = c # b" by (auto simp: scan_number_def)
    with u s True show ?thesis by (auto simp: number_ok_def scan_number_def)
  next
    case False
    with assms s have "scan_unsigned s = Some (a, r)" by (simp add: scan_number_def)
    from u [OF this] show ?thesis by (cases a) (auto simp: number_ok_def scan_number_def scan_unsigned_def scan_int_def strings_HasPrefix_def)
  qed
  then show "s = a @ r" "number_ok a" by simp_all
qed


section \<open>Values\<close>

fun jval_typed :: "jval \<Rightarrow> bool" and jnode_typed :: "json \<Rightarrow> bool" where
  "jval_typed (JV raw x) = (json_parse raw = Some (JV raw x) \<and> jnode_typed x)"
| "jnode_typed (JNum a) = number_ok a"
| "jnode_typed (JStr x) = utf8_valid x"
| "jnode_typed (JArr vs) = (\<forall>v \<in> set vs. jval_typed v)"
| "jnode_typed (JObj kvs) = (\<forall>(k, v) \<in> set kvs. utf8_valid k \<and> jval_typed v)"
| "jnode_typed _ = True"

lemma scan_literal_local:
  assumes "scan_literal s = Some (x, rest)"
  shows "\<exists>t. s = t @ rest \<and> (\<forall>r. num_end r \<longrightarrow> scan_literal (t @ r) = Some (x, r)) \<and> t \<noteq> [] \<and> jnode_typed x"
proof -
  have lit: "scan_literal (''null'' @ r) = Some (JNull, r)" "scan_literal (''true'' @ r) = Some (JBool True, r)"
      "scan_literal (''false'' @ r) = Some (JBool False, r)" for r
    by (simp_all add: scan_literal_def strings_HasPrefix_def)
  have pre: "strings_HasPrefix s p \<Longrightarrow> s = p @ drop (length p) s" for p
    by (metis append_take_drop_id strings_HasPrefix_def)
  consider p where "p \<in> {''null'', ''true'', ''false''}" "strings_HasPrefix s p" | a where "scan_number s = Some (a, rest)" "x = JNum a"
    using assms by (auto simp: scan_literal_def split: if_splits)
  then show ?thesis
  proof cases
    case 1
    then have "s = p @ rest" using pre [of p] assms lit by (metis Pair_inject empty_iff insert_iff option.inject)
    with 1(1) assms lit show ?thesis by (intro exI [of _ p]) auto
  next
    case 2
    note a = scan_number_local [OF 2(1)]
    have "a \<noteq> []" using number_head [OF a(2)] by blast
    with a scan_literal_number [OF a(2)] 2(2) show ?thesis by (intro exI [of _ a]) simp
  qed
qed

definition ws :: "bytes \<Rightarrow> bool" where
  "ws w \<longleftrightarrow> list_all is_ws w"

lemma skip_ws_split: "skip_ws s = c # cs \<Longrightarrow> \<exists>w. ws w \<and> s = w @ c # cs \<and> \<not> is_ws c"
proof (induction s)
  case (Cons d s)
  then show ?case
  proof (cases "is_ws d")
    case True
    with Cons obtain w where "ws w" "s = w @ c # cs" "\<not> is_ws c" by (auto simp: skip_ws_def)
    with True show ?thesis by (intro exI [of _ "d # w"]) (simp add: ws_def)
  qed (auto simp: skip_ws_def ws_def intro: exI [of _ "[]"])
qed (simp add: skip_ws_def)

lemma skip_ws_append [simp]: "ws w \<Longrightarrow> skip_ws (w @ s) = skip_ws s"
  by (induction w) (auto simp: ws_def skip_ws_def)

lemma parse_value_ws: "ws w \<Longrightarrow> parse_value n (w @ s) = parse_value n s"
  by (cases n) (simp_all add: parse_value.simps)

lemma num_end_ws: "ws w \<Longrightarrow> \<not> num_char c \<Longrightarrow> num_end (w @ c # z)"
  by (cases w) (auto simp: ws_def is_ws_def num_char_def is_digit_def byte_def)

text \<open>How values, elements and members are read with at least \<open>n\<close> calls: the same whatever follows.\<close>

definition value_reads :: "nat \<Rightarrow> bytes \<Rightarrow> jval \<Rightarrow> bool" where
  "value_reads n t v \<longleftrightarrow> jraw v = t \<and> skip_ws t = t \<and> t \<noteq> [] \<and> (\<forall>m r. n \<le> m \<longrightarrow> num_end r \<longrightarrow> parse_value m (t @ r) = Some (v, r)) \<and> jval_typed v"

definition elems_reads :: "nat \<Rightarrow> bytes \<Rightarrow> jval list \<Rightarrow> bool" where
  "elems_reads n t vs \<longleftrightarrow> (\<forall>m r. n \<le> m \<longrightarrow> parse_elems m (t @ r) = Some (vs, r)) \<and> (\<forall>v \<in> set vs. jval_typed v)"

definition members_reads :: "nat \<Rightarrow> bytes \<Rightarrow> (string \<times> jval) list \<Rightarrow> bool" where
  "members_reads n t kvs \<longleftrightarrow> (\<forall>m r. n \<le> m \<longrightarrow> parse_members m (t @ r) = Some (kvs, r)) \<and> (\<forall>(k, v) \<in> set kvs. utf8_valid k \<and> jval_typed v)"

text \<open>The value that a node makes: its raw text is the text of the node, and reads as the value.\<close>

lemma value_reads_node:
  assumes "\<And>m r. n \<le> m \<Longrightarrow> num_end r \<Longrightarrow> parse_value m ((c # t) @ r) = Some (JV (c # t) x, r)" "\<not> is_ws c" "jnode_typed x"
  shows "value_reads n (c # t) (JV (c # t) x)"
proof -
  let ?k = "2 * length (c # t) + 2"
  have "parse_value (max n ?k) (c # t) = Some (JV (c # t) x, [])" using assms(1) [of "max n ?k" "[]"] by simp
  moreover have "parse_value (max n ?k) (c # t) = parse_value ?k (c # t)" using parse_fuel [of "max n ?k"] by simp
  ultimately have "parse_value ?k (c # t) = Some (JV (c # t) x, [])" by metis
  then have "json_parse (c # t) = Some (JV (c # t) x)" unfolding json_parse_def by (simp only:) (simp add: skip_ws_def)
  with assms show ?thesis by (simp add: value_reads_def)
qed


text \<open>What \<open>parse_value\<close> does after the first character.\<close>

definition parse_node :: "nat \<Rightarrow> char \<Rightarrow> bytes \<Rightarrow> (json \<times> bytes) option" where
  "parse_node n c cs =
     (if c = CHR ''{'' then
        (case skip_ws cs of
           [] \<Rightarrow> None
         | d # ds \<Rightarrow>
             if d = CHR ''}'' then Some (JObj [], ds)
             else map_option (\<lambda>(kvs, r). (JObj kvs, r)) (parse_members n (d # ds)))
      else if c = CHR ''['' then
        (case skip_ws cs of
           [] \<Rightarrow> None
         | d # ds \<Rightarrow>
             if d = CHR '']'' then Some (JArr [], ds)
             else map_option (\<lambda>(vs, r). (JArr vs, r)) (parse_elems n (d # ds)))
      else if c = ch_quote then map_option (\<lambda>(x, r). (JStr x, r)) (parse_str cs)
      else scan_literal (c # cs))"

definition node_reads :: "nat \<Rightarrow> char \<Rightarrow> bytes \<Rightarrow> json \<Rightarrow> bool" where
  "node_reads n c t x \<longleftrightarrow> (\<forall>m r. n \<le> m \<longrightarrow> num_end r \<longrightarrow> parse_node m c (t @ r) = Some (x, r)) \<and> jnode_typed x"

lemma parse_value_node:
  "\<not> is_ws c \<Longrightarrow> parse_value (Suc n) (c # cs) =
     map_option (\<lambda>(x, rest). (JV (take (length (c # cs) - length rest) (c # cs)) x, rest)) (parse_node n c cs)"
  by (simp add: parse_value.simps parse_node_def Let_def)

lemma node_value:
  assumes "node_reads n c t x" "\<not> is_ws c"
  shows "value_reads (Suc n) (c # t) (JV (c # t) x)"
proof (rule value_reads_node [OF _ assms(2)])
  fix m r
  assume "Suc n \<le> m" "num_end r"
  then obtain k where "m = Suc k" "n \<le> k" by (cases m) auto
  with assms \<open>num_end r\<close> show "parse_value m ((c # t) @ r) = Some (JV (c # t) x, r)"
    by (simp add: parse_value_node node_reads_def)
qed (use assms(1) in \<open>simp add: node_reads_def\<close>)

lemma parse_Nil [simp]: "parse_elems n [] = None" "parse_members n [] = None" "parse_value n [] = None"
proof -
  have "parse_value k [] = None" for k by (cases k) (simp_all add: parse_value.simps skip_ws_def)
  then show "parse_elems n [] = None" "parse_members n [] = None" "parse_value n [] = None"
    by (cases n; simp add: parse_elems.simps parse_members.simps skip_ws_def)+
qed

lemma members_node:
  assumes "members_reads n t kvs" "d # ds = t @ rest" "ws w" "\<not> is_ws d" "d \<noteq> CHR ''}''"
  shows "node_reads n (CHR ''{'') (w @ t) (JObj kvs)"
proof -
  have "parse_members n (t @ []) = Some (kvs, [])" using assms(1) unfolding members_reads_def by blast
  then have "t \<noteq> []" by auto
  then obtain t' where "t = d # t'" using assms(2) by (cases t) auto
  with assms show ?thesis by (simp add: node_reads_def parse_node_def members_reads_def)
qed

lemma elems_node:
  assumes "elems_reads n t vs" "d # ds = t @ rest" "ws w" "\<not> is_ws d" "d \<noteq> CHR '']''"
  shows "node_reads n (CHR ''['') (w @ t) (JArr vs)"
proof -
  have "parse_elems n (t @ []) = Some (vs, [])" using assms(1) unfolding elems_reads_def by blast
  then have "t \<noteq> []" by auto
  then obtain t' where "t = d # t'" using assms(2) by (cases t) auto
  with assms show ?thesis by (simp add: node_reads_def parse_node_def elems_reads_def)
qed

lemma node_step:
  assumes "parse_node n c cs = Some (x, rest)" "\<not> is_ws c"
    and elems: "\<And>s vs. parse_elems n s = Some (vs, rest) \<Longrightarrow> \<exists>t. s = t @ rest \<and> elems_reads n t vs"
    and members: "\<And>s kvs. parse_members n s = Some (kvs, rest) \<Longrightarrow> \<exists>t. s = t @ rest \<and> members_reads n t kvs"
  shows "\<exists>t. cs = t @ rest \<and> node_reads n c t x"
proof -
  consider w where "c = CHR ''{''" "ws w" "cs = w @ CHR ''}'' # rest" "x = JObj []"
    | w d ds kvs where "c = CHR ''{''" "ws w" "cs = w @ d # ds" "\<not> is_ws d" "d \<noteq> CHR ''}''" "parse_members n (d # ds) = Some (kvs, rest)" "x = JObj kvs"
    | w where "c = CHR ''[''" "ws w" "cs = w @ CHR '']'' # rest" "x = JArr []"
    | w d ds vs where "c = CHR ''[''" "ws w" "cs = w @ d # ds" "\<not> is_ws d" "d \<noteq> CHR '']''" "parse_elems n (d # ds) = Some (vs, rest)" "x = JArr vs"
    | y where "c = ch_quote" "parse_str cs = Some (y, rest)" "x = JStr y"
    | "c \<noteq> CHR ''{''" "c \<noteq> CHR ''[''" "c \<noteq> ch_quote" "scan_literal (c # cs) = Some (x, rest)"
    using assms(1) by (auto simp: parse_node_def split: if_splits list.splits dest!: skip_ws_split)
  then show ?thesis
  proof cases
    case 1
    then show ?thesis by (intro exI [of _ "w @ ''}''"]) (simp add: node_reads_def parse_node_def)
  next
    case 2
    from members [OF 2(6)] obtain t where t: "d # ds = t @ rest" "members_reads n t kvs" by blast
    with 2 members_node [OF t(2,1)] show ?thesis by (intro exI [of _ "w @ t"]) simp
  next
    case 3
    then show ?thesis by (intro exI [of _ "w @ '']''"]) (simp add: node_reads_def parse_node_def)
  next
    case 4
    from elems [OF 4(6)] obtain t where t: "d # ds = t @ rest" "elems_reads n t vs" by blast
    with 4 elems_node [OF t(2,1)] show ?thesis by (intro exI [of _ "w @ t"]) simp
  next
    case 5
    from parse_str_reads [OF 5(2)] obtain t where "cs = t @ rest" "str_reads t y" by blast
    with 5 show ?thesis by (intro exI [of _ t]) (simp add: node_reads_def parse_node_def str_reads_def)
  next
    case 6
    from scan_literal_local [OF 6(4)] obtain t where t: "c # cs = t @ rest" "t \<noteq> []" "\<And>r. num_end r \<Longrightarrow> scan_literal (t @ r) = Some (x, r)" "jnode_typed x"
      by blast
    then obtain t' where "t = c # t'" "cs = t' @ rest" by (cases t) auto
    with 6 t(3) [of r for r] t(4) show ?thesis by (intro exI [of _ t']) (simp add: node_reads_def parse_node_def)
  qed
qed


lemma value_step:
  assumes "parse_value (Suc n) s = Some (v, rest)"
    and elems: "\<And>s vs. parse_elems n s = Some (vs, rest) \<Longrightarrow> \<exists>t. s = t @ rest \<and> elems_reads n t vs"
    and members: "\<And>s kvs. parse_members n s = Some (kvs, rest) \<Longrightarrow> \<exists>t. s = t @ rest \<and> members_reads n t kvs"
  shows "\<exists>w t. ws w \<and> s = w @ t @ rest \<and> value_reads (Suc n) t v"
proof -
  obtain c cs where s: "skip_ws s = c # cs" using assms(1) by (auto simp: parse_value.simps Let_def split: list.splits)
  from skip_ws_split [OF s] obtain w where w: "ws w" "s = w @ c # cs" "\<not> is_ws c" by blast
  then have "parse_value (Suc n) (c # cs) = Some (v, rest)" using assms(1) parse_value_ws by simp
  then obtain x where x: "parse_node n c cs = Some (x, rest)" "v = JV (take (length (c # cs) - length rest) (c # cs)) x"
    using w(3) by (auto simp: parse_value_node)
  from node_step [OF x(1) w(3) elems members] obtain t where t: "cs = t @ rest" "node_reads n c t x" by blast
  then have "v = JV (c # t) x" using x(2) by simp
  with node_value [OF t(2) w(3)] w t show ?thesis by (intro exI [of _ w] exI [of _ "c # t"]) simp
qed

lemma value_reads_parse:
  "value_reads n t v \<Longrightarrow> n \<le> m \<Longrightarrow> ws w \<Longrightarrow> ws w' \<Longrightarrow> \<not> num_char c \<Longrightarrow> parse_value m (w @ t @ w' @ c # z) = Some (v, w' @ c # z)"
  by (simp add: parse_value_ws value_reads_def num_end_ws)

lemma elems_step:
  assumes "parse_elems (Suc n) s = Some (vs, rest)"
    and val: "\<And>s v rest. parse_value n s = Some (v, rest) \<Longrightarrow> \<exists>w t. ws w \<and> s = w @ t @ rest \<and> value_reads n t v"
    and elems: "\<And>s vs. parse_elems n s = Some (vs, rest) \<Longrightarrow> \<exists>t. s = t @ rest \<and> elems_reads n t vs"
  shows "\<exists>t. s = t @ rest \<and> elems_reads (Suc n) t vs"
proof -
  obtain v s1 c cs where p: "parse_value n s = Some (v, s1)" "skip_ws s1 = c # cs"
      "c = CHR '','' \<and> (\<exists>us. parse_elems n cs = Some (us, rest) \<and> vs = v # us) \<or> c = CHR '']'' \<and> vs = [v] \<and> cs = rest"
    using assms(1) by (auto simp: parse_elems.simps split: option.splits list.splits if_splits)
  from val [OF p(1)] obtain w t where v: "ws w" "s = w @ t @ s1" "value_reads n t v" by blast
  from skip_ws_split [OF p(2)] obtain w' where w': "ws w'" "s1 = w' @ c # cs" "\<not> is_ws c" by blast
  note rv = value_reads_parse [OF v(3) _ v(1) w'(1)]
  have tv: "jval_typed v" using v(3) by (simp add: value_reads_def)
  have step: "elems_reads (Suc n) q us" if "\<And>m r. n \<le> m \<Longrightarrow> parse_elems (Suc m) (q @ r) = Some (us, r)" "\<forall>v \<in> set us. jval_typed v" for q us
    using that by (auto simp: elems_reads_def Suc_le_eq dest: less_imp_Suc_add)
  from p(3) show ?thesis
  proof (elim disjE conjE exE)
    fix us
    assume c: "c = CHR '',''" "parse_elems n cs = Some (us, rest)" "vs = v # us"
    from elems [OF c(2)] obtain u where u: "cs = u @ rest" "elems_reads n u us" by blast
    have "elems_reads (Suc n) (w @ t @ w' @ c # u) (v # us)"
      using u(2) rv [of _ c] tv w'(1) c(1) by (intro step) (simp_all add: parse_elems.simps elems_reads_def)
    with v(2) w'(2) u(1) c(3) show ?thesis by (intro exI [of _ "w @ t @ w' @ c # u"]) simp
  next
    assume c: "c = CHR '']''" "vs = [v]" "cs = rest"
    have "elems_reads (Suc n) (w @ t @ w' @ [c]) [v]"
      using rv [of _ c] tv w'(1) c(1) by (intro step) (simp_all add: parse_elems.simps)
    with v(2) w'(2) c show ?thesis by (intro exI [of _ "w @ t @ w' @ [c]"]) simp
  qed
qed


lemma parse_member_local:
  assumes "value_reads n t v" "n \<le> m" "str_reads k0 k" "ws w0" "ws w1" "ws w" "ws w'" "\<not> num_char c" "\<not> is_ws c"
  shows "parse_members (Suc m) (w0 @ ch_quote # k0 @ w1 @ CHR '':'' # w @ t @ w' @ c # z) =
    (if c = CHR '','' then map_option (\<lambda>(kvs, r). ((k, v) # kvs, r)) (parse_members m z) else if c = CHR ''}'' then Some ([(k, v)], z) else None)"
  using assms value_reads_parse [OF assms(1,2,6,7,8)] by (simp add: parse_members.simps str_reads_def)

lemma members_step:
  assumes "parse_members (Suc n) s = Some (kvs, rest)"
    and val: "\<And>s v rest. parse_value n s = Some (v, rest) \<Longrightarrow> \<exists>w t. ws w \<and> s = w @ t @ rest \<and> value_reads n t v"
    and members: "\<And>s kvs. parse_members n s = Some (kvs, rest) \<Longrightarrow> \<exists>t. s = t @ rest \<and> members_reads n t kvs"
  shows "\<exists>t. s = t @ rest \<and> members_reads (Suc n) t kvs"
proof -
  obtain s1 k s2 s3 v s4 c cs where p: "skip_ws s = ch_quote # s1" "parse_str s1 = Some (k, s2)" "skip_ws s2 = CHR '':'' # s3"
      "parse_value n s3 = Some (v, s4)" "skip_ws s4 = c # cs"
      "c = CHR '','' \<and> (\<exists>us. parse_members n cs = Some (us, rest) \<and> kvs = (k, v) # us) \<or> c = CHR ''}'' \<and> kvs = [(k, v)] \<and> cs = rest"
    using assms(1) by (auto simp: parse_members.simps split: option.splits list.splits if_splits)
  from skip_ws_split [OF p(1)] skip_ws_split [OF p(3)] skip_ws_split [OF p(5)]
  obtain w0 w1 w' where w: "ws w0" "s = w0 @ ch_quote # s1" "ws w1" "s2 = w1 @ CHR '':'' # s3" "ws w'" "s4 = w' @ c # cs" "\<not> is_ws c" by blast
  from parse_str_reads [OF p(2)] obtain k0 where k: "s1 = k0 @ s2" "str_reads k0 k" by blast
  from val [OF p(4)] obtain w2 t where v: "ws w2" "s3 = w2 @ t @ s4" "value_reads n t v" by blast
  let ?m = "\<lambda>z. w0 @ ch_quote # k0 @ w1 @ CHR '':'' # w2 @ t @ w' @ c # z"
  note rm = parse_member_local [OF v(3) _ k(2) w(1,3) v(1) w(5) _ w(7)]
  have tv: "utf8_valid k \<and> jval_typed v" using v(3) k(2) by (simp add: value_reads_def str_reads_def)
  have step: "members_reads (Suc n) q us" if "\<And>m r. n \<le> m \<Longrightarrow> parse_members (Suc m) (q @ r) = Some (us, r)" "\<forall>(k, v) \<in> set us. utf8_valid k \<and> jval_typed v" for q us
    using that by (auto simp: members_reads_def Suc_le_eq dest: less_imp_Suc_add)
  from p(6) show ?thesis
  proof (elim disjE conjE exE)
    fix us
    assume c: "c = CHR '',''" "parse_members n cs = Some (us, rest)" "kvs = (k, v) # us"
    from members [OF c(2)] obtain u where u: "cs = u @ rest" "members_reads n u us" by blast
    have "members_reads (Suc n) (?m u) ((k, v) # us)"
      using u(2) rm tv c(1) by (intro step) (auto simp: members_reads_def)
    with v(2) w k(1) u(1) c(3) show ?thesis by (intro exI [of _ "?m u"]) simp
  next
    assume c: "c = CHR ''}''" "kvs = [(k, v)]" "cs = rest"
    have "members_reads (Suc n) (?m []) [(k, v)]" using rm tv c(1) by (intro step) simp_all
    with v(2) w k(1) c show ?thesis by (intro exI [of _ "?m []"]) simp
  qed
qed

lemma parse_reads:
  "(\<forall>s v rest. parse_value n s = Some (v, rest) \<longrightarrow> (\<exists>w t. ws w \<and> s = w @ t @ rest \<and> value_reads n t v)) \<and>
   (\<forall>s vs rest. parse_elems n s = Some (vs, rest) \<longrightarrow> (\<exists>t. s = t @ rest \<and> elems_reads n t vs)) \<and>
   (\<forall>s kvs rest. parse_members n s = Some (kvs, rest) \<longrightarrow> (\<exists>t. s = t @ rest \<and> members_reads n t kvs))"
proof (induction n)
  case (Suc n)
  then have val: "\<And>s v rest. parse_value n s = Some (v, rest) \<Longrightarrow> \<exists>w t. ws w \<and> s = w @ t @ rest \<and> value_reads n t v"
    and elems: "\<And>s vs rest. parse_elems n s = Some (vs, rest) \<Longrightarrow> \<exists>t. s = t @ rest \<and> elems_reads n t vs"
    and members: "\<And>s kvs rest. parse_members n s = Some (kvs, rest) \<Longrightarrow> \<exists>t. s = t @ rest \<and> members_reads n t kvs"
    by blast+
  show ?case
    by (intro conjI allI impI; (rule value_step [OF _ elems members] elems_step [OF _ val elems] members_step [OF _ val members]); assumption)
qed simp

lemma json_parse_typed:
  assumes "json_parse s = Some v"
  shows "jval_typed v"
proof -
  obtain rest where "parse_value (2 * length s + 2) s = Some (v, rest)"
    using assms by (auto simp: json_parse_def split: option.splits if_splits)
  then show ?thesis using parse_reads [of "2 * length s + 2"] unfolding value_reads_def by blast
qed


section \<open>Decoders\<close>

text \<open>A decoder of a type: from a typed value and a target of the type it delivers a value of the type.\<close>

definition typed_dec :: "'a decoder \<Rightarrow> ('a \<Rightarrow> bool) \<Rightarrow> bool" where
  "typed_dec d P \<longleftrightarrow> (\<forall>v old x. jval_typed v \<longrightarrow> P old \<longrightarrow> d v old = Some x \<longrightarrow> P x)"

definition fields_typed :: "(string \<times> jval) list \<Rightarrow> bool" where
  "fields_typed kvs \<longleftrightarrow> jnode_typed (JObj kvs)"

definition raw_typed :: "bytes \<Rightarrow> bool" where
  "raw_typed r \<longleftrightarrow> r = [] \<or> json_parse r \<noteq> None"

definition float64_range :: "float64 \<Rightarrow> bool" where
  "float64_range x \<longleftrightarrow> \<bar>x\<bar> < 2 ^ 1024 - 2 ^ 970"

lemma jval_typed_node: "jval_typed v \<Longrightarrow> jnode_typed (jnode v)"
  by (cases v) simp

lemma jval_typed_raw: "jval_typed v \<Longrightarrow> json_parse (jraw v) \<noteq> None"
  by (cases v) simp

lemma typed_string: "typed_dec dec_string utf8_valid"
  by (auto simp: typed_dec_def dec_string_def split: json.splits dest: jval_typed_node)

lemma typed_int: "typed_dec dec_int in_int64"
  by (auto simp: typed_dec_def dec_int_def parse_int_def Let_def split: json.splits if_splits)

lemma typed_float: "typed_dec dec_float float64_range"
  by (auto simp: typed_dec_def dec_float_def parse_float_def float64_range_def Let_def split: json.splits if_splits)

lemma typed_raw: "typed_dec dec_raw raw_typed"
  by (auto simp: typed_dec_def dec_raw_def raw_typed_def dest: jval_typed_raw)

lemma typed_ptr:
  assumes "typed_dec d P" "P zero"
  shows "typed_dec (dec_ptr d zero) (pred_option P)"
  unfolding typed_dec_def
proof (intro allI impI)
  fix v old x
  assume v: "jval_typed v" "pred_option P old" "dec_ptr d zero v old = Some x"
  have "P (case old of Some x \<Rightarrow> x | None \<Rightarrow> zero)" using v(2) assms(2) by (cases old) simp_all
  with assms(1) v(1,3) show "pred_option P x" by (cases "jnode v") (auto simp: dec_ptr_def typed_dec_def)
qed

lemma typed_list:
  assumes "typed_dec d P" "P zero"
  shows "typed_dec (dec_list d zero) (list_all P)"
proof -
  have "list_all P xs" if "those (map (\<lambda>v. d v zero) vs) = Some xs" "\<forall>v \<in> set vs. jval_typed v" for vs xs
    using that
  proof (induction vs arbitrary: xs)
    case (Cons v vs)
    then obtain y ys where "d v zero = Some y" "those (map (\<lambda>v. d v zero) vs) = Some ys" "xs = y # ys" by (auto split: option.splits)
    with Cons assms show ?case by (auto simp: typed_dec_def)
  qed simp
  then show ?thesis by (auto simp: typed_dec_def dec_list_def split: json.splits dest: jval_typed_node)
qed

lemma typed_struct:
  assumes "\<And>kvs old x. fields_typed kvs \<Longrightarrow> P old \<Longrightarrow> fs kvs old = Some x \<Longrightarrow> P x"
  shows "typed_dec (dec_struct fs) P"
  unfolding typed_dec_def
proof (intro allI impI)
  fix v old x
  assume v: "jval_typed v" "P old" "dec_struct fs v old = Some x"
  show "P x"
  proof (cases "jnode v")
    case (JObj kvs)
    with jval_typed_node [OF v(1)] have "fields_typed kvs" by (simp add: fields_typed_def)
    with assms v(2,3) JObj show ?thesis by (auto simp: dec_struct_def)
  qed (use v in \<open>simp_all add: dec_struct_def\<close>)
qed

lemma typed_field:
  assumes "typed_dec d P" "dec_field name d kvs old = Some x" "fields_typed kvs"
  shows "P old \<longrightarrow> P x"
proof -
  have "P x" if "foldl (\<lambda>acc v. Option.bind acc (d v)) (Some old) vs = Some x" "\<forall>v \<in> set vs. jval_typed v" "P old" for vs old
    using that
  proof (induction vs arbitrary: old)
    case (Cons v vs)
    have "foldl (\<lambda>acc v. Option.bind acc (d v)) None vs = None" by (induction vs) simp_all
    then obtain y where "d v old = Some y" using Cons.prems(1) by (cases "d v old") simp_all
    with Cons assms(1) show ?case by (auto simp: typed_dec_def)
  qed simp
  moreover have "\<forall>v \<in> set (obj_values name kvs). jval_typed v" using assms(3) by (auto simp: fields_typed_def obj_values_def)
  ultimately show ?thesis using assms(2) by (simp add: dec_field_def)
qed

lemma json_Unmarshal_typed: "typed_dec d P \<Longrightarrow> P zero \<Longrightarrow> json_Unmarshal s d zero = Inr x \<Longrightarrow> P x"
  by (auto simp: json_Unmarshal_def typed_dec_def split: option.splits dest: json_parse_typed)

lemma json_Decode_typed:
  assumes "typed_dec d P" "P zero" "json_Decode s d zero = Inr x"
  shows "P x"
proof -
  obtain v rest where v: "parse_value (2 * length s + 2) s = Some (v, rest)" "d v zero = Some x"
    using assms(3) by (auto simp: json_Decode_def split: option.splits)
  then have "jval_typed v" using parse_reads [of "2 * length s + 2"] unfolding value_reads_def by blast
  with assms(1,2) v(2) show ?thesis by (simp add: typed_dec_def)
qed

end
