(* ===== verification/Typed_Bodies.thy ===== *)
theory Typed_Bodies
  imports Admin_Props Openai Json_Typed
begin

text \<open>
  The type of the messages that enter the gateway: what the handlers, the admin API and the clients of the providers decode from any
  body has strings in UTF-8, integers of 64 bits, numbers in the range of a \<open>float64\<close> and raw messages that are JSON. So what
  came in can go out: requests can be sent on, and responses can be answered with.
\<close>

section \<open>The types\<close>

definition Message_typed :: "Message \<Rightarrow> bool" where
  "Message_typed m \<longleftrightarrow> utf8_valid (msg_Role m) \<and> raw_typed (msg_Content m) \<and> utf8_valid (msg_Name m) \<and> raw_typed (msg_ToolCalls m) \<and>
     utf8_valid (msg_ToolCallID m)"

definition ChatRequest_typed :: "ChatRequest \<Rightarrow> bool" where
  "ChatRequest_typed r \<longleftrightarrow> utf8_valid (req_Model r) \<and> list_all Message_typed (req_Messages r) \<and>
     pred_option float64_range (req_Temperature r) \<and> pred_option float64_range (req_TopP r) \<and> in_int64 (req_N r) \<and> raw_typed (req_Stop r) \<and>
     pred_option in_int64 (req_MaxTokens r) \<and> pred_option float64_range (req_PresencePenalty r) \<and>
     pred_option float64_range (req_FrequencyPenalty r) \<and> pred_option in_int64 (req_Seed r) \<and> utf8_valid (req_User r) \<and>
     raw_typed (req_Tools r) \<and> raw_typed (req_ToolChoice r) \<and> raw_typed (req_ResponseFormat r)"

definition Choice_typed :: "Choice \<Rightarrow> bool" where
  "Choice_typed c \<longleftrightarrow> in_int64 (ch_Index c) \<and> Message_typed (ch_Message c) \<and> utf8_valid (ch_FinishReason c)"

definition ChatResponse_typed :: "ChatResponse \<Rightarrow> bool" where
  "ChatResponse_typed r \<longleftrightarrow> utf8_valid (resp_ID r) \<and> utf8_valid (resp_Object r) \<and> in_int64 (resp_Created r) \<and> utf8_valid (resp_Model r) \<and>
     list_all Choice_typed (resp_Choices r) \<and> pred_option Usage_ok (resp_Usage r) \<and> utf8_valid (resp_SystemFingerprint r)"

definition EmbeddingRequest_typed :: "EmbeddingRequest \<Rightarrow> bool" where
  "EmbeddingRequest_typed r \<longleftrightarrow> utf8_valid (emb_Model r) \<and> raw_typed (emb_Input r) \<and> utf8_valid (emb_EncodingFormat r) \<and> utf8_valid (emb_User r)"

definition EmbeddingResponse_typed :: "EmbeddingResponse \<Rightarrow> bool" where
  "EmbeddingResponse_typed r \<longleftrightarrow> utf8_valid (embr_Object r) \<and> raw_typed (embr_Data r) \<and> utf8_valid (embr_Model r) \<and> pred_option Usage_ok (embr_Usage r)"

definition ProviderConfig_typed :: "ProviderConfig \<times> bool \<Rightarrow> bool" where
  "ProviderConfig_typed = (\<lambda>(p, nil). utf8_valid (pc_ID p) \<and> utf8_valid (pc_Name p) \<and> utf8_valid (pc_Type p) \<and> utf8_valid (pc_BaseURL p) \<and>
     list_all utf8_valid (pc_Models p) \<and> in_int64 (pc_Priority p) \<and> in_int64 (pc_Weight p) \<and> in_int64 (pc_MaxRPS p) \<and>
     in_int64 (pc_TimeoutMs p) \<and> (nil \<longrightarrow> pc_Models p = []))"

definition Route_typed :: "Route \<Rightarrow> bool" where
  "Route_typed r \<longleftrightarrow> utf8_valid (rt_ID r) \<and> utf8_valid (rt_ModelAlias r) \<and> raw_typed (rt_Targets r) \<and> utf8_valid (rt_Strategy r) \<and>
     in_int64 (rt_CacheTTLs r)"

definition keyCreateRequest_typed :: "keyCreateRequest \<Rightarrow> bool" where
  "keyCreateRequest_typed q \<longleftrightarrow> utf8_valid (kc_OrgID q) \<and> utf8_valid (kc_UserID q) \<and> utf8_valid (kc_TeamID q) \<and> utf8_valid (kc_Role q) \<and>
     list_all utf8_valid (kc_AllowedModels q) \<and> pred_option in_int64 (kc_RPMLimit q) \<and> pred_option in_int64 (kc_TPMLimit q) \<and>
     pred_option float64_range (kc_MaxBudget q) \<and> pred_option utf8_valid (kc_ExpiresAt q)"

definition keyUpdate_typed :: "keyUpdate \<Rightarrow> bool" where
  "keyUpdate_typed q \<longleftrightarrow> pred_option utf8_valid (ku_Role q) \<and> pred_option (list_all utf8_valid) (ku_AllowedModels q) \<and>
     pred_option in_int64 (ku_RPMLimit q) \<and> pred_option in_int64 (ku_TPMLimit q) \<and> pred_option float64_range (ku_MaxBudget q) \<and>
     pred_option utf8_valid (ku_ExpiresAt q)"

section \<open>Decoding\<close>

lemma zero_typed [simp]: "utf8_valid []" "raw_typed []" "in_int64 0" "float64_range 0"
  by (simp_all add: raw_typed_def in_int64_def float64_range_def)

lemmas typed_int_ptr = typed_ptr [OF typed_int, of 0, simplified]
lemmas typed_float_ptr = typed_ptr [OF typed_float, of 0, simplified]
lemmas typed_string_ptr = typed_ptr [OF typed_string, of "[]", simplified]
lemmas typed_strings = typed_list [OF typed_string, of "[]", simplified]
lemmas typed_strings_ptr = typed_ptr [OF typed_strings, of "[]", simplified]

lemmas typed_fields = typed_string [THEN typed_field] typed_int [THEN typed_field] typed_raw [THEN typed_field]
  typed_int_ptr [THEN typed_field] typed_float_ptr [THEN typed_field] typed_string_ptr [THEN typed_field] typed_strings [THEN typed_field]
  typed_strings_ptr [THEN typed_field]

lemma typed_Message: "typed_dec dec_Message Message_typed"
  unfolding dec_Message_def by (rule typed_struct) (auto simp: Message_typed_def bind_eq_Some_conv dest!: typed_fields)

lemma zero_Message_typed: "Message_typed zero_Message"
  by (simp add: Message_typed_def zero_Message_def)

lemmas typed_Messages = typed_list [OF typed_Message zero_Message_typed, THEN typed_field]

lemma typed_ChatRequest: "typed_dec dec_ChatRequest ChatRequest_typed"
  unfolding dec_ChatRequest_def by (rule typed_struct) (auto simp: ChatRequest_typed_def bind_eq_Some_conv dest!: typed_fields typed_Messages)


lemma typed_Usage: "typed_dec dec_Usage Usage_ok"
  unfolding dec_Usage_def by (rule typed_struct) (auto simp: Usage_ok_def bind_eq_Some_conv dest!: typed_fields)

lemma zero_Usage_typed: "Usage_ok zero_Usage"
  by (simp add: Usage_ok_def zero_Usage_def)

lemmas typed_Usage_ptr = typed_ptr [OF typed_Usage zero_Usage_typed, THEN typed_field]

lemma typed_Choice: "typed_dec dec_Choice Choice_typed"
  unfolding dec_Choice_def
  by (rule typed_struct) (auto simp: Choice_typed_def bind_eq_Some_conv dest!: typed_fields typed_Message [THEN typed_field])

lemma zero_Choice_typed: "Choice_typed zero_Choice"
  by (simp add: Choice_typed_def zero_Choice_def zero_Message_typed)

lemmas typed_Choices = typed_list [OF typed_Choice zero_Choice_typed, THEN typed_field]

lemma typed_ChatResponse: "typed_dec dec_ChatResponse ChatResponse_typed"
  unfolding dec_ChatResponse_def
  by (rule typed_struct) (auto simp: ChatResponse_typed_def bind_eq_Some_conv dest!: typed_fields typed_Choices typed_Usage_ptr)

lemma typed_EmbeddingRequest: "typed_dec dec_EmbeddingRequest EmbeddingRequest_typed"
  unfolding dec_EmbeddingRequest_def by (rule typed_struct) (auto simp: EmbeddingRequest_typed_def bind_eq_Some_conv dest!: typed_fields)

lemma typed_EmbeddingResponse: "typed_dec dec_EmbeddingResponse EmbeddingResponse_typed"
  unfolding dec_EmbeddingResponse_def
  by (rule typed_struct) (auto simp: EmbeddingResponse_typed_def bind_eq_Some_conv dest!: typed_fields typed_Usage_ptr)

lemma typed_ProviderConfig: "typed_dec dec_ProviderConfig ProviderConfig_typed"
  unfolding dec_ProviderConfig_def
  by (rule typed_struct) (auto simp: ProviderConfig_typed_def bind_eq_Some_conv dest!: typed_fields split: option.splits if_splits)

lemma typed_Route: "typed_dec dec_Route Route_typed"
  unfolding dec_Route_def by (rule typed_struct) (auto simp: Route_typed_def bind_eq_Some_conv dest!: typed_fields)

lemma typed_keyCreateRequest: "typed_dec dec_keyCreateRequest keyCreateRequest_typed"
  unfolding dec_keyCreateRequest_def by (rule typed_struct) (auto simp: keyCreateRequest_typed_def bind_eq_Some_conv dest!: typed_fields)

lemma typed_keyUpdate: "typed_dec dec_keyUpdate keyUpdate_typed"
  unfolding dec_keyUpdate_def by (rule typed_struct) (auto simp: keyUpdate_typed_def bind_eq_Some_conv dest!: typed_fields)

lemma zero_bodies_typed:
  "ChatRequest_typed zero_ChatRequest" "ChatResponse_typed zero_ChatResponse" "EmbeddingRequest_typed zero_EmbeddingRequest"
  "EmbeddingResponse_typed zero_EmbeddingResponse" "ProviderConfig_typed (zero_ProviderConfig, True)" "Route_typed zero_Route"
  "keyCreateRequest_typed zero_keyCreateRequest" "keyUpdate_typed zero_keyUpdate"
  by (simp_all add: ChatRequest_typed_def zero_ChatRequest_def ChatResponse_typed_def zero_ChatResponse_def EmbeddingRequest_typed_def
      zero_EmbeddingRequest_def EmbeddingResponse_typed_def zero_EmbeddingResponse_def ProviderConfig_typed_def zero_ProviderConfig_def
      Route_typed_def zero_Route_def keyCreateRequest_typed_def zero_keyCreateRequest_def keyUpdate_typed_def zero_keyUpdate_def)

section \<open>Encoding\<close>

lemma raws_values [simp]: "raws_ok (enc_int n)" "raws_ok (enc_float ftext f)" "raws_ok (enc_StreamOptions b)" "raws_ok (enc_Usage u)"
  by (simp_all add: enc_int_def enc_float_def enc_StreamOptions_def enc_Usage_def)

lemma raws_omitD:
  "(k, v) \<in> set (omit_str name s) \<Longrightarrow> raws_ok v" "(k, v) \<in> set (omit_raw name r) \<Longrightarrow> raw_typed r \<longrightarrow> raws_ok v"
  "(k, v) \<in> set (omit_nil name enc y) \<Longrightarrow> (\<forall>x. raws_ok (enc x)) \<longrightarrow> raws_ok v"
  by (auto simp: omit_str_def omit_raw_def omit_nil_def raw_typed_def split: option.splits if_splits)

lemma raws_Message: "Message_typed m \<Longrightarrow> raws_ok (enc_Message m)"
  by (auto simp: enc_Message_def Message_typed_def raw_typed_def [of "msg_Content m"] dest!: raws_omitD)

lemma raws_ChatRequest: "ChatRequest_typed r \<Longrightarrow> raws_ok (enc_ChatRequest ftext r)"
  by (auto simp: enc_ChatRequest_def ChatRequest_typed_def list_all_iff raws_Message dest!: raws_omitD split: if_splits)

lemma raws_ChatResponse: "ChatResponse_typed r \<Longrightarrow> raws_ok (enc_ChatResponse r)"
  by (auto simp: enc_ChatResponse_def ChatResponse_typed_def Choice_typed_def enc_Choice_def list_all_iff raws_Message dest!: raws_omitD)

lemma raws_Embedding:
  "EmbeddingRequest_typed q \<Longrightarrow> raws_ok (enc_EmbeddingRequest q)" "EmbeddingResponse_typed p \<Longrightarrow> raws_ok (enc_EmbeddingResponse p)"
  by (auto simp: enc_EmbeddingRequest_def EmbeddingRequest_typed_def enc_EmbeddingResponse_def EmbeddingResponse_typed_def raw_typed_def dest!: raws_omitD)


section \<open>Bodies\<close>

lemma decodeRequestBody_typed: "typed_dec d P \<Longrightarrow> P zero \<Longrightarrow> decodeRequestBody d zero r w = (Some x, w') \<Longrightarrow> P x"
  by (auto simp: decodeRequestBody_def split: sum.splits dest: json_Unmarshal_typed)

lemma decodeJSON_typed: "typed_dec d P \<Longrightarrow> P zero \<Longrightarrow> decodeJSON d zero r w = (Some x, w') \<Longrightarrow> P x"
  by (auto simp: decodeJSON_def Let_def split: sum.splits if_splits dest: json_Decode_typed)

lemma decode_body_typed: "typed_dec d P \<Longrightarrow> P zero \<Longrightarrow> wrap_result what (decode_body d zero resp) = Inr x \<Longrightarrow> P x"
  by (auto simp: decode_body_def wrap_result_def split: sum.splits dest: json_Decode_typed)

lemma bind_result_Inr: "bind_result x f = Inr y \<longleftrightarrow> (\<exists>z. x = Inr z \<and> f z = Inr y)"
  by (cases x) (simp_all add: bind_result_def)

lemma provider_answers_typed:
  "openai_ChatCompletion ftext env oc q = Inr resp \<Longrightarrow> ChatResponse_typed resp"
  "ollama_ChatCompletion ftext env ol q = Inr resp \<Longrightarrow> ChatResponse_typed resp"
  "openai_Embeddings env oc e = Inr er \<Longrightarrow> EmbeddingResponse_typed er"
  "ollama_Embeddings env ol e = Inr er \<Longrightarrow> EmbeddingResponse_typed er"
  by (auto simp: openai_ChatCompletion_def ollama_ChatCompletion_def openai_Embeddings_def ollama_Embeddings_def bind_result_Inr
      dest: decode_body_typed [OF typed_ChatResponse zero_bodies_typed(2)] decode_body_typed [OF typed_EmbeddingResponse zero_bodies_typed(4)])

lemma models_stored: "list_all utf8_valid ms \<Longrightarrow> \<exists>m. marshalJSON ms = Inr m \<and> unmarshalStringSlice m = Inr ms"
  by (metis models_roundtrip)

section \<open>Property\<close>



text \<open>A key whose role is half of a surrogate pair.\<close>

definition ex_role :: bytes where
  "ex_role = [ch_quote, ch_backslash] @ ''uD800'' @ [ch_quote]"

definition ex_key_body :: bytes where
  "ex_key_body = ''{'' @ [ch_quote] @ ''role'' @ [ch_quote] @ '': '' @ ex_role @ ''}''"

definition ex_key_request :: Request where
  "ex_key_request = \<lparr>rq_Method = ''POST'', rq_Path = ''/admin/v1/keys'', rq_RawQuery = [], rq_Header = Map.empty, rq_Body = ex_key_body, rq_BodyErr = None, rq_ctx = None\<rparr>"

lemma ex_key_parsed:
  "parse_value (Suc (Suc (Suc n))) ex_key_body = Some (JV ex_key_body (JObj [(''role'', JV ex_role (JStr rune_error))]), [])"
proof -
  have key: "parse_str (CHR ''r'' # CHR ''o'' # CHR ''l'' # CHR ''e'' # ch_quote # z) = Some (''role'', z)" for z
    by (simp add: parse_str_raw utf8_len_def utf8_ranges_def byte_def)
  have str: "unicode_escape (CHR ''D'' # CHR ''8'' # CHR ''0'' # CHR ''0'' # ch_quote # z) = Some (rune_error, ch_quote # z)" for z
    by (cases z) (simp_all add: unicode_escape_def hex4_def hex_val_def byte_def is_surrogate_def)
  have sp: "is_ws (CHR '' '')" "ch_quote \<noteq> CHR ''}''" by (simp_all add: is_ws_def byte_def)
  show ?thesis by (simp add: ex_key_body_def ex_role_def parse_value.simps parse_members.simps key str skip_ws_def sp)
qed

lemma ex_key_decoded: "decodeJSON dec_keyCreateRequest zero_keyCreateRequest ex_key_request w = (Some (zero_keyCreateRequest\<lparr>kc_Role := rune_error\<rparr>), w)"
proof -
  have "2 * length ex_key_body + 2 = Suc (Suc (Suc 35))" by (simp add: ex_key_body_def ex_role_def)
  then have p: "parse_value (2 * length ex_key_body + 2) ex_key_body = Some (JV ex_key_body (JObj [(''role'', JV ex_role (JStr rune_error))]), [])"
    using ex_key_parsed [of 35] by simp
  have "length ex_key_body \<le> maxAdminBody" by (simp add: ex_key_body_def ex_role_def maxAdminBody_def)
  moreover have "dec_keyCreateRequest (JV ex_key_body (JObj [(''role'', JV ex_role (JStr rune_error))])) zero_keyCreateRequest =
      Some (zero_keyCreateRequest\<lparr>kc_Role := rune_error\<rparr>)"
    by (simp add: dec_keyCreateRequest_def dec_struct_def dec_field_def obj_values_def json_fold_lower byte_def dec_string_def zero_keyCreateRequest_def)
  ultimately show ?thesis using p by (simp add: decodeJSON_def json_Decode_def ex_key_request_def Let_def)
qed



end
