(* ===== verification/Observability.thy ===== *)
theory Observability
  imports Server_Props
begin

text \<open>
  What the gateway notes about requests: the access log, the metrics and the spans of \<open>internal/server/middleware.go\<close> and
  \<open>metrics.go\<close>. Each of the three puts a \<open>statusWriter\<close> before the writer it was given, to learn the status of the response.
  A handler is here what it does to the writer: a list of calls, which every writer of the stack runs through. Shown: the wrappers
  change nothing of the response, and the status they note is the one the client gets, if the handler does not flush before it
  writes. Erasing the notes gives the chain of \<open>Server\<close>.
\<close>

section \<open>Calls on a writer\<close>

datatype rw_call = SetHeader string "string list" | CallWriteHeader int | CallWrite bytes | CallFlush

fun net_call :: "rw_call \<Rightarrow> ResponseWriter \<Rightarrow> ResponseWriter" where
  "net_call (SetHeader k vs) w = set_header k vs w"
| "net_call (CallWriteHeader code) w = WriteHeader code w"
| "net_call (CallWrite data) w = Write data w"
| "net_call CallFlush w = Flush w"

section \<open>statusWriter\<close>

record 'a statusWriter =
  sw_ResponseWriter :: 'a
  sw_status :: int
  sw_wroteHeader :: bool

text \<open>A writer from the pool, reset for the response writer \<open>w\<close>.\<close>

definition pool_Get :: "'a \<Rightarrow> 'a statusWriter" where
  "pool_Get w = \<lparr>sw_ResponseWriter = w, sw_status = 200, sw_wroteHeader = False\<rparr>"

definition sw_WriteHeader :: "(rw_call \<Rightarrow> 'a \<Rightarrow> 'a) \<Rightarrow> int \<Rightarrow> 'a statusWriter \<Rightarrow> 'a statusWriter" where
  "sw_WriteHeader inner code sw =
     (let sw = (if \<not> sw_wroteHeader sw then sw\<lparr>sw_status := code, sw_wroteHeader := True\<rparr> else sw)
      in sw\<lparr>sw_ResponseWriter := inner (CallWriteHeader code) (sw_ResponseWriter sw)\<rparr>)"

definition sw_Write :: "(rw_call \<Rightarrow> 'a \<Rightarrow> 'a) \<Rightarrow> bytes \<Rightarrow> 'a statusWriter \<Rightarrow> 'a statusWriter" where
  "sw_Write inner data sw =
     (let sw = (if \<not> sw_wroteHeader sw then sw\<lparr>sw_wroteHeader := True\<rparr> else sw)
      in sw\<lparr>sw_ResponseWriter := inner (CallWrite data) (sw_ResponseWriter sw)\<rparr>)"

text \<open>Every writer of the stack is a \<open>Flusher\<close>.\<close>

definition sw_Flush :: "(rw_call \<Rightarrow> 'a \<Rightarrow> 'a) \<Rightarrow> 'a statusWriter \<Rightarrow> 'a statusWriter" where
  "sw_Flush inner sw = sw\<lparr>sw_ResponseWriter := inner CallFlush (sw_ResponseWriter sw)\<rparr>"

text \<open>\<open>Header\<close> is the method of the embedded writer.\<close>

fun sw_call :: "(rw_call \<Rightarrow> 'a \<Rightarrow> 'a) \<Rightarrow> rw_call \<Rightarrow> 'a statusWriter \<Rightarrow> 'a statusWriter" where
  "sw_call inner (SetHeader k vs) sw = sw\<lparr>sw_ResponseWriter := inner (SetHeader k vs) (sw_ResponseWriter sw)\<rparr>"
| "sw_call inner (CallWriteHeader code) sw = sw_WriteHeader inner code sw"
| "sw_call inner (CallWrite data) sw = sw_Write inner data sw"
| "sw_call inner CallFlush sw = sw_Flush inner sw"

section \<open>Middleware\<close>

record access_log =
  al_method :: string
  al_path :: string
  al_status :: int
  al_duration_ms :: int
  al_request_id :: string

record span =
  sp_name :: string
  sp_method :: string
  sp_url :: string
  sp_request_id :: string
  sp_status_code :: "int option"

text \<open>What has been noted so far: the log, the collectors of \<open>telemetry.Metrics\<close> that the middleware uses, and the ended spans.\<close>

record noted =
  nt_log :: "access_log list"
  ActiveRequests :: int
  RequestsTotal :: "string \<times> string \<times> string \<Rightarrow> nat"
  RequestDuration :: "(string \<times> string \<times> duration) list"
  nt_spans :: "span list"

text \<open>A handler on a writer of type \<open>'a\<close>: given how calls act on the writer, it serves a request.\<close>

type_synonym ('a, 'w) observed_handler =
  "(rw_call \<Rightarrow> 'a \<Rightarrow> 'a) \<Rightarrow> Request \<Rightarrow> 'w server \<times> noted \<Rightarrow> 'a \<Rightarrow> outcome \<times> ('w server \<times> noted) \<times> 'a"

text \<open>A handler by what it does: its outcome, the new state and its calls.\<close>

type_synonym 'w calls_of = "Request \<Rightarrow> 'w server \<Rightarrow> outcome \<times> 'w server \<times> rw_call list"

definition serve :: "'w calls_of \<Rightarrow> ('a, 'w) observed_handler" where
  "serve h run r st w = (case h r (fst st) of (out, s, cs) \<Rightarrow> (out, (s, snd st), fold run cs w))"

definition Milliseconds :: "duration \<Rightarrow> int" where
  "Milliseconds d = (if d < 0 then - (- d div 1000000) else d div 1000000)"

definition logging :: "gotime \<Rightarrow> gotime \<Rightarrow> ('a statusWriter, 'w) observed_handler \<Rightarrow> ('a, 'w) observed_handler" where
  "logging t0 t1 next run r st w =
     (case next (sw_call run) r st (pool_Get w) of
        (Panicked e, st, sw) \<Rightarrow> (Panicked e, st, sw_ResponseWriter sw)
      | (Returned, (s, n), sw) \<Rightarrow>
          (Returned,
           (s, n\<lparr>nt_log := nt_log n @
              [\<lparr>al_method = rq_Method r, al_path = rq_Path r, al_status = sw_status sw, al_duration_ms = Milliseconds (time_Sub t1 t0),
                al_request_id = RequestIDFromContext (sv_meta s) (rq_ctx r)\<rparr>]\<rparr>),
           sw_ResponseWriter sw))"

text \<open>\<open>pattern\<close> is what the router of chi keeps in the context of a request.\<close>

definition routePattern :: "(Request \<Rightarrow> string option) \<Rightarrow> Request \<Rightarrow> string" where
  "routePattern pattern r = (case pattern r of Some p \<Rightarrow> if p \<noteq> [] then p else rq_Path r | None \<Rightarrow> rq_Path r)"

definition statusText :: "int \<Rightarrow> string option" where
  "statusText i = (if 0 \<le> i \<and> i < 600 then Some (int_text i) else None)"

definition metrics :: "(Request \<Rightarrow> string option) \<Rightarrow> gotime \<Rightarrow> gotime \<Rightarrow> ('a statusWriter, 'w) observed_handler \<Rightarrow> ('a, 'w) observed_handler" where
  "metrics pattern t0 t1 next run r st w =
     (case next (sw_call run) r (fst st, (snd st)\<lparr>ActiveRequests := ActiveRequests (snd st) + 1\<rparr>) (pool_Get w) of
        (Panicked e, st, sw) \<Rightarrow> (Panicked e, st, sw_ResponseWriter sw)
      | (Returned, (s, n), sw) \<Rightarrow>
          (let n = n\<lparr>ActiveRequests := ActiveRequests n - 1\<rparr>;
               p = routePattern pattern r
           in case statusText (sw_status sw) of
                None \<Rightarrow> (Panicked ''index out of range'', (s, n), sw_ResponseWriter sw)
              | Some statusStr \<Rightarrow>
                  (Returned,
                   (s, n\<lparr>RequestsTotal := (RequestsTotal n)((rq_Method r, p, statusStr) := RequestsTotal n (rq_Method r, p, statusStr) + 1),
                         RequestDuration := RequestDuration n @ [(rq_Method r, p, time_Sub t1 t0)]\<rparr>),
                   sw_ResponseWriter sw)))"

text \<open>The span ends in any case; the status is set only after the handler has returned.\<close>

definition tracingMiddleware :: "('a statusWriter, 'w) observed_handler \<Rightarrow> ('a, 'w) observed_handler" where
  "tracingMiddleware next run r st w =
     (let sp = \<lparr>sp_name = rq_Method r @ '' '' @ rq_Path r, sp_method = rq_Method r, sp_url = rq_Path r,
            sp_request_id = RequestIDFromContext (sv_meta (fst st)) (rq_ctx r), sp_status_code = None\<rparr>
      in case next (sw_call run) r st (pool_Get w) of
           (Panicked e, (s, n), sw) \<Rightarrow> (Panicked e, (s, n\<lparr>nt_spans := nt_spans n @ [sp]\<rparr>), sw_ResponseWriter sw)
         | (Returned, (s, n), sw) \<Rightarrow>
             (Returned, (s, n\<lparr>nt_spans := nt_spans n @ [sp\<lparr>sp_status_code := Some (sw_status sw)\<rparr>]\<rparr>), sw_ResponseWriter sw))"

text \<open>The part of the chain of \<open>New\<close> between \<open>requestID\<close> and the routes; metrics and tracing are there if they are configured.\<close>

definition observe :: "bool \<Rightarrow> bool \<Rightarrow> (Request \<Rightarrow> string option) \<Rightarrow> (nat \<Rightarrow> gotime) \<Rightarrow> 'w calls_of \<Rightarrow> (ResponseWriter, 'w) observed_handler" where
  "observe withMetrics withTracer pattern now h =
     logging (now 0) (now 3)
       (if withMetrics then metrics pattern (now 1) (now 2) (if withTracer then tracingMiddleware (serve h) else serve h)
        else if withTracer then tracingMiddleware (serve h) else serve h)"

section \<open>Writers pass on what they are told\<close>

text \<open>The final status codes that the table of the metrics has; an informational one may come before them.\<close>

definition final_code :: "int \<Rightarrow> bool" where
  "final_code code \<longleftrightarrow> 200 \<le> code \<and> code < 600"

text \<open>The handler writes before it flushes, and begins with a final status.\<close>

fun orderly :: "rw_call list \<Rightarrow> bool" where
  "orderly [] = True"
| "orderly (SetHeader k vs # cs) = orderly cs"
| "orderly (CallWriteHeader code # cs) = final_code code"
| "orderly (CallWrite data # cs) = True"
| "orderly (CallFlush # cs) = False"

lemma net_call_sent: "rw_sent w = Some x \<Longrightarrow> rw_sent (net_call c w) = Some x"
  by (cases c) (auto simp: set_header_def WriteHeader_def Write_def Flush_def Let_def split: option.split prod.split)

lemma net_call_first:
  "rw_sent w = None \<Longrightarrow> final_code code \<Longrightarrow> rw_sent (WriteHeader code w) = Some (code, rw_Header w)"
  "rw_sent w = None \<Longrightarrow> rw_sent (Write data w) = Some (200, rw_Header w)"
  by (simp_all add: WriteHeader_def Write_def final_code_def body_allowed_def Let_def)

lemma sent_kept: "rw_sent w = Some x \<Longrightarrow> rw_sent (fold net_call cs w) = Some x"
  by (induction cs arbitrary: w) (simp_all add: net_call_sent)

lemma orderly_final: "rw_sent w = None \<Longrightarrow> orderly cs \<Longrightarrow> final_code (rw_status (fold net_call cs w))"
proof (induction cs arbitrary: w rule: orderly.induct)
  case 2
  then show ?case by (simp add: set_header_def)
next
  case (3 code cs)
  then show ?case using sent_kept [OF net_call_first(1)] by (simp add: rw_status_def)
next
  case (4 data cs)
  then show ?case using sent_kept [OF net_call_first(2)] by (simp add: rw_status_def final_code_def)
qed (simp_all add: rw_status_def final_code_def)

text \<open>A writer of the stack: what leaves for the client is as if the calls were made on the network connection.\<close>

locale response_writer =
  fixes run :: "rw_call \<Rightarrow> 'a \<Rightarrow> 'a" and net :: "'a \<Rightarrow> ResponseWriter"
  assumes net_run: "net (run c w) = net_call c (net w)"
begin

lemma net_fold: "net (fold run cs w) = fold net_call cs (net w)"
  by (induction cs arbitrary: w) (simp_all add: net_run)

lemma wrapped_run: "sw_ResponseWriter (sw_call run c sw) = run c (sw_ResponseWriter sw)"
  by (cases c) (simp_all add: sw_WriteHeader_def sw_Write_def sw_Flush_def Let_def)

lemma wrapped_fold: "sw_ResponseWriter (fold (sw_call run) cs sw) = fold run cs (sw_ResponseWriter sw)"
  by (induction cs arbitrary: sw) (simp_all add: wrapped_run)

lemma wrapped_net: "net (sw_ResponseWriter (sw_call run c sw)) = net_call c (net (sw_ResponseWriter sw))"
  by (simp add: wrapped_run net_run)

lemma status_kept:
  assumes "sw_wroteHeader sw" "rw_sent (net (sw_ResponseWriter sw)) = Some (sw_status sw, h)"
  shows "sw_status (fold (sw_call run) cs sw) = rw_status (net (sw_ResponseWriter (fold (sw_call run) cs sw)))"
  using assms
proof (induction cs arbitrary: sw)
  case (Cons c cs)
  have "sw_wroteHeader (sw_call run c sw)" "sw_status (sw_call run c sw) = sw_status sw"
    using Cons.prems(1) by (cases c; simp add: sw_WriteHeader_def sw_Write_def sw_Flush_def)+
  with Cons.IH [of "sw_call run c sw"] Cons.prems(2) show ?case by (simp add: wrapped_net net_call_sent)
qed (simp add: rw_status_def)

lemma status_noted:
  assumes "\<not> sw_wroteHeader sw" "sw_status sw = 200" "rw_sent (net (sw_ResponseWriter sw)) = None" "orderly cs"
  shows "sw_status (fold (sw_call run) cs sw) = rw_status (net (sw_ResponseWriter (fold (sw_call run) cs sw)))"
  using assms
proof (induction cs arbitrary: sw)
  case (Cons c cs)
  show ?case
  proof (cases c)
    case (SetHeader k vs)
    with Cons show ?thesis by (simp add: net_run set_header_def)
  next
    case (CallWriteHeader code)
    with Cons.prems show ?thesis
      using status_kept [of "sw_call run c sw" "rw_Header (net (sw_ResponseWriter sw))" cs] net_call_first(1)
      by (simp add: sw_WriteHeader_def net_run)
  next
    case (CallWrite data)
    with Cons.prems show ?thesis
      using status_kept [of "sw_call run c sw" "rw_Header (net (sw_ResponseWriter sw))" cs] net_call_first(2)
      by (simp add: sw_Write_def net_run)
  qed (use Cons.prems in simp)
qed (simp add: rw_status_def)

text \<open>The response and the status that a writer from the pool has noted, after all calls.\<close>

lemma pool_status:
  assumes "rw_sent (net w) = None" "orderly cs"
  shows "sw_status (fold (sw_call run) cs (pool_Get w)) = rw_status (fold net_call cs (net w))"
  using status_noted [of "pool_Get w" cs] assms by (simp add: pool_Get_def wrapped_fold net_fold)

lemma pool_response: "sw_ResponseWriter (fold (sw_call run) cs (pool_Get w)) = fold run cs w"
  by (simp add: wrapped_fold pool_Get_def)

end

interpretation connection: response_writer net_call "\<lambda>w. w"
  by unfold_locales simp

interpretation wrapper: response_writer "sw_call net_call" sw_ResponseWriter
  by unfold_locales (rule connection.wrapped_net)

interpretation wrapper2: response_writer "sw_call (sw_call net_call)" "\<lambda>sw. sw_ResponseWriter (sw_ResponseWriter sw)"
  by unfold_locales (rule wrapper.wrapped_net)


section \<open>What is noted\<close>

lemmas pool_simps = connection.pool_status connection.pool_response wrapper.pool_status wrapper.pool_response
  wrapper2.pool_status wrapper2.pool_response

lemma pool_inner [simp]: "sw_ResponseWriter (pool_Get w) = w"
  by (simp add: pool_Get_def)

text \<open>The notes on a request that was answered with \<open>status\<close>.\<close>

definition access_entry :: "Request \<Rightarrow> 'w server \<Rightarrow> int \<Rightarrow> duration \<Rightarrow> access_log" where
  "access_entry r s status d = \<lparr>al_method = rq_Method r, al_path = rq_Path r, al_status = status, al_duration_ms = Milliseconds d,
     al_request_id = RequestIDFromContext (sv_meta s) (rq_ctx r)\<rparr>"

definition counted :: "string \<Rightarrow> string \<Rightarrow> int \<Rightarrow> (string \<times> string \<times> string \<Rightarrow> nat) \<Rightarrow> string \<times> string \<times> string \<Rightarrow> nat" where
  "counted meth p status c = c((meth, p, int_text status) := c (meth, p, int_text status) + 1)"

lemma request_noted:
  fixes n :: noted
  assumes "h r s = (Returned, s', cs)" "orderly cs" "rw_sent w = None"
  defines "w' \<equiv> fold net_call cs w"
  shows "\<exists>n'. observe m t pattern now h net_call r (s, n) w = (Returned, (s', n'), w') \<and>
    nt_log n' = nt_log n @ [access_entry r s' (rw_status w') (time_Sub (now 3) (now 0))] \<and>
    ActiveRequests n' = ActiveRequests n \<and>
    RequestsTotal n' = (if m then counted (rq_Method r) (routePattern pattern r) (rw_status w') (RequestsTotal n) else RequestsTotal n) \<and>
    map sp_status_code (nt_spans n') = map sp_status_code (nt_spans n) @ (if t then [Some (rw_status w')] else [])"
proof -
  have ok: "statusText (rw_status w') = Some (int_text (rw_status w'))"
    using orderly_final [OF assms(3,2)] by (simp add: statusText_def final_code_def w'_def)
  show ?thesis
    using assms(1-3) ok unfolding w'_def
    by (cases m; cases t)
       (simp_all add: observe_def logging_def metrics_def tracingMiddleware_def serve_def pool_simps access_entry_def counted_def Let_def)
qed

lemma panic_noted:
  fixes n :: noted
  assumes "h r s = (Panicked e, s', cs)"
  shows "\<exists>n'. observe m t pattern now h net_call r (s, n) w = (Panicked e, (s', n'), fold net_call cs w) \<and>
    nt_log n' = nt_log n \<and> RequestsTotal n' = RequestsTotal n \<and> ActiveRequests n' = (if m then ActiveRequests n + 1 else ActiveRequests n) \<and>
    map sp_status_code (nt_spans n') = map sp_status_code (nt_spans n) @ (if t then [None] else [])"
  using assms
  by (cases m; cases t) (simp_all add: observe_def logging_def metrics_def tracingMiddleware_def serve_def pool_simps Let_def)

text \<open>Without the notes, the middleware is that of \<open>Server\<close>.\<close>

definition unobserved :: "'w calls_of \<Rightarrow> 'w handler" where
  "unobserved h r s w = (case h r s of (out, s, cs) \<Rightarrow> (out, s, fold net_call cs w))"

definition erase :: "outcome \<times> ('w server \<times> noted) \<times> 'a \<Rightarrow> outcome \<times> 'w server \<times> 'a" where
  "erase = (\<lambda>(out, (s, n), w). (out, s, w))"

lemma observe_erased:
  assumes "case h r s of (out, s', cs) \<Rightarrow> orderly cs" "rw_sent w = None"
  shows "erase (observe (d_Metrics dp) t pattern now h net_call r (s, n) w) = observed dp (unobserved h) r s w"
proof -
  obtain out s' cs where h: "h r s = (out, s', cs)" by (cases "h r s")
  then have o: "orderly cs" using assms(1) by simp
  show ?thesis
  proof (cases out)
    case Returned
    with h o assms(2) show ?thesis
      by (cases t) (auto simp: erase_def observe_def logging_def metrics_def tracingMiddleware_def serve_def pool_simps unobserved_def observed_def
          metricsMiddleware_def statusText_def Let_def split: option.split)
  next
    case (Panicked e)
    with h show ?thesis
      by (cases t) (simp_all add: erase_def observe_def logging_def metrics_def tracingMiddleware_def serve_def pool_simps unobserved_def observed_def
          metricsMiddleware_def Let_def)
  qed
qed

text \<open>A handler that flushes first: the client gets 200, and 500 is logged.\<close>

lemma flush_first_misreported:
  "sw_status (fold (sw_call net_call) [CallFlush, CallWriteHeader 500] (pool_Get new_writer)) = 500"
  "rw_status (fold net_call [CallFlush, CallWriteHeader 500] new_writer) = 200"
  by (simp_all add: pool_Get_def sw_Flush_def sw_WriteHeader_def Flush_def WriteHeader_def new_writer_def rw_status_def)

section \<open>The handlers are orderly\<close>

definition writes :: "ResponseWriter \<Rightarrow> ResponseWriter \<Rightarrow> bool" where
  "writes w w' \<longleftrightarrow> (\<exists>cs. orderly cs \<and> w' = fold net_call cs w)"

lemma orderly_append: "orderly cs \<Longrightarrow> orderly ds \<Longrightarrow> orderly (cs @ ds)"
  by (induction cs rule: orderly.induct) simp_all

lemma writes_refl [simp]: "writes w w"
  unfolding writes_def by (intro exI [of _ "[]"]) simp

lemma writes_calls: "writes w x \<Longrightarrow> orderly ds \<Longrightarrow> writes w (fold net_call ds x)"
  unfolding writes_def by (metis orderly_append fold_append comp_apply)

lemma writes_more:
  assumes "writes w x"
  shows "writes w (set_header k vs x)" "writes w (Write data x)" "writes w (Flush (Write data x))" "writes w (Flush (WriteHeader 200 x))"
    "final_code code \<Longrightarrow> writes w (WriteHeader code x)"
  using writes_calls [OF assms, of "[SetHeader k vs]"] writes_calls [OF assms, of "[CallWrite data]"] writes_calls [OF assms, of "[CallWrite data, CallFlush]"]
    writes_calls [OF assms, of "[CallWriteHeader 200, CallFlush]"] writes_calls [OF assms, of "[CallWriteHeader code]"]
  by (simp_all add: final_code_def)

lemma errorStatus_final: "final_code (errorStatus err)"
  by (simp add: errorStatus_def final_code_def)

lemma writes_JSON: "writes w x \<Longrightarrow> final_code code \<Longrightarrow> writes w (writeJSON code v x)"
  by (auto simp: writeJSON_def intro!: writes_more split: option.split)

lemma final_codes [simp]: "final_code 200" "final_code 400" "final_code 403" "final_code 429"
  by (simp_all add: final_code_def)

lemma writes_errors: "writes w x \<Longrightarrow> writes w (writeUpstreamError err x)" "writes w x \<Longrightarrow> writes w (writeRateLimitError res x)"
  by (simp_all add: writeUpstreamError_def writeRateLimitError_def Let_def writes_JSON writes_more errorStatus_final)

lemma writes_limits: "writes w x \<Longrightarrow> writes w (setRPMHeaders res x)" "writes w x \<Longrightarrow> writes w (setTPMHeaders res x)"
  by (simp_all add: setRPMHeaders_def setTPMHeaders_def writes_more)

lemma writes_SSE:
  assumes "writes w x"
  shows "writes w (Flush (writeSSEHeaders x))" "writes w (Flush (writeSSEData d x))" "writes w (Flush (writeSSEDone x))"
    "writes w (Flush (writeSSEDone (writeSSEError m x)))" "writes w (Flush (writeSSEKeepAlive x))"
  using assms by (simp_all add: writeSSEHeaders_def writeSSEData_def writeSSEDone_def writeSSEError_def writeSSEKeepAlive_def writes_more)

lemmas writes_intros = writes_more writes_JSON writes_errors writes_limits writes_SSE

lemma writes_body: "writes w x \<Longrightarrow> writes w (snd (decodeRequestBody d zero r x))"
  by (auto simp: decodeRequestBody_def writes_JSON split: sum.split)

lemma writes_tpm: "writes w x \<Longrightarrow> writes w (snd (snd (consumeTPM dp ev ident est s x)))"
  by (simp add: consumeTPM_def writes_errors writes_limits split: prod.split option.split)

lemma writes_chunk: "writes w x \<Longrightarrow> writes w (snd (snd (processStreamChunk dp ev r c req ident est u s x)))"
  by (simp add: processStreamChunk_def writes_SSE Let_def split: option.split)

lemma writes_loop: "writes w x \<Longrightarrow> writes w (snd (stream_loop dp ev r req ident est k u sched ch s x))"
proof (induction dp ev r req ident est k u sched ch s x rule: stream_loop.induct)
  case (1 dp ev r req ident est k u sched ch s x)
  note IH = "1.IH" and x = "1.prems"
  have c: "writes w (snd (snd (processStreamChunk dp ev r c req ident est u s x)))" for c using writes_chunk [OF x] .
  show ?case
    by (subst stream_loop.simps)
       (use IH x c in \<open>auto simp: writes_SSE split: list.split sel.split prod.split; metis snd_conv\<close>)
qed


definition writing :: "'w handler \<Rightarrow> bool" where
  "writing h \<longleftrightarrow> (\<forall>r s w x. writes w x \<longrightarrow> writes w (snd (snd (h r s x))))"

lemma writing_stream: "writing (handleChatCompletionStream dp ev req ident est)"
  by (auto simp: writing_def handleChatCompletionStream_def writes_errors split: prod.split sum.split)
     (metis writes_loop writes_SSE(1) snd_conv)

lemma writing_chat: "writing (handleChatCompletion dp ev)"
  unfolding writing_def
proof (intro allI impI)
  fix r s w x
  assume x: "writes w x"
  obtain q y where q: "decodeRequestBody dec_ChatRequest zero_ChatRequest r x = (q, y)" by fastforce
  then have y: "writes w y" using writes_body [OF x, of dec_ChatRequest zero_ChatRequest r] by simp
  have t: "writes w (snd (snd (consumeTPM dp ev ident est s y)))" for ident est using writes_tpm [OF y] .
  have st: "writes w v \<Longrightarrow> writes w (snd (snd (handleChatCompletionStream dp ev req ident est r s' v)))" for req ident est s' v
    using writing_stream [of dp ev req ident est] by (simp add: writing_def)
  show "writes w (snd (snd (handleChatCompletion dp ev r s x)))"
    using y t [of "identity_of r s" "estimate dp (the q)"]
    by (auto simp: handleChatCompletion_def q Let_def st writes_intros split: prod.split sum.split option.split bool.split)
qed

lemma writing_embeddings: "writing (handleEmbeddings dp ev)"
  unfolding writing_def
proof (intro allI impI)
  fix r s w x
  assume x: "writes w x"
  obtain q y where q: "decodeRequestBody dec_EmbeddingRequest zero_EmbeddingRequest r x = (q, y)" by fastforce
  then have y: "writes w y" using writes_body [OF x, of dec_EmbeddingRequest zero_EmbeddingRequest r] by simp
  show "writes w (snd (snd (handleEmbeddings dp ev r s x)))"
    using y writes_tpm [OF y, of dp ev "identity_of r s" 100 s]
    by (auto simp: handleEmbeddings_def q Let_def writes_intros split: prod.split sum.split option.split bool.split)
qed

lemma writing_models: "writing (handleListModels dp ev)"
  by (auto simp: writing_def handleListModels_def writes_intros split: prod.split sum.split)

lemma writing_rateLimit: "writing h \<Longrightarrow> writing (rateLimit dp ev h)"
  by (auto simp: writing_def rateLimit_def writes_intros split: prod.split option.split bool.split)

lemma writing_authenticate: "writing h \<Longrightarrow> writing (authenticate dp h)"
  by (auto simp: writing_def authenticate_def writes_JSON errorStatus_final split: prod.split sum.split)

text \<open>Every request of the client API that is answered is logged, counted and traced with the status that the client gets.\<close>

theorem client_requests_noted:
  fixes n :: noted
  assumes "h \<in> {handleChatCompletion dp ev, handleEmbeddings dp ev, handleListModels dp ev}"
    and "authenticate dp (rateLimit dp ev h) r s w = (Returned, s', w')" "rw_sent w = None"
  shows "\<exists>cs n'. w' = fold net_call cs w \<and>
    observe m t pattern now (\<lambda>_ _. (Returned, s', cs)) net_call r (s, n) w = (Returned, (s', n'), w') \<and>
    nt_log n' = nt_log n @ [access_entry r s' (rw_status w') (time_Sub (now 3) (now 0))] \<and> ActiveRequests n' = ActiveRequests n \<and>
    RequestsTotal n' = (if m then counted (rq_Method r) (routePattern pattern r) (rw_status w') (RequestsTotal n) else RequestsTotal n) \<and>
    map sp_status_code (nt_spans n') = map sp_status_code (nt_spans n) @ (if t then [Some (rw_status w')] else [])"
proof -
  have "writing (authenticate dp (rateLimit dp ev h))"
    using assms(1) writing_chat writing_embeddings writing_models by (auto intro!: writing_authenticate writing_rateLimit)
  then have "writes w w'" using assms(2) unfolding writing_def by (metis writes_refl snd_conv)
  then obtain cs where cs: "orderly cs" "w' = fold net_call cs w" by (auto simp: writes_def)
  from request_noted [of "\<lambda>_ _. (Returned, s', cs)" r s s' cs w m t pattern now n, OF refl cs(1) assms(3)] cs(2) show ?thesis by blast
qed

end
