(* ===== verification/Spec2Isabelle.thy ===== *)
theory Spec2Isabelle
  imports Rate_Limit Quota Proxy_Service Key_Store Usage_Workers Forward Cache_Key Admin_Props Native Startup Lifecycle Server_Errors Typed_Bodies Observability
begin

text \<open>
  \<^bold>\<open>Gandalf, a gateway for large language models.\<close> Clients send requests in the format of the OpenAI API, or in the native format of
  a provider, to one HTTP server. The server authenticates the caller by an API key, checks budget, request and
  token limits and the models that the key may use, looks into a response cache, resolves the model to a list of provider
  targets, and calls these in the order of their priority behind circuit breakers. Adapters translate requests,
  responses and streams for OpenAI, Ollama, Anthropic and Gemini. Usage is recorded in the background in a SQLite
  store, which also holds organisations, teams, keys, providers and routes; an admin API edits them. This library
  models that program, the Go sources under \<open>src/\<close>, and proves what its parts promise.

  \<^bold>\<open>The model.\<close> Each theory opens with a text that says which files it models. A Go struct is a record, a pointer an option, a
  slice a list, a map a partial function (shared objects behind pointers: theory \<open>Object_Registry\<close>), \<open>int\<close> and \<open>int64\<close> are integers
  with \<open>wrap64\<close> where the code may overflow, \<open>float64\<close> an exact rational, a time a number of nanoseconds, a string its
  bytes, an error a tree (\<open>goerror\<close>) on which \<open>errors.Is\<close> and \<open>errors.As\<close> are computed. Functions keep the names of the
  sources; a prefix tells equal names of several packages apart. Code under a mutex is one step. Clock readings, random
  identifiers, the choices of \<open>select\<close> and the order in which Go ranges over a map are arguments, so that theorems hold for
  all of them. What is not in the repository is an argument too, with its documented behaviour as a hypothesis that the
  witnesses instantiate: the cache library (\<open>otter_ok\<close>), the JSON path library (\<open>gjson_ok\<close>), the network (\<open>http_env\<close>), the
  driver of SQLite (an error for every statement), the decoder of AWS event streams, cloud SDKs, YAML and DNS.

  \<^bold>\<open>Theories and what they show.\<close>
  \<^item> \<open>Gandalf_Prelude\<close>, \<open>Gateway\<close>: shared definitions and lemmas; domain types, roles, request metadata
    (\<open>internal/gateway.go\<close>, \<open>errors.go\<close>).
  \<^item> \<open>Sliding_Window\<close>, \<open>Circuit_Breaker\<close>, \<open>Breaker_Registry\<close> (\<open>internal/circuitbreaker\<close>): the ring buffer refines a log of
    outcomes, the breaker refines an automaton over that log; open breakers fail fast, half-open ones admit one probe, failing
    providers trip. The breaker relies on the locale \<open>error_window\<close>, both registries on \<open>object_registry\<close>.
  \<^item> \<open>Rate_Limit\<close>, \<open>Quota\<close> (\<open>internal/ratelimit\<close>, \<open>worker/quota_sync.go\<close>, \<open>tokencount\<close>): no sequence of calls admits more than limit and
    refill allow; waiting times are exact; budgets are checked against stored and consumed cost, also after a restart.
  \<^item> \<open>Json\<close>, \<open>Json_Decode\<close>, \<open>Json_Raw\<close>, \<open>Wire\<close>, \<open>Json_Typed\<close>, \<open>Typed_Bodies\<close>: \<open>encoding/json\<close> with raw messages, and the JSON form of the
    API types, with the round trips that the adapters and the cache rest on; whatever the bytes of a body, what is decoded
    from it is well typed and can be encoded again.
  \<^item> \<open>Otter_Cache\<close>, \<open>Router\<close>, \<open>Proxy_Service\<close> (\<open>internal/cache\<close>, \<open>internal/app\<close>, \<open>provider/provider.go\<close>): routes in priority order with
    bounded staleness; failover calls targets in order, skips open breakers and succeeds if some target can.
  \<^item> \<open>Sha256\<close>, \<open>Rfc3339\<close>, \<open>Sql_Store\<close>, \<open>Usage_Store\<close>, \<open>Key_Store\<close>, \<open>Auth\<close> (\<open>internal/storage/sqlite\<close>, \<open>internal/auth\<close>,
    \<open>app/keymanager.go\<close>): table invariants, round trips of keys, time windows of usage; only current keys are
    accepted, through the locale \<open>key_store\<close> that the SQLite store interprets.
  \<^item> \<open>Usage_Workers\<close> (\<open>internal/worker\<close>): the recorder loses and doubles no record, the rollup writes the hourly sums.
  \<^item> \<open>Http\<close>, \<open>Sse\<close>, \<open>Openai\<close>, \<open>Anthropic\<close>, \<open>Gemini\<close>, \<open>Forward\<close> (\<open>internal/provider\<close>): translation and streams; passthrough hides
    the credentials of the client.
  \<^item> \<open>Cache_Key\<close>, \<open>Server\<close>, \<open>Server_Props\<close>, \<open>Server_Errors\<close>, \<open>Observability\<close>, \<open>Admin\<close>, \<open>Admin_Props\<close>, \<open>Native\<close> (\<open>internal/server\<close>): cache keys separate callers and questions;
    no service is asked for a request that is not admitted; answers are replayed from the cache byte by byte; streams are
    relayed whole; the texts of upstream errors do not reach clients; requests are logged,
    counted and traced with the status the client gets (locale \<open>response_writer\<close> for the stack of writers);
    admin endpoints need the role, and key endpoints stay within the organisation.
  \<^item> \<open>Config_Boot\<close>, \<open>Cloud_Auth\<close>, \<open>Startup\<close>, \<open>Lifecycle\<close> (\<open>internal/config\<close>, \<open>internal/cloudauth\<close>, \<open>cmd/gandalf\<close>): the bootstrap seeds the store once
    and is idempotent (locale \<open>seeding\<close>, one interpretation for each of its three loops); providers get their own
    credentials only; the gateway starts or says why not; a clean shutdown ends and keeps every usage record.

  \<^bold>\<open>Bounds.\<close> Loops are structural recursions, or have a measure. The JSON parser recurses on twice the length of its text plus
  two, which \<open>parse_fuel\<close> shows to be enough. The shutdown is a step relation; its theorem bounds the number of steps.

  \<^bold>\<open>Not modelled.\<close> Rounding of floating-point numbers; the nesting limit of \<open>encoding/json\<close>; \<open>context\<close> deadlines other than as errors
  of calls; the libraries of Prometheus and OpenTelemetry (\<open>internal/telemetry\<close>), the counters that handlers
  increment and log lines other than the access log, none of which changes requests or responses; the path matching of the chi router (an endpoint is given with its parameters);
  HTTP connections, redirects and TLS (the network is an argument); the SQL engine beyond the statements of the sources, and
  goose migrations; \<open>sync.Pool\<close> and other allocation savings; the flags of \<open>main\<close>; interfaces without code
  (\<open>storage.go\<close>, \<open>cache.go\<close>, \<open>worker.go\<close>) and the test doubles of \<open>internal/testutil\<close>.
\<close>

end
